theory Spec2Isabelle
  imports Complex_Main
begin

section \<open>libdnn: the DNN and CNN orchestration, embedded\<close>

text \<open>
  The C++ sources are \<^verbatim>\<open>src/cnn.cu\<close> (class CNN, ConvolutionalLayer,
  SubSamplingLayer) and the unnamed part holding \<^verbatim>\<open>feature-transform.h\<close>,
  \<^verbatim>\<open>dnn.cpp\<close> and \<^verbatim>\<open>dataset.cpp\<close>.
  The C type \<^verbatim>\<open>float\<close> is idealised as \<^typ>\<open>real\<close> throughout: rounding is
  not modelled. \<^verbatim>\<open>size_t\<close> is \<^typ>\<open>nat\<close>; where a product of sizes
  can wrap, the reduction modulo \<open>2 ^ 64\<close> is written out.
\<close>

subsection \<open>The learning-rate schedule of DNN\<close>

text \<open>
  Modelled from the spec: the type \<^verbatim>\<open>Config\<close> is declared in a header that is not
  part of the sources; the spec gives it a learning rate and a weight-initialisation
  variance.
\<close>

record Config =
  learningRate :: real
  variance :: real

text \<open>
  \<^verbatim>\<open>DNN::adjustLearningRate\<close> keeps \<^verbatim>\<open>static size_t phase = 0\<close>: one counter for
  the whole process. The state threaded through a call is that counter together with the
  \<^verbatim>\<open>_config\<close> of the DNN the method is called on.
\<close>

record sched =
  phase :: nat
  config :: Config

definition adjustLearningRate :: "real \<Rightarrow> sched \<Rightarrow> sched" where
  "adjustLearningRate trainAcc s =
     (if (trainAcc > 0.80 \<and> phase s = 0) \<or>
         (trainAcc > 0.85 \<and> phase s = 1) \<or>
         (trainAcc > 0.90 \<and> phase s = 2) \<or>
         (trainAcc > 0.92 \<and> phase s = 3) \<or>
         (trainAcc > 0.95 \<and> phase s = 4) \<or>
         (trainAcc > 0.97 \<and> phase s = 5)
      then (let ratio = 0.9 in
            s\<lparr>config := (config s)\<lparr>learningRate := learningRate (config s) * ratio\<rparr>,
              phase := phase s + 1\<rparr>)
      else s)"

text \<open>A sequence of calls, in order.\<close>

definition adjust_calls :: "real list \<Rightarrow> sched \<Rightarrow> sched" where
  "adjust_calls accs s = fold adjustLearningRate accs s"

text \<open>The thresholds of the schedule, as the spec lists them.\<close>

definition thresholds :: "real list" where
  "thresholds = [0.80, 0.85, 0.90, 0.92, 0.95, 0.97]"

text \<open>
  The spec's reading of the schedule: one factor \<open>0.9\<close> for every threshold that some
  accuracy of the sequence has crossed.
\<close>

definition crossed_thresholds :: "real list \<Rightarrow> nat" where
  "crossed_thresholds accs = length (filter (\<lambda>t. list_ex (\<lambda>a. a > t) accs) thresholds)"

definition spec_learningRate :: "real list \<Rightarrow> real \<Rightarrow> real" where
  "spec_learningRate accs lr = lr * 0.9 ^ crossed_thresholds accs"

text \<open>
  A loop whose rounds may each fail: the first error in order, or the values of all rounds.
\<close>

fun collect :: "('e + 'a) list \<Rightarrow> 'e + 'a list" where
  "collect [] = Inr []"
| "collect (x # xs) =
     (case x of
        Inl e \<Rightarrow> Inl e
      | Inr v \<Rightarrow> (case collect xs of Inl e \<Rightarrow> Inl e | Inr vs \<Rightarrow> Inr (v # vs)))"

subsection \<open>Matrices\<close>

text \<open>
  \<^verbatim>\<open>typedef device_matrix<float> mat\<close>: a number of rows, a number of columns and
  the entries in column-major order, entry \<open>(r, c)\<close> at offset \<open>c * rows + r\<close> (the
  sources index \<^verbatim>\<open>data[k * rows + j]\<close>). The matrix library itself is not part of the
  sources; the operations on it below are the standard ones it is used for.
\<close>

record mat =
  rows :: nat
  cols :: nat
  data :: "real list"

definition elem :: "mat \<Rightarrow> nat \<Rightarrow> nat \<Rightarrow> real" where
  "elem A r c = data A ! (c * rows A + r)"

definition mat_of :: "nat \<Rightarrow> nat \<Rightarrow> (nat \<Rightarrow> nat \<Rightarrow> real) \<Rightarrow> mat" where
  "mat_of h w f = \<lparr>rows = h, cols = w, data = map (\<lambda>i. f (i mod h) (i div h)) [0..<h * w]\<rparr>"

definition wf_mat :: "mat \<Rightarrow> bool" where
  "wf_mat A = (length (data A) = rows A * cols A)"

definition zeros :: "nat \<Rightarrow> nat \<Rightarrow> mat" where
  "zeros h w = \<lparr>rows = h, cols = w, data = replicate (h * w) 0\<rparr>"

definition mat_map :: "(real \<Rightarrow> real) \<Rightarrow> mat \<Rightarrow> mat" where
  "mat_map f A = A\<lparr>data := map f (data A)\<rparr>"

definition mat_add :: "mat \<Rightarrow> mat \<Rightarrow> mat" where
  "mat_add A B = A\<lparr>data := map2 (+) (data A) (data B)\<rparr>"

definition mat_sub :: "mat \<Rightarrow> mat \<Rightarrow> mat" where
  "mat_sub A B = A\<lparr>data := map2 (-) (data A) (data B)\<rparr>"

definition mat_add_scalar :: "mat \<Rightarrow> real \<Rightarrow> mat" where
  "mat_add_scalar A x = mat_map (\<lambda>a. a + x) A"

definition mat_scale :: "mat \<Rightarrow> real \<Rightarrow> mat" where
  "mat_scale A x = mat_map (\<lambda>a. a * x) A"

definition mat_div_scalar :: "mat \<Rightarrow> real \<Rightarrow> mat" where
  "mat_div_scalar A x = mat_map (\<lambda>a. a / x) A"

definition sum_all :: "mat \<Rightarrow> real" where
  "sum_all A = sum_list (data A)"

text \<open>\<^verbatim>\<open>func::sigmoid\<close>, the logistic function.\<close>

definition sigmoid :: "real \<Rightarrow> real" where
  "sigmoid x = 1 / (1 + exp (- x))"

subsection \<open>Image utilities used by the CNN layers\<close>

text \<open>\<^verbatim>\<open>SIZE\<close>: the height \<^verbatim>\<open>m\<close> and the width \<^verbatim>\<open>n\<close> of an image.\<close>

record SIZE =
  size_m :: nat
  size_n :: nat

text \<open>
  Modelled from the spec: \<^verbatim>\<open>reshapeVectors2Images\<close> and \<^verbatim>\<open>reshapeImages2Vectors\<close>
  are not part of the sources. The spec: they convert between a batch of flattened images
  as matrix columns and a list of per-sample 2D image matrices, and are inverse to each
  other. Column \<open>k\<close> of the matrix is the column-major image of sample \<open>k\<close>.
\<close>

definition reshapeVectors2Images :: "mat \<Rightarrow> SIZE \<Rightarrow> mat list" where
  "reshapeVectors2Images x s =
     map (\<lambda>k. \<lparr>rows = size_m s, cols = size_n s,
               data = take (size_m s * size_n s) (drop (k * rows x) (data x))\<rparr>)
         [0..<cols x]"

definition reshapeImages2Vectors :: "mat list \<Rightarrow> mat" where
  "reshapeImages2Vectors imgs =
     \<lparr>rows = (case imgs of [] \<Rightarrow> 0 | i # _ \<Rightarrow> rows i * cols i),
      cols = length imgs,
      data = concat (map data imgs)\<rparr>"

text \<open>
  Modelled from the spec: \<^verbatim>\<open>convn\<close> and \<^verbatim>\<open>rot180\<close> are not part of the sources.
  The note above \<^verbatim>\<open>ConvolutionalLayer::backPropagate\<close> fixes \<^verbatim>\<open>convn\<close> as MATLAB's
  convolution, which differs from the cross-correlation \<^verbatim>\<open>xcorr2\<close> by a rotation of the
  kernel: \<^verbatim>\<open>convn(x, rot180(h)) == xcorr2(x, h)\<close>; the spec's duality property says the
  same. "valid" keeps the positions where the kernel lies inside the image, "full" pads
  the image with zeros. The mode \<^verbatim>\<open>"valid_shm"\<close> of the forward pass is the valid mode.
\<close>

definition convn_valid_at :: "mat \<Rightarrow> mat \<Rightarrow> nat \<Rightarrow> nat \<Rightarrow> real" where
  "convn_valid_at x k r c =
     (\<Sum>p\<leftarrow>[0..<rows k]. \<Sum>q\<leftarrow>[0..<cols k].
        elem x (r + rows k - 1 - p) (c + cols k - 1 - q) * elem k p q)"

definition convn_valid :: "mat \<Rightarrow> mat \<Rightarrow> mat" where
  "convn_valid x k =
     mat_of (rows x + 1 - rows k) (cols x + 1 - cols k) (convn_valid_at x k)"

definition convn_full_at :: "mat \<Rightarrow> mat \<Rightarrow> nat \<Rightarrow> nat \<Rightarrow> real" where
  "convn_full_at x k r c =
     (\<Sum>p\<leftarrow>[0..<rows k]. \<Sum>q\<leftarrow>[0..<cols k].
        (if p \<le> r \<and> r - p < rows x \<and> q \<le> c \<and> c - q < cols x
         then elem x (r - p) (c - q) * elem k p q else 0))"

definition convn_full :: "mat \<Rightarrow> mat \<Rightarrow> mat" where
  "convn_full x k =
     mat_of (rows x + rows k - 1) (cols x + cols k - 1) (convn_full_at x k)"

definition rot180 :: "mat \<Rightarrow> mat" where
  "rot180 A = mat_of (rows A) (cols A) (\<lambda>r c. elem A (rows A - 1 - r) (cols A - 1 - c))"

text \<open>The valid-mode cross-correlation \<^verbatim>\<open>xcorr2\<close> that the note contrasts with \<^verbatim>\<open>convn\<close>.\<close>

definition xcorr_valid_at :: "mat \<Rightarrow> mat \<Rightarrow> nat \<Rightarrow> nat \<Rightarrow> real" where
  "xcorr_valid_at x k r c =
     (\<Sum>p\<leftarrow>[0..<rows k]. \<Sum>q\<leftarrow>[0..<cols k]. elem x (r + p) (c + q) * elem k p q)"

definition xcorr_valid :: "mat \<Rightarrow> mat \<Rightarrow> mat" where
  "xcorr_valid x k =
     mat_of (rows x + 1 - rows k) (cols x + 1 - cols k) (xcorr_valid_at x k)"

text \<open>
  Modelled from the spec: \<^verbatim>\<open>downsample\<close> and \<^verbatim>\<open>upsample\<close> are not part of the sources.
  The spec: upsampling brings the output-side delta back to the input resolution, every
  entry of a pooled block taking the value of the block.
\<close>

definition upsample :: "mat \<Rightarrow> SIZE \<Rightarrow> mat" where
  "upsample x s =
     mat_of (size_m s) (size_n s)
       (\<lambda>r c. elem x (r div (size_m s div rows x)) (c div (size_n s div cols x)))"

subsection \<open>The layers of the CNN\<close>

text \<open>
  \<^verbatim>\<open>MIMOFeatureTransform\<close> with its two subclasses. The base class holds the numbers of
  input and output maps and \<^verbatim>\<open>_input_img_size\<close>; the convolutional layer adds
  \<^verbatim>\<open>_kernels\<close> (indexed \<^verbatim>\<open>[i][j]\<close>, input map first) and \<^verbatim>\<open>_bias\<close>, the sub-sampling
  layer \<^verbatim>\<open>_scale\<close>.
\<close>

datatype MIMOFeatureTransform =
  ConvolutionalLayer
    (getNumInputMaps: nat) (getNumOutputMaps: nat) (get_input_img_size: SIZE)
    (kernels: "mat list list") (bias: "real list")
  | SubSamplingLayer
    (getNumInputMaps: nat) (getNumOutputMaps: nat) (get_input_img_size: SIZE)
    (getScale: nat)

fun set_input_img_size :: "SIZE \<Rightarrow> MIMOFeatureTransform \<Rightarrow> MIMOFeatureTransform" where
  "set_input_img_size s (ConvolutionalLayer n m _ k b) = ConvolutionalLayer n m s k b"
| "set_input_img_size s (SubSamplingLayer n m _ sc) = SubSamplingLayer n m s sc"

definition getKernelWidth :: "MIMOFeatureTransform \<Rightarrow> nat" where
  "getKernelWidth L = cols (kernels L ! 0 ! 0)"

definition getKernelHeight :: "MIMOFeatureTransform \<Rightarrow> nat" where
  "getKernelHeight L = rows (kernels L ! 0 ! 0)"

text \<open>
  Modelled from the spec: \<^verbatim>\<open>get_output_img_size\<close> is declared in a header that is not
  part of the sources. The spec: sub-sampling divides the image size by the scale,
  convolution shrinks it by the kernel dimension minus one (valid mode).
\<close>

fun get_output_img_size :: "MIMOFeatureTransform \<Rightarrow> SIZE" where
  "get_output_img_size (ConvolutionalLayer n m s k b) =
     \<lparr>size_m = size_m s + 1 - rows (k ! 0 ! 0), size_n = size_n s + 1 - cols (k ! 0 ! 0)\<rparr>"
| "get_output_img_size (SubSamplingLayer n m s sc) =
     \<lparr>size_m = size_m s div sc, size_n = size_n s div sc\<rparr>"

datatype cnn_error =
  NoSuchLayer string
  | NumberOfInputMaps nat nat
  | OutOfRange
  | AssertionFailed
  | DivisionByZero
  | SignedOverflow

subsection \<open>The unimplemented operations of CNN\<close>

text \<open>
  Class CNN: the layers \<^verbatim>\<open>_transforms\<close> and the cache \<^verbatim>\<open>_houts\<close> of the layers'
  outputs.
\<close>

record CNN =
  transforms :: "MIMOFeatureTransform list"
  houts :: "mat list list"

text \<open>
  The three member functions have an empty body (a \<^verbatim>\<open>// TODO\<close> comment only). A call
  returns normally; the result type still has room for an error, which none of them
  produces. \<^verbatim>\<open>feedBackward\<close> takes \<^verbatim>\<open>error\<close> by reference, so the caller's matrix is
  part of the result; \<^verbatim>\<open>save\<close> is \<^verbatim>\<open>const\<close> and is given the files on disk (name and
  content) to show that it writes none.
\<close>

definition CNN_feedBackward :: "CNN \<Rightarrow> mat \<Rightarrow> mat \<Rightarrow> cnn_error + CNN \<times> mat" where
  "CNN_feedBackward cnn error delta = Inr (cnn, error)"

definition CNN_read :: "string \<Rightarrow> CNN \<Rightarrow> cnn_error + CNN" where
  "CNN_read fn cnn = Inr cnn"

definition CNN_save ::
  "string \<Rightarrow> CNN \<Rightarrow> (string \<times> string) list \<Rightarrow> cnn_error + (string \<times> string) list" where
  "CNN_save fn cnn disk = Inr disk"

subsection \<open>Construction of the layers from a descriptor\<close>

text \<open>
  Modelled from the spec: \<^verbatim>\<open>split\<close> and \<^verbatim>\<open>str2int\<close> are utilities that are not part
  of the sources. \<^verbatim>\<open>split\<close> cuts a string at every delimiter (an item per delimiter met,
  and one for a non-empty rest); \<^verbatim>\<open>str2int\<close> reads the decimal digits a string starts
  with, as \<^verbatim>\<open>atoi\<close> does, and gives 0 when there is none.
\<close>

fun split_aux :: "string \<Rightarrow> char \<Rightarrow> string \<Rightarrow> string list" where
  "split_aux [] d cur = (if cur = [] then [] else [cur])"
| "split_aux (c # cs) d cur =
     (if c = d then cur # split_aux cs d [] else split_aux cs d (cur @ [c]))"

definition split_str :: "string \<Rightarrow> char \<Rightarrow> string list" where
  "split_str s d = split_aux s d []"

definition is_digit :: "char \<Rightarrow> bool" where
  "is_digit c = (c \<in> set ''0123456789'')"

definition digit_val :: "char \<Rightarrow> int" where
  "digit_val c = int (of_char c) - 48"

fun str2int_aux :: "int \<Rightarrow> string \<Rightarrow> int" where
  "str2int_aux acc [] = acc"
| "str2int_aux acc (c # cs) =
     (if is_digit c then str2int_aux (acc * 10 + digit_val c) cs else acc)"

definition str2int :: "string \<Rightarrow> int" where
  "str2int s = str2int_aux 0 s"

text \<open>
  The integer conversions of \<^verbatim>\<open>CNN::init\<close>. The result of \<^verbatim>\<open>str2int\<close> initialises a
  \<^verbatim>\<open>size_t\<close> (64 bits, modulo \<open>2 ^ 64\<close>); the \<^verbatim>\<open>size_t\<close> values \<^verbatim>\<open>kernel_height\<close> and
  \<^verbatim>\<open>kernel_width\<close> are passed for the parameters \<^verbatim>\<open>int h, int w\<close> of the constructor
  (32 bits, two's complement).
\<close>

definition to_size_t :: "int \<Rightarrow> nat" where
  "to_size_t i = nat (i mod 2 ^ 64)"

definition to_int32 :: "nat \<Rightarrow> int" where
  "to_int32 n = (let r = int n mod 2 ^ 32 in if r < 2 ^ 31 then r else r - 2 ^ 32)"

text \<open>
  \<^verbatim>\<open>ConvolutionalLayer::ConvolutionalLayer(size_t n, size_t m, int h, int w)\<close>, on
  \<open>h\<close> and \<open>w\<close> in the range of \<^verbatim>\<open>int\<close>. The kernels are not drawn at random (that line
  is commented out): kernel \<^verbatim>\<open>[i][j]\<close> is loaded from the file \<^verbatim>\<open>k<c>.mat\<close>, where \<open>c\<close>
  is the value of a process-wide \<^verbatim>\<open>static int counter\<close> that is incremented before every
  load. The files are given as \<open>kfile\<close>, the matrix stored under each number; the counter
  is threaded through. The two loops visit \<open>(i, j)\<close> row by row, so kernel \<open>[i][j]\<close> is
  loaded with the counter at \<open>counter + i * m + j + 1\<close>; the counter is an \<^verbatim>\<open>int\<close>, and
  the \<open>n * m\<close> increments must not take it past \<open>2 ^ 31 - 1\<close>. \<open>h\<close> and \<open>w\<close> are used by
  the assertion and by the line
  \<^verbatim>\<open>printf("Initializing %lu x %lu kernels of size %d x %d\n", n, m, h, w)\<close> only; the
  numbers printed are kept as \<open>Initializing n m h w\<close>. The input image size is set
  afterwards by the caller.
\<close>

datatype printed = Initializing nat nat int int

definition new_ConvolutionalLayer ::
  "(nat \<Rightarrow> mat) \<Rightarrow> nat \<Rightarrow> nat \<Rightarrow> nat \<Rightarrow> int \<Rightarrow> int
     \<Rightarrow> cnn_error + MIMOFeatureTransform \<times> nat \<times> printed" where
  "new_ConvolutionalLayer kfile counter n m h w0 =
     (let w = (if w0 = - 1 then h else w0) in
      if \<not> (n > 0 \<and> m > 0 \<and> h > 0 \<and> w > 0) then Inl AssertionFailed
      else if \<not> counter + n * m < 2 ^ 31 then Inl SignedOverflow
      else Inr (ConvolutionalLayer n m \<lparr>size_m = 0, size_n = 0\<rparr>
                  (map (\<lambda>i. map (\<lambda>j. kfile (counter + i * m + j + 1)) [0..<m]) [0..<n])
                  (replicate m 0),
                counter + n * m,
                Initializing n m h w))"

text \<open>
  \<^verbatim>\<open>CNN::init\<close>. The state of the loop: the layers pushed to \<^verbatim>\<open>_transforms\<close>, the
  running \<^verbatim>\<open>img_size\<close> and \<^verbatim>\<open>nInputMaps\<close>, the constructor's static counter and the
  lines the constructors have printed.
\<close>

record init_state =
  built :: "MIMOFeatureTransform list"
  img_size :: SIZE
  nInputMaps :: nat
  counter :: nat
  stdout :: "printed list"

text \<open>
  One iteration of the loop, for the token \<^verbatim>\<open>layers[i]\<close>. The sub-sampling layer's
  output size divides by the scale: a scale of 0 is a division by zero. \<^verbatim>\<open>dims[1]\<close> and
  \<^verbatim>\<open>dims[2]\<close> are read without a check of \<^verbatim>\<open>dims.size()\<close>: fewer than three items is
  a read out of range.
\<close>

definition init_token :: "(nat \<Rightarrow> mat) \<Rightarrow> string \<Rightarrow> init_state \<Rightarrow> cnn_error + init_state" where
  "init_token kfile tok st =
     (if CHR ''s'' \<in> set tok then
        (let scale = to_size_t (str2int (take (length tok - 1) tok));
             nOutputMaps = nInputMaps st;
             t = set_input_img_size (img_size st)
                   (SubSamplingLayer (nInputMaps st) nOutputMaps \<lparr>size_m = 0, size_n = 0\<rparr> scale)
         in if scale = 0 then Inl DivisionByZero
            else Inr (st\<lparr>built := built st @ [t], img_size := get_output_img_size t\<rparr>))
      else if CHR ''x'' \<in> set tok then
        (let dims = split_str tok CHR ''x'' in
         if length dims < 3 then Inl OutOfRange
         else
           (let nOutputMaps = to_size_t (str2int (dims ! 0));
                kernel_width = to_size_t (str2int (dims ! 1));
                kernel_height = to_size_t (str2int (dims ! 2))
            in case new_ConvolutionalLayer kfile (counter st) (nInputMaps st) nOutputMaps
                      (to_int32 kernel_height) (to_int32 kernel_width) of
                 Inl e \<Rightarrow> Inl e
               | Inr (t0, c, line) \<Rightarrow>
                   (let t = set_input_img_size (img_size st) t0
                    in Inr (st\<lparr>built := built st @ [t], img_size := get_output_img_size t,
                               nInputMaps := nOutputMaps, counter := c,
                               stdout := stdout st @ [line]\<rparr>))))
      else Inl (NoSuchLayer tok))"

text \<open>
  The loop over the tokens. An exception leaves the loop at once; the layers pushed so
  far stay in \<^verbatim>\<open>_transforms\<close>, so the error comes with the state before the token.
\<close>

fun init_layers ::
  "(nat \<Rightarrow> mat) \<Rightarrow> string list \<Rightarrow> init_state \<Rightarrow> cnn_error \<times> init_state + init_state" where
  "init_layers kfile [] st = Inr st"
| "init_layers kfile (tok # toks) st =
     (case init_token kfile tok st of
        Inl e \<Rightarrow> Inl (e, st)
      | Inr st' \<Rightarrow> init_layers kfile toks st')"

definition CNN_init ::
  "(nat \<Rightarrow> mat) \<Rightarrow> string \<Rightarrow> SIZE \<Rightarrow> MIMOFeatureTransform list \<Rightarrow> nat
     \<Rightarrow> cnn_error \<times> init_state + init_state" where
  "CNN_init kfile structure size0 transforms0 counter0 =
     init_layers kfile (split_str structure CHR ''-'')
       \<lparr>built = transforms0, img_size = size0, nInputMaps = 1, counter = counter0,
        stdout = []\<rparr>"

text \<open>
  The two token forms of the spec, \<^verbatim>\<open>\d+s\<close> and \<^verbatim>\<open>\d+x\d+x\d+\<close>, as predicates on a
  token.
\<close>

definition digits1 :: "string \<Rightarrow> bool" where
  "digits1 s = (s \<noteq> [] \<and> list_all is_digit s)"

definition token_is_subsampling_form :: "string \<Rightarrow> bool" where
  "token_is_subsampling_form tok =
     (tok \<noteq> [] \<and> last tok = CHR ''s'' \<and> digits1 (butlast tok))"

definition token_is_convolutional_form :: "string \<Rightarrow> bool" where
  "token_is_convolutional_form tok =
     (let a = takeWhile is_digit tok; r1 = dropWhile is_digit tok;
          b = takeWhile is_digit (tl r1); r2 = dropWhile is_digit (tl r1)
      in a \<noteq> [] \<and> r1 \<noteq> [] \<and> hd r1 = CHR ''x'' \<and>
         b \<noteq> [] \<and> r2 \<noteq> [] \<and> hd r2 = CHR ''x'' \<and> digits1 (tl r2))"

text \<open>
  The layers of a list are chained from an image size and a map count: each takes as
  input what the one before it gives as output.
\<close>

fun chained :: "SIZE \<Rightarrow> nat \<Rightarrow> MIMOFeatureTransform list \<Rightarrow> bool" where
  "chained s n [] = True"
| "chained s n (t # ts) =
     (get_input_img_size t = s \<and> getNumInputMaps t = n \<and>
      chained (get_output_img_size t) (getNumOutputMaps t) ts)"

fun final_size :: "SIZE \<Rightarrow> MIMOFeatureTransform list \<Rightarrow> SIZE" where
  "final_size s [] = s"
| "final_size s (t # ts) = final_size (get_output_img_size t) ts"

fun final_maps :: "nat \<Rightarrow> MIMOFeatureTransform list \<Rightarrow> nat" where
  "final_maps n [] = n"
| "final_maps n (t # ts) = final_maps (getNumOutputMaps t) ts"

subsection \<open>Example inputs\<close>

text \<open>Kernel files that all hold a kernel of 5 rows and 3 columns, and a fresh state
  of \<^verbatim>\<open>CNN::init\<close> for images of 10 by 10.\<close>

definition example_kfile :: "nat \<Rightarrow> mat" where
  "example_kfile c = zeros 5 3"

definition example_init_state :: init_state where
  "example_init_state =
     \<lparr>built = [], img_size = \<lparr>size_m = 10, size_n = 10\<rparr>, nInputMaps = 1, counter = 0,
      stdout = []\<rparr>"

text \<open>The output image size the spec gives a convolutional layer whose token announces a
  kernel of height \<open>H\<close> and width \<open>W\<close>.\<close>

definition spec_conv_output_size :: "SIZE \<Rightarrow> nat \<Rightarrow> nat \<Rightarrow> SIZE" where
  "spec_conv_output_size s H W = \<lparr>size_m = size_m s - H + 1, size_n = size_n s - W + 1\<rparr>"

subsection \<open>The layers of the DNN and its copy constructor\<close>

text \<open>
  Modelled from the spec: the classes \<^verbatim>\<open>Sigmoid\<close> and \<^verbatim>\<open>Softmax\<close> that
  \<^verbatim>\<open>dnn.cpp\<close> instantiates are declared in a header that is not part of the sources
  (the header among the sources is an older one). The spec: a layer is one of the variants,
  and owns a weight matrix \<open>W\<close> and a gradient matrix \<open>dW\<close>.
\<close>

datatype transform_type = Sigmoid | Softmax

record FeatureTransform =
  ftype :: transform_type
  getW :: mat
  getDw :: mat

text \<open>
  A DNN holds pointers to its layers (\<^verbatim>\<open>std::vector<FeatureTransform*> _transforms\<close>)
  and a \<^verbatim>\<open>Config\<close>. The layer objects live on the heap: a store from addresses to
  objects, with the next address \<^verbatim>\<open>new\<close> hands out.
\<close>

record heap =
  objs :: "nat \<Rightarrow> FeatureTransform option"
  next_free :: nat

record DNN =
  dnn_transforms :: "nat list"
  dnn_config :: Config

definition heap_ok :: "heap \<Rightarrow> bool" where
  "heap_ok h = (\<forall>a. objs h a \<noteq> None \<longrightarrow> a < next_free h)"

definition new_obj :: "FeatureTransform \<Rightarrow> heap \<Rightarrow> nat \<times> heap" where
  "new_obj x h =
     (next_free h, h\<lparr>objs := (objs h)(next_free h \<mapsto> x), next_free := next_free h + 1\<rparr>)"

text \<open>A write through a pointer: the object at the address is replaced.\<close>

definition store :: "nat \<Rightarrow> FeatureTransform \<Rightarrow> heap \<Rightarrow> heap" where
  "store p x h = h\<lparr>objs := (objs h)(p \<mapsto> x)\<rparr>"

text \<open>
  Modelled from the spec: the virtual method \<^verbatim>\<open>clone\<close> of the layer classes is not part
  of the sources. The spec: the layers are deep-copied on copy-construction, so
  \<^verbatim>\<open>clone\<close> allocates a new object with the contents of the one it is called on. A call
  through a pointer to no object has no result.
\<close>

definition clone :: "nat \<Rightarrow> heap \<Rightarrow> (nat \<times> heap) option" where
  "clone p h = (case objs h p of None \<Rightarrow> None | Some x \<Rightarrow> Some (new_obj x h))"

text \<open>
  \<^verbatim>\<open>DNN::DNN(const DNN& source): _transforms(source._transforms.size()), _config()\<close>,
  whose body sets \<^verbatim>\<open>_transforms[i] = source._transforms[i]->clone()\<close> for every \<open>i\<close> in
  order. \<^verbatim>\<open>Config\<close>'s default constructor is not part of the sources: the value it
  builds is the parameter \<open>default_config\<close>.
\<close>

fun clone_all :: "nat list \<Rightarrow> heap \<Rightarrow> (nat list \<times> heap) option" where
  "clone_all [] h = Some ([], h)"
| "clone_all (p # ps) h =
     (case clone p h of
        None \<Rightarrow> None
      | Some (q, h1) \<Rightarrow>
          (case clone_all ps h1 of
             None \<Rightarrow> None
           | Some (qs, h2) \<Rightarrow> Some (q # qs, h2)))"

definition DNN_copy :: "Config \<Rightarrow> DNN \<Rightarrow> heap \<Rightarrow> (DNN \<times> heap) option" where
  "DNN_copy default_config source h =
     (case clone_all (dnn_transforms source) h of
        None \<Rightarrow> None
      | Some (qs, h') \<Rightarrow> Some (\<lparr>dnn_transforms = qs, dnn_config = default_config\<rparr>, h'))"

text \<open>An example: a heap with one layer at address 0, owned by a DNN whose configuration
  is not the default one.\<close>

definition example_layer :: FeatureTransform where
  "example_layer = \<lparr>ftype = Softmax, getW = zeros 2 2, getDw = zeros 2 2\<rparr>"

definition example_heap :: heap where
  "example_heap = \<lparr>objs = (\<lambda>a. if a = 0 then Some example_layer else None), next_free = 1\<rparr>"

definition example_source :: DNN where
  "example_source =
     \<lparr>dnn_transforms = [0], dnn_config = \<lparr>learningRate = 0.5, variance = 2\<rparr>\<rparr>"

definition example_default_config :: Config where
  "example_default_config = \<lparr>learningRate = 0.1, variance = 1\<rparr>"

subsection \<open>The forward pass of the DNN\<close>

text \<open>
  \<^verbatim>\<open>ext::sigmoid\<close> and \<^verbatim>\<open>ext::softmax\<close> of \<^verbatim>\<open>feature-transform.h\<close>. Both allocate a
  matrix of the shape of \<open>x\<close> and fill it by
  \<^verbatim>\<open>thrust::transform(xPtr, xPtr + x.size(), sPtr, func::sigmoid<float>())\<close>; the body of
  \<^verbatim>\<open>softmax\<close> starts with the comment \<^verbatim>\<open>// TODO // Do the softmax\<close>. Nothing in the
  sources calls \<^verbatim>\<open>ext::softmax\<close>.
\<close>

definition ext_sigmoid :: "mat \<Rightarrow> mat" where
  "ext_sigmoid x = \<lparr>rows = rows x, cols = cols x, data = map sigmoid (data x)\<rparr>"

definition ext_softmax :: "mat \<Rightarrow> mat" where
  "ext_softmax x = \<lparr>rows = rows x, cols = cols x, data = map sigmoid (data x)\<rparr>"

text \<open>
  \<^verbatim>\<open>fillLastColumnWith\<close>: \<^verbatim>\<open>thrust::fill(ptr + A.size() - A.getRows(), ptr + A.size(), value)\<close>.
  (On a matrix without a column the source's pointer arithmetic leaves the buffer.)
\<close>

definition fillLastColumnWith :: "mat \<Rightarrow> real \<Rightarrow> mat" where
  "fillLastColumnWith A v =
     A\<lparr>data := take (rows A * cols A - rows A) (data A) @ replicate (rows A) v\<rparr>"

text \<open>
  The matrix product and \<^verbatim>\<open>resize\<close> of the matrix library (not part of the sources).
  \<^verbatim>\<open>resize\<close> is used to drop trailing columns only: the column-major buffer keeps its
  leading entries.
\<close>

definition mat_mul :: "mat \<Rightarrow> mat \<Rightarrow> mat" where
  "mat_mul A B =
     mat_of (rows A) (cols B) (\<lambda>r c. \<Sum>k\<leftarrow>[0..<cols A]. elem A r k * elem B k c)"

definition resize :: "mat \<Rightarrow> nat \<Rightarrow> nat \<Rightarrow> mat" where
  "resize A r c = \<lparr>rows = r, cols = c, data = take (r * c) (data A)\<rparr>"

text \<open>
  Modelled from the spec: \<^verbatim>\<open>Sigmoid::feedForward\<close> and \<^verbatim>\<open>Softmax::feedForward\<close> are
  not part of the sources. The spec: a layer computes \<open>out = activation(in \<cdot> W)\<close> on the
  bias-augmented input, and its output emerges bias-augmented for the next layer; a shape
  mismatch between \<open>in\<close> and \<open>W\<close> is a fatal precondition violation; the sigmoid layer
  applies its map entry by entry, and \<^verbatim>\<open>Softmax\<close> applies the normalising nonlinearity
  per sample. The batch is stored one sample per row (\<open>in \<cdot> W\<close> with the bias in the last
  row of \<open>W\<close>, and \<^verbatim>\<open>DNN::feedForward\<close> strips the last column): the softmax of a sample
  is taken over its row, the reserved last column left out.
\<close>

datatype dnn_error = ShapeMismatch | OutOfBounds

definition softmax_rows :: "mat \<Rightarrow> mat" where
  "softmax_rows x =
     mat_of (rows x) (cols x)
       (\<lambda>r c. exp (elem x r c) / (\<Sum>j\<leftarrow>[0..<cols x - 1]. exp (elem x r j)))"

definition feedForward :: "FeatureTransform \<Rightarrow> mat \<Rightarrow> dnn_error + mat" where
  "feedForward t fin =
     (if cols fin \<noteq> rows (getW t) then Inl ShapeMismatch
      else Inr (fillLastColumnWith
                  ((case ftype t of Sigmoid \<Rightarrow> ext_sigmoid | Softmax \<Rightarrow> softmax_rows)
                     (mat_mul fin (getW t))) 1))"

text \<open>
  \<^verbatim>\<open>DNN::feedForward(const mat& fin, std::vector<mat>& O)\<close>: \<^verbatim>\<open>O[0] = fin\<close>, then
  \<^verbatim>\<open>_transforms[i]->feedForward(O[i+1], O[i])\<close> for every layer in order, and at the end
  \<^verbatim>\<open>O.back().resize(O.back().getRows(), O.back().getCols() - 1)\<close>. \<^verbatim>\<open>O\<close> is the caller's
  vector: an index past its end is out of bounds. The number of columns is a \<^verbatim>\<open>size_t\<close>,
  so \<^verbatim>\<open>getCols() - 1\<close> is taken modulo \<open>2 ^ 64\<close>. The layers are given as the objects
  \<^verbatim>\<open>_transforms\<close> points to.
\<close>

fun feed_loop :: "FeatureTransform list \<Rightarrow> nat \<Rightarrow> mat list \<Rightarrow> dnn_error + mat list" where
  "feed_loop [] i outs = Inr outs"
| "feed_loop (t # ts) i outs =
     (if length outs \<le> i + 1 then Inl OutOfBounds
      else case feedForward t (outs ! i) of
             Inl e \<Rightarrow> Inl e
           | Inr y \<Rightarrow> feed_loop ts (i + 1) (outs[i + 1 := y]))"

definition DNN_feedForward ::
  "FeatureTransform list \<Rightarrow> mat \<Rightarrow> mat list \<Rightarrow> dnn_error + mat list" where
  "DNN_feedForward ts fin outs0 =
     (if outs0 = [] then Inl OutOfBounds
      else case feed_loop ts 0 (outs0[0 := fin]) of
             Inl e \<Rightarrow> Inl e
           | Inr outs \<Rightarrow>
               Inr (outs[length outs - 1 :=
                      resize (last outs) (rows (last outs))
                        ((cols (last outs) + 2 ^ 64 - 1) mod 2 ^ 64)]))"







subsection \<open>Saving and reading a DNN\<close>

text \<open>
  The model file is text. \<^verbatim>\<open>DNN::save\<close> writes it with \<^verbatim>\<open>fprintf\<close> and
  \<^verbatim>\<open>DNN::read\<close> reads it with \<^verbatim>\<open>fscanf\<close>, whose directives skip white space: the
  file is taken as the sequence of its items, white space left out. An item is a word
  (what \<^verbatim>\<open>%s\<close> reads), an unsigned number (\<^verbatim>\<open>%lu\<close>), a floating-point number
  (\<^verbatim>\<open>%g\<close> written, \<^verbatim>\<open>%f\<close> read) or one of the two brackets.
\<close>

datatype item = Word string | Num nat | Flt real | LBracket | RBracket

text \<open>
  Modelled from the spec: the virtual method \<^verbatim>\<open>toString\<close> of the layer classes is not
  part of the sources. The spec: the type written to the file is \<^verbatim>\<open>sigmoid\<close> or
  \<^verbatim>\<open>softmax\<close>.
\<close>

fun toString :: "transform_type \<Rightarrow> string" where
  "toString Sigmoid = ''sigmoid''"
| "toString Softmax = ''softmax''"

text \<open>
  \<^verbatim>\<open>DNN::save\<close>, the items written for one layer. \<^verbatim>\<open>rows = w.getRows()\<close> and
  \<^verbatim>\<open>cols = w.getCols() - 1\<close>; the header carries \<^verbatim>\<open>rows - 1\<close> and \<^verbatim>\<open>cols\<close>. The
  weights are written row by row, entry \<^verbatim>\<open>data[k * rows + j]\<close> for row \<open>j\<close> and column
  \<open>k\<close>, the bias row \<^verbatim>\<open>data[j * rows + rows - 1]\<close> after them. All of these numbers are
  \<^verbatim>\<open>size_t\<close>, computed modulo \<open>2 ^ 64\<close>; \<^verbatim>\<open>data\<close> is the copy of the matrix on the host,
  and an index past its end is out of bounds. \<^verbatim>\<open>%g\<close> prints six significant digits:
  \<open>fmt\<close> gives, for an entry, the number that its printed text denotes.
\<close>

definition save_layer :: "(real \<Rightarrow> real) \<Rightarrow> FeatureTransform \<Rightarrow> dnn_error + item list" where
  "save_layer fmt t =
     (let w = getW t; rs = rows w; cs = (cols w + 2 ^ 64 - 1) mod 2 ^ 64;
          rs1 = (rs + 2 ^ 64 - 1) mod 2 ^ 64; dat = data w;
          wix = concat (map (\<lambda>j. map (\<lambda>k. (k * rs + j) mod 2 ^ 64) [0..<cs]) [0..<rs1]);
          bix = map (\<lambda>j. (j * rs + rs + 2 ^ 64 - 1) mod 2 ^ 64) [0..<cs]
      in if list_all (\<lambda>ix. ix < length dat) (wix @ bix)
         then Inr ([Word (''<'' @ toString (ftype t) @ ''>''), Num rs1, Num cs, LBracket]
                   @ map (\<lambda>ix. Flt (fmt (dat ! ix))) wix
                   @ [RBracket, Word ''<bias>'', LBracket]
                   @ map (\<lambda>ix. Flt (fmt (dat ! ix))) bix
                   @ [RBracket])
         else Inl OutOfBounds)"

text \<open>
  \<^verbatim>\<open>DNN::save\<close>: the layers are written in order; then the line \<^verbatim>\<open>nn_structure\<close> is
  printed, with the number of rows of every \<open>W\<close> and the number of columns of
  \<^verbatim>\<open>_transforms.back()->getW()\<close>, which on a DNN without layers is the last element of an
  empty vector. The result is the file and the numbers printed.
\<close>

definition DNN_save ::
  "(real \<Rightarrow> real) \<Rightarrow> FeatureTransform list \<Rightarrow> dnn_error + item list \<times> nat list" where
  "DNN_save fmt ts =
     (case collect (map (save_layer fmt) ts) of
        Inl e \<Rightarrow> Inl e
      | Inr layers \<Rightarrow>
          if ts = [] then Inl OutOfBounds
          else Inr (concat layers, map (\<lambda>t. rows (getW t)) ts @ [cols (getW (last ts))]))"

text \<open>
  The items of a layer whose \<open>W\<close> has at least one row and one column, so that no
  subtraction wraps around and every index is in range.
\<close>

definition layer_items :: "(real \<Rightarrow> real) \<Rightarrow> FeatureTransform \<Rightarrow> item list" where
  "layer_items fmt t =
     (let w = getW t; rs = rows w; cs = cols w - 1; dat = data w
      in [Word (''<'' @ toString (ftype t) @ ''>''), Num (rs - 1), Num cs, LBracket]
         @ concat (map (\<lambda>j. map (\<lambda>k. Flt (fmt (dat ! (k * rs + j)))) [0..<cs]) [0..<rs - 1])
         @ [RBracket, Word ''<bias>'', LBracket]
         @ map (\<lambda>j. Flt (fmt (dat ! (j * rs + rs - 1)))) [0..<cs]
         @ [RBracket])"

text \<open>
  A run of \<^verbatim>\<open>fscanf(fid, "%f ", &(w[ix]))\<close> over the indices \<open>ixs\<close> in order. The
  sources ignore the result of \<^verbatim>\<open>fscanf\<close>; what \<^verbatim>\<open>read\<close> builds from a file that is
  not in the format of \<^verbatim>\<open>save\<close> is left open (\<open>None\<close>).
\<close>

fun read_floats :: "nat list \<Rightarrow> item list \<Rightarrow> real list \<Rightarrow> (real list \<times> item list) option" where
  "read_floats [] f w = Some (w, f)"
| "read_floats (ix # ixs) (Flt v # f) w = read_floats ixs f (w[ix := v])"
| "read_floats (ix # ixs) _ w = None"

text \<open>
  \<^verbatim>\<open>readweight(fid, w, rows, cols)\<close>: the weights row by row into \<^verbatim>\<open>w[j * rows + i]\<close>
  for \<open>i < rows - 1\<close>, then \<^verbatim>\<open>]\<close>, \<^verbatim>\<open><bias>\<close>, \<^verbatim>\<open>[\<close>, the bias row into
  \<^verbatim>\<open>w[j * rows + rows - 1]\<close>, then \<^verbatim>\<open>]\<close>.
\<close>

definition readweight ::
  "item list \<Rightarrow> real list \<Rightarrow> nat \<Rightarrow> nat \<Rightarrow> (real list \<times> item list) option" where
  "readweight f w rs cs =
     (case read_floats (concat (map (\<lambda>i. map (\<lambda>j. j * rs + i) [0..<cs]) [0..<rs - 1])) f w of
        Some (w1, RBracket # Word b # LBracket # f1) \<Rightarrow>
          (if b = ''<bias>'' then
             (case read_floats (map (\<lambda>j. j * rs + rs - 1) [0..<cs]) f1 w1 of
                Some (w2, RBracket # f2) \<Rightarrow> Some (w2, f2)
              | _ \<Rightarrow> None)
           else None)
      | _ \<Rightarrow> None)"

text \<open>
  Modelled from the spec: the constructors \<^verbatim>\<open>Sigmoid(w)\<close> and \<^verbatim>\<open>Softmax(w)\<close> are not
  part of the sources. The spec: the layer owns \<open>W\<close> and a gradient matrix of the same
  shape.
\<close>

definition new_FeatureTransform :: "transform_type \<Rightarrow> mat \<Rightarrow> FeatureTransform" where
  "new_FeatureTransform ty w = \<lparr>ftype = ty, getW = w, getDw = zeros (rows w) (cols w)\<rparr>"

text \<open>
  The loop of \<^verbatim>\<open>DNN::read\<close>, after \<^verbatim>\<open>_transforms.clear()\<close>. Each round reads a word,
  the two sizes and \<^verbatim>\<open>[\<close>, allocates \<^verbatim>\<open>new float[(rows + 1) * (cols + 1)]\<close>, fills it by
  \<^verbatim>\<open>readweight(fid, hw, rows + 1, cols)\<close> and builds the matrix of \<open>rows + 1\<close> rows and
  \<open>cols + 1\<close> columns from it. The array is not initialised: \<open>junk n\<close> gives what the
  \<open>n\<close>-th allocation holds at each index. A layer is pushed for the words \<^verbatim>\<open><sigmoid>\<close>
  and \<^verbatim>\<open><softmax>\<close>, and none for another word. The loop ends when \<^verbatim>\<open>%s\<close> meets the
  end of the file; every round consumes at least one item.
\<close>

lemma read_floats_length:
  "read_floats ixs f w = Some (w', f') \<Longrightarrow> length f' \<le> length f"
  by (induction ixs f w rule: read_floats.induct) auto

lemma readweight_length:
  assumes "readweight f w rs cs = Some (w', f')"
  shows "length f' \<le> length f"
proof -
  from assms obtain w1 b f1 w2 where
    a: "read_floats (concat (map (\<lambda>i. map (\<lambda>j. j * rs + i) [0..<cs]) [0..<rs - 1])) f w =
          Some (w1, RBracket # Word b # LBracket # f1)" and
    b: "read_floats (map (\<lambda>j. j * rs + rs - 1) [0..<cs]) f1 w1 = Some (w2, RBracket # f')"
    by (auto simp: readweight_def split: option.splits list.splits item.splits if_splits)
  from read_floats_length [OF a] read_floats_length [OF b] show ?thesis by simp
qed

function read_loop ::
  "(nat \<Rightarrow> nat \<Rightarrow> real) \<Rightarrow> nat \<Rightarrow> item list \<Rightarrow> FeatureTransform list
     \<Rightarrow> FeatureTransform list option" where
  "read_loop junk n f ts =
     (case f of
        [] \<Rightarrow> Some ts
      | Word type # Num rs # Num cs # LBracket # f1 \<Rightarrow>
          (let hw = map (junk n) [0..<(rs + 1) * (cs + 1)] in
           case readweight f1 hw (rs + 1) cs of
             None \<Rightarrow> None
           | Some (hw', f2) \<Rightarrow>
               (let w = \<lparr>rows = rs + 1, cols = cs + 1, data = hw'\<rparr> in
                read_loop junk (n + 1) f2
                  (if type = ''<sigmoid>'' then ts @ [new_FeatureTransform Sigmoid w]
                   else if type = ''<softmax>'' then ts @ [new_FeatureTransform Softmax w]
                   else ts)))
      | _ \<Rightarrow> None)"
  by pat_completeness auto
termination
  by (relation "measure (\<lambda>(junk, n, f, ts). length f)")
    (auto dest!: readweight_length)

declare read_loop.simps [simp del]

definition DNN_read :: "(nat \<Rightarrow> nat \<Rightarrow> real) \<Rightarrow> item list \<Rightarrow> FeatureTransform list option" where
  "DNN_read junk f = read_loop junk 0 f []"

text \<open>
  What comes back for a weight matrix: every column but the last holds the numbers that
  the printed entries denote, and the last column holds what the allocation held.
\<close>

definition reread :: "(real \<Rightarrow> real) \<Rightarrow> (nat \<Rightarrow> real) \<Rightarrow> mat \<Rightarrow> mat" where
  "reread fmt jnk w =
     \<lparr>rows = rows w, cols = cols w,
      data = map (\<lambda>i. if i < rows w * (cols w - 1) then fmt (data w ! i) else jnk i)
               [0..<rows w * cols w]\<rparr>"

text \<open>
  The layer with every weight replaced by the number that its printed text denotes.
\<close>

definition printed_weights :: "(real \<Rightarrow> real) \<Rightarrow> FeatureTransform \<Rightarrow> FeatureTransform" where
  "printed_weights fmt t = t\<lparr>getW := mat_map fmt (getW t)\<rparr>"

text \<open>A layer whose last column of \<open>W\<close> is not zero, the exact printing of numbers, and
  allocations that hold zeros.\<close>

definition example_saved :: "FeatureTransform list" where
  "example_saved =
     [\<lparr>ftype = Sigmoid, getW = \<lparr>rows = 2, cols = 2, data = [1, 2, 3, 4]\<rparr>,
       getDw = zeros 2 2\<rparr>]"

definition exact_fmt :: "real \<Rightarrow> real" where
  "exact_fmt x = x"

definition zero_junk :: "nat \<Rightarrow> nat \<Rightarrow> real" where
  "zero_junk n i = 0"

subsection \<open>The convolutional layer\<close>

text \<open>Assignment to \<^verbatim>\<open>xs[j][k]\<close> in a vector of vectors.\<close>

definition set2 :: "'a list list \<Rightarrow> nat \<Rightarrow> nat \<Rightarrow> 'a \<Rightarrow> 'a list list" where
  "set2 xs j k v = xs[j := (xs ! j)[k := v]]"

text \<open>
  \<^verbatim>\<open>ConvolutionalLayer::feedForward\<close>. The body of the two outer loops, for sample \<open>k\<close>
  and output map \<open>j\<close>: the loop over the input maps adds
  \<^verbatim>\<open>convn(iImgs[i][k], _kernels[i][j], "valid_shm")\<close> to \<^verbatim>\<open>oImgs[j][k]\<close>, then the
  bias is added and the sigmoid applied.
\<close>

definition conv_ff_cell ::
  "MIMOFeatureTransform \<Rightarrow> mat list list \<Rightarrow> nat \<Rightarrow> nat \<Rightarrow> mat list list \<Rightarrow> mat list list" where
  "conv_ff_cell L iImgs k j oImgs =
     (let oImgs1 =
        fold (\<lambda>i oImgs. set2 oImgs j k
                (mat_add (oImgs ! j ! k) (convn_valid (iImgs ! i ! k) (kernels L ! i ! j))))
          [0..<getNumInputMaps L] oImgs
      in set2 oImgs1 j k (mat_map sigmoid (mat_add_scalar (oImgs1 ! j ! k) (bias L ! j))))"

definition conv_ff_loops ::
  "MIMOFeatureTransform \<Rightarrow> mat list list \<Rightarrow> nat \<Rightarrow> mat list list \<Rightarrow> mat list list" where
  "conv_ff_loops L iImgs batch_size oImgs =
     fold (\<lambda>k oImgs. fold (\<lambda>j oImgs. conv_ff_cell L iImgs k j oImgs)
                       [0..<getNumOutputMaps L] oImgs)
       [0..<batch_size] oImgs"

text \<open>
  The whole function. The images of the output are allocated first,
  \<^verbatim>\<open>oImgs[j][k].resize(s.m, s.n, 0)\<close>; \<^verbatim>\<open>fouts\<close> is resized to the number of output
  maps and every entry assigned, so the result does not depend on what it held.
  \<^verbatim>\<open>fins[0]\<close>, the kernels and the bias are indexed without a check.
\<close>

definition ConvolutionalLayer_feedForward ::
  "MIMOFeatureTransform \<Rightarrow> mat list \<Rightarrow> cnn_error + mat list" where
  "ConvolutionalLayer_feedForward L fins =
     (let nInputs = getNumInputMaps L; nOutputs = getNumOutputMaps L in
      if length fins \<noteq> nInputs then Inl (NumberOfInputMaps (length fins) nInputs)
      else
        (let batch_size = cols (fins ! 0);
             s = get_output_img_size L;
             iImgs = map (\<lambda>i. reshapeVectors2Images (fins ! i) (get_input_img_size L))
                       [0..<nInputs];
             oImgs0 = replicate nOutputs (replicate batch_size (zeros (size_m s) (size_n s)));
             oImgs = conv_ff_loops L iImgs batch_size oImgs0
         in Inr (map (\<lambda>j. reshapeImages2Vectors (oImgs ! j)) [0..<nOutputs])))"

text \<open>
  \<^verbatim>\<open>ConvolutionalLayer::feedBackward\<close>. For sample \<open>k\<close> and input map \<open>i\<close>, the image
  \<^verbatim>\<open>iImgs[i][k]\<close> is set to zeros of the input size and the loop over the output maps
  adds \<^verbatim>\<open>convn(oImgs[j][k], rot180(_kernels[i][j]), "full")\<close>.
\<close>

definition conv_fb_cell ::
  "MIMOFeatureTransform \<Rightarrow> mat list list \<Rightarrow> nat \<Rightarrow> nat \<Rightarrow> mat list list \<Rightarrow> mat list list" where
  "conv_fb_cell L oImgs k i iImgs =
     (let s = get_input_img_size L;
          iImgs1 = set2 iImgs i k (zeros (size_m s) (size_n s))
      in fold (\<lambda>j iImgs. set2 iImgs i k
                 (mat_add (iImgs ! i ! k)
                    (convn_full (oImgs ! j ! k) (rot180 (kernels L ! i ! j)))))
           [0..<getNumOutputMaps L] iImgs1)"

definition ConvolutionalLayer_feedBackward ::
  "MIMOFeatureTransform \<Rightarrow> mat list \<Rightarrow> mat list" where
  "ConvolutionalLayer_feedBackward L deltas =
     (let nInputs = getNumInputMaps L; nOutputs = getNumOutputMaps L;
          batch_size = cols (deltas ! 0);
          oImgs = map (\<lambda>j. reshapeVectors2Images (deltas ! j) (get_output_img_size L))
                    [0..<nOutputs];
          iImgs0 = replicate nInputs (replicate batch_size (zeros 0 0));
          iImgs = fold (\<lambda>k iImgs. fold (\<lambda>i iImgs. conv_fb_cell L oImgs k i iImgs)
                                     [0..<nInputs] iImgs)
                    [0..<batch_size] iImgs0
      in map (\<lambda>i. reshapeImages2Vectors (iImgs ! i)) [0..<nInputs])"

text \<open>
  The operator \<^verbatim>\<open>&\<close> of \<^verbatim>\<open>feature-transform.h\<close>: the entrywise product, after
  \<^verbatim>\<open>assert(A.getRows() == B.getRows() && A.getCols() == B.getCols())\<close>.
\<close>

definition hadamard :: "mat \<Rightarrow> mat \<Rightarrow> cnn_error + mat" where
  "hadamard A B =
     (if rows A = rows B \<and> cols A = cols B
      then Inr \<lparr>rows = rows A, cols = cols A, data = map2 (*) (data A) (data B)\<rparr>
      else Inl AssertionFailed)"

text \<open>\<^verbatim>\<open>fouts[j] & ( 1.0f - fouts[j] ) & errors[j]\<close>, the operator associating to the left.\<close>

definition local_delta :: "mat \<Rightarrow> mat \<Rightarrow> cnn_error + mat" where
  "local_delta fout err =
     (case hadamard fout (mat_map (\<lambda>x. 1 - x) fout) of
        Inl e \<Rightarrow> Inl e
      | Inr p \<Rightarrow> hadamard p err)"

text \<open>
  The update loops of \<^verbatim>\<open>ConvolutionalLayer::backPropagate\<close>, on the pair of
  \<^verbatim>\<open>_kernels\<close> and \<^verbatim>\<open>_bias\<close>: for sample \<open>k\<close> and output map \<open>j\<close>, every
  \<^verbatim>\<open>_kernels[i][j]\<close> loses \<^verbatim>\<open>convn(rot180(iImgs[i][k]), oImgs[j][k], "valid") * lr\<close>,
  then \<^verbatim>\<open>_bias[j]\<close> loses \<^verbatim>\<open>sum_all(oImgs[j][k]) * lr\<close>.
\<close>

definition conv_update_cell ::
  "nat \<Rightarrow> mat list list \<Rightarrow> mat list list \<Rightarrow> real \<Rightarrow> nat \<Rightarrow> nat
     \<Rightarrow> mat list list \<times> real list \<Rightarrow> mat list list \<times> real list" where
  "conv_update_cell nInputs iImgs oImgs lr k j kb =
     (let ks = fold (\<lambda>i ks. set2 ks i j
                      (mat_sub (ks ! i ! j)
                         (mat_scale (convn_valid (rot180 (iImgs ! i ! k)) (oImgs ! j ! k)) lr)))
                 [0..<nInputs] (fst kb);
          b = snd kb
      in (ks, b[j := b ! j - sum_all (oImgs ! j ! k) * lr]))"

definition conv_update_loops ::
  "nat \<Rightarrow> nat \<Rightarrow> mat list list \<Rightarrow> mat list list \<Rightarrow> real \<Rightarrow> nat
     \<Rightarrow> mat list list \<times> real list \<Rightarrow> mat list list \<times> real list" where
  "conv_update_loops nInputs nOutputs iImgs oImgs lr batch_size kb =
     fold (\<lambda>k kb. fold (\<lambda>j kb. conv_update_cell nInputs iImgs oImgs lr k j kb)
                    [0..<nOutputs] kb)
       [0..<batch_size] kb"

text \<open>
  \<^verbatim>\<open>ConvolutionalLayer::backPropagate\<close>: the local deltas, \<^verbatim>\<open>feedBackward\<close> on them
  (which overwrites \<^verbatim>\<open>errors\<close>), \<^verbatim>\<open>assert(learning_rate > 0)\<close>, and the update loops
  with \<^verbatim>\<open>lr = learning_rate / batch_size\<close>. The result is the layer with its new
  kernels and bias, and the new \<^verbatim>\<open>errors\<close>. The debugging output (\<^verbatim>\<open>matlog\<close>,
  \<^verbatim>\<open>PAUSE\<close>) is left out.
\<close>

definition ConvolutionalLayer_backPropagate ::
  "MIMOFeatureTransform \<Rightarrow> mat list \<Rightarrow> mat list \<Rightarrow> mat list \<Rightarrow> real
     \<Rightarrow> cnn_error + MIMOFeatureTransform \<times> mat list" where
  "ConvolutionalLayer_backPropagate L errors fins fouts learning_rate =
     (let nInputs = getNumInputMaps L; nOutputs = getNumOutputMaps L;
          batch_size = cols (fins ! 0)
      in case collect (map (\<lambda>j. local_delta (fouts ! j) (errors ! j)) [0..<nOutputs]) of
           Inl e \<Rightarrow> Inl e
         | Inr deltas \<Rightarrow>
             (let errors' = ConvolutionalLayer_feedBackward L deltas;
                  iImgs = map (\<lambda>i. reshapeVectors2Images (fins ! i) (get_input_img_size L))
                            [0..<nInputs];
                  oImgs = map (\<lambda>j. reshapeVectors2Images (deltas ! j) (get_output_img_size L))
                            [0..<nOutputs]
              in if \<not> learning_rate > 0 then Inl AssertionFailed
                 else
                   (let lr = learning_rate / real batch_size;
                        kb = conv_update_loops nInputs nOutputs iImgs oImgs lr batch_size
                               (kernels L, bias L)
                    in Inr (ConvolutionalLayer nInputs nOutputs (get_input_img_size L)
                              (fst kb) (snd kb),
                            errors'))))"

subsection \<open>The sub-sampling layer\<close>

text \<open>
  \<^verbatim>\<open>SubSamplingLayer::feedBackward\<close>. \<^verbatim>\<open>batch_size = deltas[0].getCols()\<close> is read
  first: on an empty vector that read is out of range. The output image size divides by
  the scale: a scale of 0 is a division by zero. Every image of the deltas is upsampled to
  the input size and divided by \<^verbatim>\<open>_scale * _scale\<close>, a product of two \<^verbatim>\<open>size_t\<close>. Each
  \<^verbatim>\<open>iImgs[i][k]\<close> is assigned once, from \<^verbatim>\<open>oImgs[i][k]\<close> alone.
\<close>

definition SubSamplingLayer_feedBackward ::
  "MIMOFeatureTransform \<Rightarrow> mat list \<Rightarrow> cnn_error + mat list" where
  "SubSamplingLayer_feedBackward L deltas =
     (if deltas = [] then Inl OutOfRange
      else if getScale L = 0 then Inl DivisionByZero
      else
        (let N = length deltas;
             batch_size = cols (deltas ! 0);
             oImgs = map (\<lambda>i. reshapeVectors2Images (deltas ! i) (get_output_img_size L)) [0..<N];
             iImgs = map (\<lambda>i. map (\<lambda>k. mat_div_scalar
                                         (upsample (oImgs ! i ! k) (get_input_img_size L))
                                         (real ((getScale L * getScale L) mod 2 ^ 64)))
                                 [0..<batch_size])
                       [0..<N]
         in Inr (map (\<lambda>j. reshapeImages2Vectors (iImgs ! j)) [0..<N])))"

text \<open>
  \<^verbatim>\<open>SubSamplingLayer::backPropagate\<close> copies \<^verbatim>\<open>errors\<close> to \<^verbatim>\<open>deltas\<close> and calls
  \<^verbatim>\<open>feedBackward(errors, deltas)\<close>; \<^verbatim>\<open>fins\<close>, \<^verbatim>\<open>fouts\<close> and the learning rate are not
  used. The result is the layer and the new \<^verbatim>\<open>errors\<close>.
\<close>

definition SubSamplingLayer_backPropagate ::
  "MIMOFeatureTransform \<Rightarrow> mat list \<Rightarrow> mat list \<Rightarrow> mat list \<Rightarrow> real
     \<Rightarrow> cnn_error + MIMOFeatureTransform \<times> mat list" where
  "SubSamplingLayer_backPropagate L errors fins fouts learning_rate =
     (let deltas = errors
      in case SubSamplingLayer_feedBackward L deltas of
           Inl e \<Rightarrow> Inl e
         | Inr errors' \<Rightarrow> Inr (L, errors'))"

text \<open>A vector of \<open>J\<close> vectors of \<open>B\<close> entries each.\<close>

definition shape :: "'a list list \<Rightarrow> nat \<Rightarrow> nat \<Rightarrow> bool" where
  "shape xs J B = (length xs = J \<and> (\<forall>j<J. length (xs ! j) = B))"

text \<open>A sub-sampling layer of scale 2 on images of 2 by 2, and one error map for a batch
  of one sample: the output image is a single pixel, of value 8.\<close>

definition example_subsampling :: MIMOFeatureTransform where
  "example_subsampling = SubSamplingLayer 1 1 \<lparr>size_m = 2, size_n = 2\<rparr> 2"

definition example_errors :: "mat list" where
  "example_errors = [\<lparr>rows = 1, cols = 1, data = [8]\<rparr>]"

text \<open>
  The entry at row \<open>r\<close> and column \<open>c\<close> of the propagated error image as the claim words
  it, the exact adjoint of pooling the input image (\<open>m\<close> by \<open>n\<close>) by blocks of \<open>s\<close> by
  \<open>s\<close>: the delta of a pooled block is spread evenly over the entries of that block,
  and an entry that lies in no pooled block receives nothing.
\<close>

definition spec_adjoint_entry :: "nat \<Rightarrow> nat \<Rightarrow> nat \<Rightarrow> mat \<Rightarrow> nat \<Rightarrow> nat \<Rightarrow> real" where
  "spec_adjoint_entry s m n delta r c =
     (if r div s < m div s \<and> c div s < n div s
      then elem delta (r div s) (c div s) / real (s * s) else 0)"

text \<open>A sub-sampling layer of scale 2 on images of 3 by 3, whose output image is one
  pixel: the third row and the third column of the input lie in no pooled block.\<close>

definition example_subsampling_odd :: MIMOFeatureTransform where
  "example_subsampling_odd = SubSamplingLayer 1 1 \<lparr>size_m = 3, size_n = 3\<rparr> 2"

text \<open>
  The output entry as the spec words the forward pass: the sigmoid of the sum over the
  input maps of the valid-mode cross-correlation of the image with the kernel, plus the
  bias.
\<close>

definition spec_feedForward_entry ::
  "MIMOFeatureTransform \<Rightarrow> mat list \<Rightarrow> nat \<Rightarrow> nat \<Rightarrow> nat \<Rightarrow> nat \<Rightarrow> real" where
  "spec_feedForward_entry L fins j k r c =
     sigmoid ((\<Sum>i\<leftarrow>[0..<getNumInputMaps L].
                 xcorr_valid_at (reshapeVectors2Images (fins ! i) (get_input_img_size L) ! k)
                   (kernels L ! i ! j) r c)
              + bias L ! j)"

text \<open>A convolutional layer with one input map and one output map on images of one row
  and two columns, with the kernel \<open>(1 2)\<close> and bias 0, and a batch holding the one
  image \<open>(1 0)\<close>.\<close>

definition example_conv :: MIMOFeatureTransform where
  "example_conv =
     ConvolutionalLayer 1 1 \<lparr>size_m = 1, size_n = 2\<rparr> [[\<lparr>rows = 1, cols = 2, data = [1, 2]\<rparr>]] [0]"

definition example_fins :: "mat list" where
  "example_fins = [\<lparr>rows = 2, cols = 1, data = [1, 0]\<rparr>]"

text \<open>The local delta \<open>fout \<odot> (1 - fout) \<odot> error\<close>, entry by entry.\<close>

definition sigmoid_delta :: "mat \<Rightarrow> mat \<Rightarrow> mat" where
  "sigmoid_delta fout err =
     \<lparr>rows = rows fout, cols = cols fout,
      data = map (\<lambda>(f, e). f * (1 - f) * e) (zip (data fout) (data err))\<rparr>"

text \<open>
  The kernel entry after the update as the spec words it: the old entry less
  \<open>learning_rate / batch_size\<close> times the sum over the batch of the valid-mode
  cross-correlation of the rotated input image with the delta image.
\<close>

definition spec_backPropagate_kernel_entry ::
  "MIMOFeatureTransform \<Rightarrow> mat list \<Rightarrow> mat list \<Rightarrow> mat list \<Rightarrow> real
     \<Rightarrow> nat \<Rightarrow> nat \<Rightarrow> nat \<Rightarrow> nat \<Rightarrow> real" where
  "spec_backPropagate_kernel_entry L errors fins fouts learning_rate i j p q =
     elem (kernels L ! i ! j) p q - (learning_rate / real (cols (fins ! 0))) *
       (\<Sum>k\<leftarrow>[0..<cols (fins ! 0)].
          xcorr_valid_at
            (rot180 (reshapeVectors2Images (fins ! i) (get_input_img_size L) ! k))
            (reshapeVectors2Images (sigmoid_delta (fouts ! j) (errors ! j))
               (get_output_img_size L) ! k) p q)"

text \<open>A convolutional layer with one input map and one output map on images of one row
  and three columns, with the kernel \<open>(3 5)\<close> and bias 0; a batch holding the one image
  \<open>(1 0 0)\<close>, the outputs \<open>(1/2 1/2)\<close> and the errors \<open>(4 8)\<close>, so that the local delta
  is \<open>(1 2)\<close>.\<close>

definition example_bp_layer :: MIMOFeatureTransform where
  "example_bp_layer =
     ConvolutionalLayer 1 1 \<lparr>size_m = 1, size_n = 3\<rparr> [[\<lparr>rows = 1, cols = 2, data = [3, 5]\<rparr>]] [0]"

definition example_bp_fins :: "mat list" where
  "example_bp_fins = [\<lparr>rows = 3, cols = 1, data = [1, 0, 0]\<rparr>]"

definition example_bp_fouts :: "mat list" where
  "example_bp_fouts = [\<lparr>rows = 2, cols = 1, data = [1 / 2, 1 / 2]\<rparr>]"

definition example_bp_errors :: "mat list" where
  "example_bp_errors = [\<lparr>rows = 2, cols = 1, data = [4, 8]\<rparr>]"

section \<open>Properties\<close>

subsection \<open>Indices and matrices\<close>


lemma map_const_upt: "(\<And>i. i < n \<Longrightarrow> f i = a) \<Longrightarrow> map f [0..<n] = replicate n a"
  by (intro nth_equalityI) simp_all

lemma div_less_mult: "i < h * w \<Longrightarrow> i div h < (w::nat)"
  by (simp add: less_mult_imp_div_less mult.commute)

lemma mod_less_mult: "i < h * w \<Longrightarrow> i mod h < (h::nat)"
  by (cases "h = 0") simp_all

lemma index_less: "r < h \<Longrightarrow> c < w \<Longrightarrow> c * h + r < h * (w::nat)"
proof -
  assume r: "r < h" and c: "c < w"
  then have "c * h + r < c * h + h" by simp
  also have "\<dots> = (c + 1) * h" by simp
  also have "\<dots> \<le> w * h" using c by (intro mult_le_mono1) simp
  finally show ?thesis by (simp add: mult.commute)
qed

lemma upt1: "[0..<1] = [0]" by simp

lemma upt2: "[0..<2] = [0, 1]" by code_simp

lemma replicate2: "replicate 2 x = [x, x]" by (simp add: numeral_2_eq_2)

lemma sum_list_cong_upt:
  assumes "\<And>i. i < n \<Longrightarrow> f i = (g i :: real)"
  shows "(\<Sum>i\<leftarrow>[0..<n]. f i) = (\<Sum>i\<leftarrow>[0..<n]. g i)"
  by (rule arg_cong [where f = sum_list], rule map_cong [OF refl]) (simp add: assms)

lemma collect_map_Inr: "collect (map (\<lambda>j. Inr (g j)) xs) = Inr (map g xs)"
  by (induction xs) simp_all

lemma rows_mat_of [simp]: "rows (mat_of h w f) = h"
  and cols_mat_of [simp]: "cols (mat_of h w f) = w"
  and length_data_mat_of [simp]: "length (data (mat_of h w f)) = h * w"
  by (simp_all add: mat_of_def)

lemma div_mult_add_less: "r < h \<Longrightarrow> (c * h + r) div h = (c::nat)"
  by simp

lemma elem_mat_of: "r < h \<Longrightarrow> c < w \<Longrightarrow> elem (mat_of h w f) r c = f r c"
  using index_less [of r h c w] by (simp add: elem_def mat_of_def)

lemma mat_of_cong:
  assumes "\<And>r c. r < h \<Longrightarrow> c < w \<Longrightarrow> f r c = g r c"
  shows "mat_of h w f = mat_of h w g"
proof -
  have "map (\<lambda>i. f (i mod h) (i div h)) [0..<h * w] = map (\<lambda>i. g (i mod h) (i div h)) [0..<h * w]"
    by (rule map_cong [OF refl]) (simp add: assms mod_less_mult div_less_mult)
  then show ?thesis by (simp add: mat_of_def)
qed

lemma zeros_mat_of: "zeros h w = mat_of h w (\<lambda>r c. 0)"
  by (simp add: zeros_def mat_of_def map_replicate_const)

lemma map2_map_map: "map2 f (map g xs) (map h xs) = map (\<lambda>x. f (g x) (h x)) xs"
  by (induction xs) simp_all

lemma mat_add_mat_of:
  "mat_add (mat_of h w f) (mat_of h w g) = mat_of h w (\<lambda>r c. f r c + g r c)"
  by (simp add: mat_add_def mat_of_def map2_map_map)

lemma mat_sub_mat_of:
  "mat_sub (mat_of h w f) (mat_of h w g) = mat_of h w (\<lambda>r c. f r c - g r c)"
  by (simp add: mat_sub_def mat_of_def map2_map_map)

lemma mat_map_mat_of: "mat_map u (mat_of h w f) = mat_of h w (\<lambda>r c. u (f r c))"
  by (simp add: mat_map_def mat_of_def comp_def)

lemma mat_as_mat_of:
  fixes A :: mat
  assumes "wf_mat A"
  shows "A = mat_of (rows A) (cols A) (elem A)"
proof -
  have "map (\<lambda>i. data A ! (i div rows A * rows A + i mod rows A)) [0..<rows A * cols A] =
        map (\<lambda>i. data A ! i) [0..<rows A * cols A]"
    by simp
  also have "\<dots> = data A"
    using assms unfolding wf_mat_def by (metis map_nth)
  finally show ?thesis by (simp add: mat_of_def elem_def)
qed

text \<open>reshape\<close>

lemma take_drop_map_nth:
  "a + n \<le> length xs \<Longrightarrow> take n (drop a xs) = map (\<lambda>i. xs ! (a + i)) [0..<n]"
  by (intro nth_equalityI) simp_all

lemma reshapeVectors2Images_length [simp]:
  "length (reshapeVectors2Images x s) = cols x"
  by (simp add: reshapeVectors2Images_def)

lemma reshapeVectors2Images_nth:
  assumes wf: "wf_mat x" and rs: "rows x = m * n" and k: "k < cols x"
  shows "reshapeVectors2Images x \<lparr>size_m = m, size_n = n\<rparr> ! k =
         mat_of m n (\<lambda>r c. elem x (c * m + r) k)"
proof -
  have "k * rows x + rows x \<le> rows x * cols x"
  proof -
    have "k + 1 \<le> cols x" using k by simp
    then have "(k + 1) * rows x \<le> cols x * rows x" by (rule mult_le_mono1)
    then show ?thesis by (simp add: mult.commute)
  qed
  then have le: "k * rows x + m * n \<le> length (data x)"
    using wf rs by (simp add: wf_mat_def)
  have "take (m * n) (drop (k * rows x) (data x)) =
      map (\<lambda>i. data x ! (k * rows x + i)) [0..<m * n]"
    by (rule take_drop_map_nth [OF le])
  also have "\<dots> = map (\<lambda>i. elem x (i div m * m + i mod m) k) [0..<m * n]"
    by (simp add: elem_def)
  finally show ?thesis
    using k by (simp add: reshapeVectors2Images_def mat_of_def)
qed

lemma concat_uniform_nth:
  assumes "\<And>k. k < B \<Longrightarrow> length (g k) = L" and "k < B" and "i < L"
  shows "concat (map g [0..<B]) ! (k * L + i) = g k ! i"
  using assms
proof (induction B arbitrary: k)
  case 0
  then show ?case by simp
next
  case (Suc B)
  have len: "length (concat (map g [0..<B])) = B * L"
    using Suc.prems(1) by (induction B) simp_all
  show ?case
  proof (cases "k < B")
    case True
    have "k * L + i < B * L"
      using index_less [OF Suc.prems(3) True] by (simp add: mult.commute)
    then show ?thesis
      using Suc.IH [OF _ True Suc.prems(3)] Suc.prems(1) len by (simp add: nth_append)
  next
    case False
    with Suc.prems(2) have "k = B" by simp
    then show ?thesis using len by (simp add: nth_append)
  qed
qed

lemma length_concat_uniform:
  assumes "\<And>k. k < B \<Longrightarrow> length (g k) = L"
  shows "length (concat (map g [0..<B])) = B * L"
  using assms by (induction B) simp_all

lemma reshapeImages2Vectors_mat_of:
  assumes "0 < B"
  shows "reshapeImages2Vectors (map (\<lambda>k. mat_of m n (f k)) [0..<B]) =
         mat_of (m * n) B (\<lambda>i k. f k (i mod m) (i div m))"
proof -
  let ?g = "\<lambda>k. map (\<lambda>i. f k (i mod m) (i div m)) [0..<m * n]"
  have hd: "map (\<lambda>k. mat_of m n (f k)) [0..<B] = mat_of m n (f 0) # map (\<lambda>k. mat_of m n (f k)) [1..<B]"
    using assms by (simp add: upt_conv_Cons)
  have rows: "(case map (\<lambda>k. mat_of m n (f k)) [0..<B] of [] \<Rightarrow> 0 | i # _ \<Rightarrow> rows i * cols i) = m * n"
    unfolding hd by simp
  have d: "concat (map data (map (\<lambda>k. mat_of m n (f k)) [0..<B])) = concat (map ?g [0..<B])"
    by (simp add: mat_of_def comp_def)
  have "concat (map ?g [0..<B]) =
      map (\<lambda>j. f (j div (m * n)) (j mod (m * n) mod m) (j mod (m * n) div m)) [0..<(m * n) * B]"
  proof (rule nth_equalityI)
    show "length (concat (map ?g [0..<B])) =
        length (map (\<lambda>j. f (j div (m * n)) (j mod (m * n) mod m) (j mod (m * n) div m)) [0..<(m * n) * B])"
      by (simp add: length_concat_uniform mult.commute)
  next
    fix j assume "j < length (concat (map ?g [0..<B]))"
    then have j: "j < (m * n) * B" by (simp add: length_concat_uniform mult.commute)
    then have k: "j div (m * n) < B" by (rule div_less_mult)
    have i: "j mod (m * n) < m * n" using j by (rule mod_less_mult)
    have e: "j div (m * n) * (m * n) + j mod (m * n) = j" by (rule div_mult_mod_eq)
    have "concat (map ?g [0..<B]) ! (j div (m * n) * (m * n) + j mod (m * n)) =
        ?g (j div (m * n)) ! (j mod (m * n))"
      by (rule concat_uniform_nth [OF _ k i]) simp
    then have "concat (map ?g [0..<B]) ! j = ?g (j div (m * n)) ! (j mod (m * n))"
      unfolding e .
    then show "concat (map ?g [0..<B]) ! j =
        map (\<lambda>j. f (j div (m * n)) (j mod (m * n) mod m) (j mod (m * n) div m)) [0..<(m * n) * B] ! j"
      using i j by simp
  qed
  then show ?thesis
    unfolding reshapeImages2Vectors_def rows d by (simp add: mat_of_def)
qed

lemma set2_nth:
  "j < length xs \<Longrightarrow> k < length (xs ! j) \<Longrightarrow> j' < length xs \<Longrightarrow>
   set2 xs j k v ! j' ! k' = (if j' = j \<and> k' = k then v else xs ! j' ! k')"
  by (auto simp: set2_def nth_list_update)

lemma set2_same: "j < length xs \<Longrightarrow> k < length (xs ! j) \<Longrightarrow> set2 xs j k v ! j ! k = v"
  by (simp add: set2_def)

lemma set2_overwrite: "set2 (set2 xs j k v) j k v' = set2 xs j k v'"
  by (cases "j < length xs") (simp_all add: set2_def list_update_beyond not_less)

lemma set2_id: "set2 xs j k (xs ! j ! k) = xs"
  by (simp add: set2_def)

lemma set2_length [simp]: "length (set2 xs j k v) = length xs"
  by (simp add: set2_def)

lemma set2_length_nth [simp]: "length (set2 xs j k v ! j') = length (xs ! j')"
  by (cases "j < length xs"; cases "j' = j") (simp_all add: set2_def list_update_beyond not_less)

lemma fold_set2_acc:
  assumes "j < length xs" "k < length (xs ! j)"
  shows "fold (\<lambda>i xs. set2 xs j k (F i (xs ! j ! k))) is xs = set2 xs j k (fold F is (xs ! j ! k))"
  using assms
proof (induction "is" arbitrary: xs)
  case Nil
  show ?case by (simp add: set2_id)
next
  case (Cons i "is")
  let ?xs1 = "set2 xs j k (F i (xs ! j ! k))"
  have a: "j < length ?xs1" "k < length (?xs1 ! j)" using Cons.prems by simp_all
  have v: "?xs1 ! j ! k = F i (xs ! j ! k)" using Cons.prems by (rule set2_same)
  show ?case
    using Cons.IH [OF a] by (simp add: v set2_overwrite)
qed

lemma set2_as_map:
  assumes "shape xs J B" "j < J"
  shows "set2 xs j k v = map (\<lambda>j'. if j' = j then (xs ! j')[k := v] else xs ! j') [0..<J]"
  using assms by (intro nth_equalityI) (auto simp: set2_def shape_def nth_list_update)

lemma fold_first_index:
  assumes sh: "shape xs J B" and k: "k < B" and J': "J' \<le> J"
    and F: "\<And>xs j. shape xs J B \<Longrightarrow> j < J \<Longrightarrow> F j xs = set2 xs j k (G j (xs ! j ! k))"
  shows "fold F [0..<J'] xs =
         map (\<lambda>j. if j < J' then (xs ! j)[k := G j (xs ! j ! k)] else xs ! j) [0..<J]"
  using J'
proof (induction J')
  case 0
  show ?case using sh by (intro nth_equalityI) (simp_all add: shape_def)
next
  case (Suc J')
  let ?prev = "map (\<lambda>j. if j < J' then (xs ! j)[k := G j (xs ! j ! k)] else xs ! j) [0..<J]"
  from Suc.prems have lt: "J' < J" by simp
  have prev: "fold F [0..<J'] xs = ?prev" using Suc.IH lt by simp
  have shp: "shape ?prev J B" using sh by (simp add: shape_def)
  have pj: "?prev ! J' = xs ! J'" using lt by simp
  have "fold F [0..<Suc J'] xs = F J' ?prev" by (simp add: prev)
  also have "\<dots> = set2 ?prev J' k (G J' (xs ! J' ! k))"
    using F [OF shp lt] pj by simp
  also have "\<dots> = map (\<lambda>j. if j < Suc J' then (xs ! j)[k := G j (xs ! j ! k)] else xs ! j) [0..<J]"
    unfolding set2_as_map [OF shp lt]
    using lt by (intro nth_equalityI) (auto simp: less_Suc_eq)
  finally show ?case .
qed

lemma fold_cells:
  assumes sh: "shape xs J B"
    and F: "\<And>xs j k. shape xs J B \<Longrightarrow> j < J \<Longrightarrow> k < B \<Longrightarrow>
              F k j xs = set2 xs j k (G k j (xs ! j ! k))"
    and B': "B' \<le> B"
  shows "fold (\<lambda>k xs. fold (F k) [0..<J] xs) [0..<B'] xs =
         map (\<lambda>j. map (\<lambda>k. if k < B' then G k j (xs ! j ! k) else xs ! j ! k) [0..<B]) [0..<J]"
  using B'
proof (induction B')
  case 0
  show ?case
    using sh by (auto simp: shape_def intro!: nth_equalityI)
next
  case (Suc B')
  let ?prev = "map (\<lambda>j. map (\<lambda>k. if k < B' then G k j (xs ! j ! k) else xs ! j ! k) [0..<B]) [0..<J]"
  from Suc.prems have lt: "B' < B" by simp
  have prev: "fold (\<lambda>k xs. fold (F k) [0..<J] xs) [0..<B'] xs = ?prev"
    using Suc.IH lt by simp
  have shp: "shape ?prev J B" by (simp add: shape_def)
  have "fold (\<lambda>k xs. fold (F k) [0..<J] xs) [0..<Suc B'] xs = fold (F B') [0..<J] ?prev"
    by (simp add: prev)
  also have "\<dots> = map (\<lambda>j. if j < J then (?prev ! j)[B' := G B' j (?prev ! j ! B')] else ?prev ! j) [0..<J]"
    by (rule fold_first_index [OF shp lt order_refl]) (rule F [OF _ _ lt])
  also have "\<dots> = map (\<lambda>j. map (\<lambda>k. if k < Suc B' then G k j (xs ! j ! k) else xs ! j ! k) [0..<B]) [0..<J]"
    using lt by (auto simp: less_Suc_eq nth_list_update intro!: nth_equalityI)
  finally show ?case .
qed

subsection \<open>The learning-rate schedule\<close>

lemma adjustLearningRate_step:
  "adjustLearningRate a s =
     (if phase s < 6 \<and> a > thresholds ! phase s
      then s\<lparr>config := (config s)\<lparr>learningRate := learningRate (config s) * 0.9\<rparr>,
             phase := phase s + 1\<rparr>
      else s)"
proof -
  consider "phase s = 0" | "phase s = 1" | "phase s = 2" | "phase s = 3"
    | "phase s = 4" | "phase s = 5" | "6 \<le> phase s"
    by linarith
  then show ?thesis
    by cases (simp_all add: adjustLearningRate_def thresholds_def Let_def)
qed

lemma adjust_calls_facts:
  "phase s \<le> phase (adjust_calls accs s) \<and>
   phase (adjust_calls accs s) \<le> max (phase s) 6 \<and>
   phase (adjust_calls accs s) - phase s \<le> length accs \<and>
   learningRate (config (adjust_calls accs s)) =
     learningRate (config s) * 0.9 ^ (phase (adjust_calls accs s) - phase s) \<and>
   variance (config (adjust_calls accs s)) = variance (config s)"
proof (induction accs arbitrary: s)
  case Nil
  show ?case by (simp add: adjust_calls_def)
next
  case (Cons a accs)
  let ?s1 = "adjustLearningRate a s"
  have unfold: "adjust_calls (a # accs) s = adjust_calls accs ?s1"
    by (simp add: adjust_calls_def)
  show ?case
  proof (cases "phase s < 6 \<and> a > thresholds ! phase s")
    case True
    then have s1: "phase ?s1 = phase s + 1"
      "learningRate (config ?s1) = learningRate (config s) * 0.9"
      "variance (config ?s1) = variance (config s)"
      by (simp_all add: adjustLearningRate_step)
    from Cons.IH [of ?s1] s1 True have
      a: "phase s + 1 \<le> phase (adjust_calls accs ?s1)" and
      b: "phase (adjust_calls accs ?s1) \<le> 6" and
      c: "phase (adjust_calls accs ?s1) - (phase s + 1) \<le> length accs" and
      d: "learningRate (config (adjust_calls accs ?s1)) =
            learningRate (config s) * 0.9 * 0.9 ^ (phase (adjust_calls accs ?s1) - (phase s + 1))" and
      e: "variance (config (adjust_calls accs ?s1)) = variance (config s)"
      by auto
    from a have pw: "(0.9::real) ^ (phase (adjust_calls accs ?s1) - phase s) =
        0.9 * 0.9 ^ (phase (adjust_calls accs ?s1) - (phase s + 1))"
      by (metis Suc_diff_le Suc_eq_plus1 diff_Suc_Suc power_Suc)
    have lr: "learningRate (config (adjust_calls accs ?s1)) =
        learningRate (config s) * 0.9 ^ (phase (adjust_calls accs ?s1) - phase s)"
      using d by (simp only: pw mult.assoc)
    have n1: "phase s \<le> phase (adjust_calls accs ?s1)" using a by arith
    have n2: "phase (adjust_calls accs ?s1) \<le> max (phase s) 6" using b by arith
    have n3: "phase (adjust_calls accs ?s1) - phase s \<le> length (a # accs)"
      using a c by simp
    show ?thesis
      unfolding unfold using n1 n2 n3 lr e by blast
  next
    case False
    then have "?s1 = s" by (subst adjustLearningRate_step) (simp only: if_False)
    with Cons.IH [of s] show ?thesis
      unfolding unfold by auto
  qed
qed

text \<open>
  C5 (as amended). A call multiplies the learning rate by 0.9 and advances the phase by one
  exactly when the phase is below six and the accuracy exceeds the threshold the phase
  points at; otherwise it changes nothing. Over any sequence of calls the phase never
  decreases, advances at most once per call and never beyond six, and the learning rate
  ends as the initial one times 0.9 to the number of phases advanced: each threshold
  triggers at most once, in ascending order.
\<close>

theorem adjustLearningRate_schedule:
  "adjustLearningRate a s =
     (if phase s < 6 \<and> a > thresholds ! phase s
      then s\<lparr>config := (config s)\<lparr>learningRate := learningRate (config s) * 0.9\<rparr>,
             phase := phase s + 1\<rparr>
      else s) \<and>
   phase s \<le> phase (adjust_calls accs s) \<and>
   phase (adjust_calls accs s) \<le> max (phase s) 6 \<and>
   phase (adjust_calls accs s) - phase s \<le> length accs \<and>
   learningRate (config (adjust_calls accs s)) =
     learningRate (config s) * 0.9 ^ (phase (adjust_calls accs s) - phase s)"
  using adjustLearningRate_step [of a s] adjust_calls_facts [of s accs] by blast

text \<open>
  One call with accuracy 0.99 from phase 0: the accuracy has crossed all six thresholds,
  so the schedule as the spec words it would have applied six factors; the code applies
  one and moves to phase 1.
\<close>

theorem adjustLearningRate_counterexample:
  "crossed_thresholds [0.99] = 6 \<and>
   phase (adjust_calls [0.99] \<lparr>phase = 0, config = \<lparr>learningRate = 1, variance = 1\<rparr>\<rparr>) = 1 \<and>
   learningRate (config (adjust_calls [0.99]
       \<lparr>phase = 0, config = \<lparr>learningRate = 1, variance = 1\<rparr>\<rparr>)) = 0.9 \<and>
   learningRate (config (adjust_calls [0.99]
       \<lparr>phase = 0, config = \<lparr>learningRate = 1, variance = 1\<rparr>\<rparr>)) \<noteq> spec_learningRate [0.99] 1"
  by (simp add: adjust_calls_def adjustLearningRate_def crossed_thresholds_def
      spec_learningRate_def thresholds_def)

subsection \<open>The unimplemented operations of CNN\<close>

text \<open>
  C9 (as amended). \<^verbatim>\<open>CNN::read\<close>, \<^verbatim>\<open>CNN::save\<close> and \<^verbatim>\<open>CNN::feedBackward\<close> return
  normally and change nothing: the network, the caller's error matrix and the files on
  disk are as before the call. None of them signals an error.
\<close>

theorem CNN_stubs_are_noops:
  "CNN_read fn cnn = Inr cnn \<and>
   CNN_save fn cnn disk = Inr disk \<and>
   CNN_feedBackward cnn error delta = Inr (cnn, error)"
  by (simp add: CNN_read_def CNN_save_def CNN_feedBackward_def)

theorem CNN_stubs_counterexample:
  "CNN_read ''cnn.model'' \<lparr>transforms = [], houts = []\<rparr> = Inr \<lparr>transforms = [], houts = []\<rparr> \<and>
   CNN_save ''cnn.model'' \<lparr>transforms = [], houts = []\<rparr> [] = Inr [] \<and>
   CNN_feedBackward \<lparr>transforms = [], houts = []\<rparr> (zeros 1 1) (zeros 1 1) =
     Inr (\<lparr>transforms = [], houts = []\<rparr>, zeros 1 1)"
  by (simp add: CNN_read_def CNN_save_def CNN_feedBackward_def)

subsection \<open>Construction of the layers from a descriptor\<close>

lemma is_digit_not_x: "is_digit c \<Longrightarrow> c \<noteq> CHR ''x''"
  by (auto simp: is_digit_def)

lemma split_aux_digits:
  "list_all is_digit a \<Longrightarrow> split_aux (a @ rest) CHR ''x'' cur = split_aux rest CHR ''x'' (cur @ a)"
  by (induction a arbitrary: cur) (auto simp: is_digit_not_x)

lemma split_str_conv_token:
  assumes "digits1 a" "digits1 b" "digits1 c"
  shows "split_str (a @ ''x'' @ b @ ''x'' @ c) CHR ''x'' = [a, b, c]"
proof -
  from assms have da: "list_all is_digit a" and db: "list_all is_digit b"
    and dc: "list_all is_digit c" and c: "c \<noteq> []"
    by (simp_all add: digits1_def)
  have "split_aux (a @ ''x'' @ b @ ''x'' @ c) CHR ''x'' [] =
        split_aux (''x'' @ b @ ''x'' @ c) CHR ''x'' a"
    using split_aux_digits [OF da, of "''x'' @ b @ ''x'' @ c" "[]"] by simp
  also have "\<dots> = a # split_aux (b @ ''x'' @ c) CHR ''x'' []" by simp
  also have "\<dots> = a # split_aux (''x'' @ c) CHR ''x'' b"
    using split_aux_digits [OF db, of "''x'' @ c" "[]"] by simp
  also have "\<dots> = a # b # split_aux (c @ []) CHR ''x'' []" by simp
  also have "\<dots> = a # b # split_aux [] CHR ''x'' c"
    using split_aux_digits [OF dc, of "[]" "[]"] by simp
  also have "\<dots> = [a, b, c]" using c by simp
  finally show ?thesis by (simp add: split_str_def)
qed

lemma digit_val_nonneg: "is_digit c \<Longrightarrow> 0 \<le> digit_val c"
  by (auto simp: is_digit_def digit_val_def)

lemma str2int_aux_nonneg: "0 \<le> acc \<Longrightarrow> 0 \<le> str2int_aux acc s"
  by (induction s arbitrary: acc) (auto simp: digit_val_nonneg)

lemma str2int_nonneg: "0 \<le> str2int s"
  by (simp add: str2int_def str2int_aux_nonneg)

lemma conv_token_has_x:
  "CHR ''x'' \<in> set (a @ ''x'' @ b @ ''x'' @ c)"
  by simp

lemma digits_no_s: "list_all is_digit a \<Longrightarrow> CHR ''s'' \<notin> set a"
  by (induction a) (auto simp: is_digit_def)

lemma conv_token_no_s:
  assumes "digits1 a" "digits1 b" "digits1 c"
  shows "CHR ''s'' \<notin> set (a @ ''x'' @ b @ ''x'' @ c)"
  using assms by (simp add: digits1_def digits_no_s)

lemma to_size_t_small: "0 \<le> i \<Longrightarrow> i < 2 ^ 64 \<Longrightarrow> to_size_t i = nat i"
  by (simp add: to_size_t_def)

lemma to_int32_small: "n < 2 ^ 31 \<Longrightarrow> to_int32 n = int n"
  by (simp add: to_int32_def Let_def)

lemma token_number:
  assumes "0 < str2int a" "str2int a < 2 ^ 31"
  shows "to_size_t (str2int a) = nat (str2int a)"
    and "to_int32 (nat (str2int a)) = str2int a"
proof -
  show "to_size_t (str2int a) = nat (str2int a)"
    using assms by (intro to_size_t_small) simp_all
  have "nat (str2int a) < 2 ^ 31" using assms by simp
  then show "to_int32 (nat (str2int a)) = str2int a"
    using assms(1) by (simp add: to_int32_small)
qed

lemma init_token_x:
  assumes "CHR ''s'' \<notin> set tok" "CHR ''x'' \<in> set tok"
  shows "init_token kfile tok st =
     (if length (split_str tok CHR ''x'') < 3 then Inl OutOfRange
      else case new_ConvolutionalLayer kfile (counter st) (nInputMaps st)
                  (to_size_t (str2int (split_str tok CHR ''x'' ! 0)))
                  (to_int32 (to_size_t (str2int (split_str tok CHR ''x'' ! 2))))
                  (to_int32 (to_size_t (str2int (split_str tok CHR ''x'' ! 1)))) of
             Inl e \<Rightarrow> Inl e
           | Inr (t0, cnt, line) \<Rightarrow>
               Inr (st\<lparr>built := built st @ [set_input_img_size (img_size st) t0],
                      img_size := get_output_img_size (set_input_img_size (img_size st) t0),
                      nInputMaps := to_size_t (str2int (split_str tok CHR ''x'' ! 0)),
                      counter := cnt,
                      stdout := stdout st @ [line]\<rparr>))"
  unfolding init_token_def
  by (simp only: assms if_True if_False Let_def)

lemma init_token_conv_call:
  assumes "digits1 a" "digits1 b" "digits1 c"
  shows "init_token kfile (a @ ''x'' @ b @ ''x'' @ c) st =
     (case new_ConvolutionalLayer kfile (counter st) (nInputMaps st) (to_size_t (str2int a))
             (to_int32 (to_size_t (str2int c))) (to_int32 (to_size_t (str2int b))) of
        Inl e \<Rightarrow> Inl e
      | Inr (t0, cnt, line) \<Rightarrow>
          Inr (st\<lparr>built := built st @ [set_input_img_size (img_size st) t0],
                 img_size := get_output_img_size (set_input_img_size (img_size st) t0),
                 nInputMaps := to_size_t (str2int a), counter := cnt,
                 stdout := stdout st @ [line]\<rparr>))"
proof -
  have s: "CHR ''s'' \<notin> set (a @ ''x'' @ b @ ''x'' @ c)"
    by (rule conv_token_no_s [OF assms])
  have x: "CHR ''x'' \<in> set (a @ ''x'' @ b @ ''x'' @ c)" by simp
  have sp: "split_str (a @ ''x'' @ b @ ''x'' @ c) CHR ''x'' = [a, b, c]"
    by (rule split_str_conv_token [OF assms])
  show ?thesis
    unfolding init_token_x [OF s x] sp by (simp split: sum.splits)
qed

lemma init_token_conv_layer:
  fixes st :: init_state
  assumes "digits1 a" "digits1 b" "digits1 c"
    and "0 < nInputMaps st" "0 < str2int a" "0 < str2int b" "0 < str2int c"
    and "str2int a < 2 ^ 31" "str2int b < 2 ^ 31" "str2int c < 2 ^ 31"
    and "counter st + nInputMaps st * nat (str2int a) < 2 ^ 31"
  shows "init_token kfile (a @ ''x'' @ b @ ''x'' @ c) st =
     Inr \<lparr>built = built st @
            [ConvolutionalLayer (nInputMaps st) (nat (str2int a)) (img_size st)
               (map (\<lambda>i. map (\<lambda>j. kfile (counter st + i * nat (str2int a) + j + 1))
                          [0..<nat (str2int a)]) [0..<nInputMaps st])
               (replicate (nat (str2int a)) 0)],
          img_size = \<lparr>size_m = size_m (img_size st) + 1 - rows (kfile (counter st + 1)),
                      size_n = size_n (img_size st) + 1 - cols (kfile (counter st + 1))\<rparr>,
          nInputMaps = nat (str2int a),
          counter = counter st + nInputMaps st * nat (str2int a),
          stdout = stdout st @
            [Initializing (nInputMaps st) (nat (str2int a)) (str2int c) (str2int b)]\<rparr>"
proof -
  have k00: "map (\<lambda>i. map (\<lambda>j. kfile (counter st + i * nat (str2int a) + j + 1))
                          [0..<nat (str2int a)]) [0..<nInputMaps st] ! 0 ! 0 = kfile (counter st + 1)"
    using assms(4,5) by simp
  note n = token_number [OF assms(5) assms(8)] token_number [OF assms(6) assms(9)]
    token_number [OF assms(7) assms(10)]
  show ?thesis
    apply (subst init_token_conv_call [OF assms(1-3)])
    using assms(4-7) assms(11) k00
    apply (simp add: n new_ConvolutionalLayer_def Let_def)
    done
qed

lemma init_token_no_such_layer:
  "init_token kfile tok st = Inl (NoSuchLayer t) \<longleftrightarrow>
     CHR ''s'' \<notin> set tok \<and> CHR ''x'' \<notin> set tok \<and> t = tok"
  by (auto simp: init_token_def Let_def new_ConvolutionalLayer_def split: sum.splits if_splits)

lemma init_token_subsampling:
  "CHR ''s'' \<in> set tok \<Longrightarrow>
   init_token kfile tok st =
     (if to_size_t (str2int (take (length tok - 1) tok)) = 0 then Inl DivisionByZero
      else Inr (st\<lparr>built := built st @
                  [SubSamplingLayer (nInputMaps st) (nInputMaps st) (img_size st)
                     (to_size_t (str2int (take (length tok - 1) tok)))],
                 img_size :=
                   \<lparr>size_m = size_m (img_size st) div to_size_t (str2int (take (length tok - 1) tok)),
                    size_n = size_n (img_size st) div to_size_t (str2int (take (length tok - 1) tok))\<rparr>\<rparr>))"
  by (simp add: init_token_def Let_def)

lemma init_layers_append:
  "init_layers kfile pre st = Inr st1 \<Longrightarrow>
   init_layers kfile (pre @ post) st = init_layers kfile post st1"
  by (induction pre arbitrary: st) (auto split: sum.splits)

lemma init_layers_error:
  assumes "init_layers kfile pre st = Inr st1"
    and "CHR ''s'' \<notin> set tok" "CHR ''x'' \<notin> set tok"
  shows "init_layers kfile (pre @ tok # post) st = Inl (NoSuchLayer tok, st1)"
proof -
  have "init_token kfile tok st1 = Inl (NoSuchLayer tok)"
    using assms(2,3) by (simp add: init_token_no_such_layer)
  then show ?thesis
    by (simp add: init_layers_append [OF assms(1)])
qed

lemma init_token_Inr:
  assumes "init_token kfile tok st = Inr st'"
  shows "\<exists>t. built st' = built st @ [t] \<and> get_input_img_size t = img_size st \<and>
             getNumInputMaps t = nInputMaps st \<and> img_size st' = get_output_img_size t \<and>
             nInputMaps st' = getNumOutputMaps t"
  using assms
  by (auto simp: init_token_def Let_def new_ConvolutionalLayer_def split: sum.splits if_splits)

lemma init_layers_chained:
  "init_layers kfile toks st = Inr st' \<Longrightarrow>
   \<exists>new. built st' = built st @ new \<and> length new = length toks \<and>
         chained (img_size st) (nInputMaps st) new \<and>
         img_size st' = final_size (img_size st) new \<and>
         nInputMaps st' = final_maps (nInputMaps st) new"
proof (induction toks arbitrary: st)
  case Nil
  then show ?case by simp
next
  case (Cons tok toks)
  from Cons.prems obtain st1 where
    t1: "init_token kfile tok st = Inr st1" and r: "init_layers kfile toks st1 = Inr st'"
    by (auto split: sum.splits)
  from init_token_Inr [OF t1] obtain t where
    t: "built st1 = built st @ [t]" "get_input_img_size t = img_size st"
       "getNumInputMaps t = nInputMaps st" "img_size st1 = get_output_img_size t"
       "nInputMaps st1 = getNumOutputMaps t"
    by blast
  from Cons.IH [OF r] obtain new where
    n: "built st' = built st1 @ new" "length new = length toks"
       "chained (img_size st1) (nInputMaps st1) new"
       "img_size st' = final_size (img_size st1) new"
       "nInputMaps st' = final_maps (nInputMaps st1) new"
    by blast
  show ?case
    by (rule exI [of _ "t # new"]) (use t n in simp)
qed

lemma CNN_init_error:
  assumes "split_str structure CHR ''-'' = pre @ tok # post"
    and "init_layers kfile pre
           \<lparr>built = transforms0, img_size = size0, nInputMaps = 1, counter = counter0,
            stdout = []\<rparr> = Inr st1"
    and "CHR ''s'' \<notin> set tok" "CHR ''x'' \<notin> set tok"
  shows "CNN_init kfile structure size0 transforms0 counter0 = Inl (NoSuchLayer tok, st1)"
    and "length (built st1) = length transforms0 + length pre"
proof -
  show "CNN_init kfile structure size0 transforms0 counter0 = Inl (NoSuchLayer tok, st1)"
    unfolding CNN_init_def assms(1) by (rule init_layers_error [OF assms(2-4)])
  from init_layers_chained [OF assms(2)] show "length (built st1) = length transforms0 + length pre"
    by auto
qed

lemma CNN_init_chained:
  assumes "CNN_init kfile structure size0 transforms0 counter0 = Inr st'"
  shows "\<exists>new. built st' = transforms0 @ new \<and>
         length new = length (split_str structure CHR ''-'') \<and>
         chained size0 1 new \<and> img_size st' = final_size size0 new \<and>
         nInputMaps st' = final_maps 1 new"
  using init_layers_chained [OF assms [unfolded CNN_init_def]] by simp

text \<open>
  C7 (as amended). For a token \<open>NxAxB\<close> of three positive decimal numbers below \<open>2 ^ 31\<close>,
  read in a state with at least one input map and with the constructor's file counter far
  enough from the end of its range, \<^verbatim>\<open>CNN::init\<close> constructs one convolutional layer with
  \<open>N\<close> output maps on the running number of input maps and the running image size. The
  constructor is called with height \<open>B\<close> and width \<open>A\<close>, which it prints: the token gives
  the width before the height. Under valid mode the output image size, which becomes the
  running image size, is (input rows - kh + 1) by (input columns - kw + 1) for the
  \<open>kh\<close> by \<open>kw\<close> kernel \<open>[0][0]\<close> the layer holds, when that kernel fits the image.
\<close>

theorem init_convolutional_token:
  fixes st :: init_state
  assumes "digits1 a" "digits1 b" "digits1 c"
    and "0 < nInputMaps st" "0 < str2int a" "0 < str2int b" "0 < str2int c"
    and "str2int a < 2 ^ 31" "str2int b < 2 ^ 31" "str2int c < 2 ^ 31"
    and "counter st + nInputMaps st * nat (str2int a) < 2 ^ 31"
    and "rows (kfile (counter st + 1)) \<le> size_m (img_size st)"
    and "cols (kfile (counter st + 1)) \<le> size_n (img_size st)"
  shows "init_token kfile (a @ ''x'' @ b @ ''x'' @ c) st =
     Inr \<lparr>built = built st @
            [ConvolutionalLayer (nInputMaps st) (nat (str2int a)) (img_size st)
               (map (\<lambda>i. map (\<lambda>j. kfile (counter st + i * nat (str2int a) + j + 1))
                          [0..<nat (str2int a)]) [0..<nInputMaps st])
               (replicate (nat (str2int a)) 0)],
          img_size = \<lparr>size_m = size_m (img_size st) - rows (kfile (counter st + 1)) + 1,
                      size_n = size_n (img_size st) - cols (kfile (counter st + 1)) + 1\<rparr>,
          nInputMaps = nat (str2int a),
          counter = counter st + nInputMaps st * nat (str2int a),
          stdout = stdout st @
            [Initializing (nInputMaps st) (nat (str2int a)) (str2int c) (str2int b)]\<rparr>"
  using init_token_conv_layer [OF assms(1-11), of kfile] assms(12,13) by (simp add: Suc_diff_le)

theorem init_convolutional_token_witness:
  "init_token example_kfile ''2x3x5'' example_init_state =
     Inr \<lparr>built = [ConvolutionalLayer 1 2 \<lparr>size_m = 10, size_n = 10\<rparr>
                     [[zeros 5 3, zeros 5 3]] [0, 0]],
          img_size = \<lparr>size_m = 6, size_n = 8\<rparr>,
          nInputMaps = 2, counter = 2, stdout = [Initializing 1 2 5 3]\<rparr>"
  using init_convolutional_token [of "''2''" "''3''" "''5''" example_init_state example_kfile]
  by (simp add: digits1_def is_digit_def str2int_def digit_val_def example_init_state_def
      example_kfile_def zeros_def upt1 upt2 replicate2 del: One_nat_def)

lemma example_conv_token:
  "init_token example_kfile ''1x3x5'' example_init_state =
     Inr \<lparr>built = [ConvolutionalLayer 1 1 \<lparr>size_m = 10, size_n = 10\<rparr> [[zeros 5 3]] [0]],
          img_size = \<lparr>size_m = 6, size_n = 8\<rparr>,
          nInputMaps = 1, counter = 1, stdout = [Initializing 1 1 5 3]\<rparr>"
  using init_token_conv_layer [of "''1''" "''3''" "''5''" example_init_state example_kfile]
  by (simp add: digits1_def is_digit_def str2int_def digit_val_def example_init_state_def
      example_kfile_def zeros_def upt1 upt2 replicate2 del: One_nat_def)

text \<open>
  The token \<open>1x3x5\<close> on images of 10 by 10, with kernel files of the size the constructor
  prints (5 by 3): the kernel has height 5 and width 3, and the output image is 6 by 8,
  where the claim has height 3, width 5 and an output image of 8 by 6.
\<close>

theorem init_convolutional_token_counterexample:
  "init_token example_kfile ''1x3x5'' example_init_state =
     Inr \<lparr>built = [ConvolutionalLayer 1 1 \<lparr>size_m = 10, size_n = 10\<rparr> [[zeros 5 3]] [0]],
          img_size = \<lparr>size_m = 6, size_n = 8\<rparr>,
          nInputMaps = 1, counter = 1, stdout = [Initializing 1 1 5 3]\<rparr> \<and>
   getKernelHeight (ConvolutionalLayer 1 1 \<lparr>size_m = 10, size_n = 10\<rparr> [[zeros 5 3]] [0]) = 5 \<and>
   getKernelWidth (ConvolutionalLayer 1 1 \<lparr>size_m = 10, size_n = 10\<rparr> [[zeros 5 3]] [0]) = 3 \<and>
   \<lparr>size_m = 6, size_n = 8\<rparr> \<noteq> spec_conv_output_size \<lparr>size_m = 10, size_n = 10\<rparr> 3 5"
  using example_conv_token
  by (simp add: zeros_def getKernelHeight_def getKernelWidth_def spec_conv_output_size_def)

text \<open>
  C8 (as amended). \<^verbatim>\<open>CNN::init\<close> splits its descriptor on \<open>-\<close> and dispatches every
  token on the characters it contains. The configuration error naming the token is raised
  for exactly the tokens that contain neither \<open>s\<close> nor \<open>x\<close>; \<^verbatim>\<open>init\<close> then stops with
  that error, no layer is constructed from the token, and the layers of the tokens before
  it are kept. Every token that contains \<open>s\<close> is taken as a sub-sampling token, with the
  leading digits of the token less its last character as the scale. Every other token that
  contains \<open>x\<close> is taken as a convolutional token: it is split on \<open>x\<close>, and the
  convolutional layer's constructor is called with the first number as the number of output
  maps, the third as the height and the second as the width; the layer it returns is the
  one constructed. Whenever \<^verbatim>\<open>init\<close> returns normally it has constructed one layer per
  token, in order, each with the output image size and the number of output maps of the
  layer before it as its input.
\<close>

theorem init_dispatch:
  "(split_str structure CHR ''-'' = pre @ tok # post \<and>
    init_layers kfile pre
      \<lparr>built = transforms0, img_size = size0, nInputMaps = 1, counter = counter0,
       stdout = []\<rparr> = Inr st1 \<and>
    CHR ''s'' \<notin> set tok \<and> CHR ''x'' \<notin> set tok \<longrightarrow>
      CNN_init kfile structure size0 transforms0 counter0 = Inl (NoSuchLayer tok, st1) \<and>
      length (built st1) = length transforms0 + length pre) \<and>
   (init_token kfile tok' st = Inl (NoSuchLayer t) \<longleftrightarrow>
      CHR ''s'' \<notin> set tok' \<and> CHR ''x'' \<notin> set tok' \<and> t = tok') \<and>
   (CHR ''s'' \<in> set stok \<longrightarrow>
      init_token kfile stok st =
        (if to_size_t (str2int (take (length stok - 1) stok)) = 0 then Inl DivisionByZero
         else Inr (st\<lparr>built := built st @
                     [SubSamplingLayer (nInputMaps st) (nInputMaps st) (img_size st)
                        (to_size_t (str2int (take (length stok - 1) stok)))],
                    img_size :=
                      \<lparr>size_m = size_m (img_size st) div
                                  to_size_t (str2int (take (length stok - 1) stok)),
                       size_n = size_n (img_size st) div
                                  to_size_t (str2int (take (length stok - 1) stok))\<rparr>\<rparr>))) \<and>
   (CHR ''s'' \<notin> set xtok \<and> CHR ''x'' \<in> set xtok \<longrightarrow>
      init_token kfile xtok st =
        (if length (split_str xtok CHR ''x'') < 3 then Inl OutOfRange
         else case new_ConvolutionalLayer kfile (counter st) (nInputMaps st)
                     (to_size_t (str2int (split_str xtok CHR ''x'' ! 0)))
                     (to_int32 (to_size_t (str2int (split_str xtok CHR ''x'' ! 2))))
                     (to_int32 (to_size_t (str2int (split_str xtok CHR ''x'' ! 1)))) of
                Inl e \<Rightarrow> Inl e
              | Inr (t0, cnt, line) \<Rightarrow>
                  Inr (st\<lparr>built := built st @ [set_input_img_size (img_size st) t0],
                         img_size := get_output_img_size (set_input_img_size (img_size st) t0),
                         nInputMaps := to_size_t (str2int (split_str xtok CHR ''x'' ! 0)),
                         counter := cnt,
                         stdout := stdout st @ [line]\<rparr>))) \<and>
   (CNN_init kfile structure' size0 transforms0 counter0 = Inr st' \<longrightarrow>
      (\<exists>new. built st' = transforms0 @ new \<and>
         length new = length (split_str structure' CHR ''-'') \<and>
         chained size0 1 new \<and>
         img_size st' = final_size size0 new \<and>
         nInputMaps st' = final_maps 1 new))"
  using CNN_init_error [of "structure" pre tok post kfile transforms0 size0 counter0 st1]
    init_token_no_such_layer [of kfile tok' st t]
    init_token_subsampling [of stok kfile st]
    init_token_x [of xtok kfile st]
    CNN_init_chained [of kfile structure' size0 transforms0 counter0 st']
  by blast

lemma example_split_error: "split_str ''2s-abc-5s'' CHR ''-'' = [''2s''] @ ''abc'' # [''5s'']"
  by (simp add: split_str_def)

lemma example_split_ok: "split_str ''2x3x5-2s'' CHR ''-'' = [''2x3x5'', ''2s'']"
  by (simp add: split_str_def)

lemma example_split_x: "split_str ''2x3x5'' CHR ''x'' = [''2'', ''3'', ''5'']"
  by (simp add: split_str_def)

lemma example_numbers:
  "to_size_t (str2int ''2'') = 2" "to_size_t (str2int ''3'') = 3" "to_size_t (str2int ''5'') = 5"
  "to_int32 3 = 3" "to_int32 5 = 5"
  by (simp_all add: to_size_t_def to_int32_def str2int_def is_digit_def digit_val_def)

lemma example_sub_token:
  "init_token example_kfile ''2s'' example_init_state =
     Inr \<lparr>built = [SubSamplingLayer 1 1 \<lparr>size_m = 10, size_n = 10\<rparr> 2],
          img_size = \<lparr>size_m = 5, size_n = 5\<rparr>, nInputMaps = 1, counter = 0,
          stdout = []\<rparr>"
  by (simp add: init_token_def Let_def example_numbers example_init_state_def)

lemma example_new_layer:
  "new_ConvolutionalLayer example_kfile 0 1 2 5 3 =
     Inr (ConvolutionalLayer 1 2 \<lparr>size_m = 0, size_n = 0\<rparr> [[zeros 5 3, zeros 5 3]] [0, 0],
          2, Initializing 1 2 5 3)"
  by (simp add: new_ConvolutionalLayer_def Let_def example_kfile_def upt1 upt2 replicate2
      del: One_nat_def)

lemma example_init_ok:
  "CNN_init example_kfile ''2x3x5-2s'' \<lparr>size_m = 10, size_n = 10\<rparr> [] 0 =
     Inr \<lparr>built = [ConvolutionalLayer 1 2 \<lparr>size_m = 10, size_n = 10\<rparr>
                     [[zeros 5 3, zeros 5 3]] [0, 0],
                   SubSamplingLayer 2 2 \<lparr>size_m = 6, size_n = 8\<rparr> 2],
          img_size = \<lparr>size_m = 3, size_n = 4\<rparr>, nInputMaps = 2, counter = 2,
          stdout = [Initializing 1 2 5 3]\<rparr>"
proof -
  have s: "CHR ''s'' \<notin> set ''2x3x5''" and x: "CHR ''x'' \<in> set ''2x3x5''" by simp_all
  have t1: "init_token example_kfile ''2x3x5''
      \<lparr>built = [], img_size = \<lparr>size_m = 10, size_n = 10\<rparr>, nInputMaps = 1, counter = 0,
       stdout = []\<rparr> =
     Inr \<lparr>built = [ConvolutionalLayer 1 2 \<lparr>size_m = 10, size_n = 10\<rparr>
                     [[zeros 5 3, zeros 5 3]] [0, 0]],
          img_size = \<lparr>size_m = 6, size_n = 8\<rparr>, nInputMaps = 2, counter = 2,
          stdout = [Initializing 1 2 5 3]\<rparr>"
    unfolding init_token_x [OF s x] example_split_x
    by (simp add: example_numbers example_new_layer zeros_def del: One_nat_def)
  have t2: "init_token example_kfile ''2s''
      \<lparr>built = [ConvolutionalLayer 1 2 \<lparr>size_m = 10, size_n = 10\<rparr>
                     [[zeros 5 3, zeros 5 3]] [0, 0]],
          img_size = \<lparr>size_m = 6, size_n = 8\<rparr>, nInputMaps = 2, counter = 2,
          stdout = [Initializing 1 2 5 3]\<rparr> =
     Inr \<lparr>built = [ConvolutionalLayer 1 2 \<lparr>size_m = 10, size_n = 10\<rparr>
                     [[zeros 5 3, zeros 5 3]] [0, 0],
                   SubSamplingLayer 2 2 \<lparr>size_m = 6, size_n = 8\<rparr> 2],
          img_size = \<lparr>size_m = 3, size_n = 4\<rparr>, nInputMaps = 2, counter = 2,
          stdout = [Initializing 1 2 5 3]\<rparr>"
    by (simp add: init_token_def Let_def example_numbers)
  show ?thesis
    unfolding CNN_init_def example_split_ok by (simp add: t1 t2 del: One_nat_def)
qed

theorem init_dispatch_witness:
  "CNN_init example_kfile ''2s-abc-5s'' \<lparr>size_m = 10, size_n = 10\<rparr> [] 0 =
     Inl (NoSuchLayer ''abc'',
          \<lparr>built = [SubSamplingLayer 1 1 \<lparr>size_m = 10, size_n = 10\<rparr> 2],
           img_size = \<lparr>size_m = 5, size_n = 5\<rparr>, nInputMaps = 1, counter = 0,
           stdout = []\<rparr>) \<and>
   init_token example_kfile ''abc'' example_init_state = Inl (NoSuchLayer ''abc'') \<and>
   init_token example_kfile ''2s'' example_init_state =
     Inr \<lparr>built = [SubSamplingLayer 1 1 \<lparr>size_m = 10, size_n = 10\<rparr> 2],
          img_size = \<lparr>size_m = 5, size_n = 5\<rparr>, nInputMaps = 1, counter = 0,
          stdout = []\<rparr> \<and>
   init_token example_kfile ''2x3x5'' example_init_state =
     Inr \<lparr>built = [ConvolutionalLayer 1 2 \<lparr>size_m = 10, size_n = 10\<rparr>
                     [[zeros 5 3, zeros 5 3]] [0, 0]],
          img_size = \<lparr>size_m = 6, size_n = 8\<rparr>, nInputMaps = 2, counter = 2,
          stdout = [Initializing 1 2 5 3]\<rparr> \<and>
   (\<exists>new. [ConvolutionalLayer 1 2 \<lparr>size_m = 10, size_n = 10\<rparr> [[zeros 5 3, zeros 5 3]] [0, 0],
           SubSamplingLayer 2 2 \<lparr>size_m = 6, size_n = 8\<rparr> 2] = new \<and>
      length new = 2 \<and> chained \<lparr>size_m = 10, size_n = 10\<rparr> 1 new \<and>
      \<lparr>size_m = 3, size_n = 4\<rparr> = final_size \<lparr>size_m = 10, size_n = 10\<rparr> new \<and>
      2 = final_maps 1 new)"
proof -
  let ?s1 = "\<lparr>built = [SubSamplingLayer 1 1 \<lparr>size_m = 10, size_n = 10\<rparr> 2],
           img_size = \<lparr>size_m = 5, size_n = 5\<rparr>, nInputMaps = 1, counter = 0,
           stdout = []\<rparr>"
  let ?s2 = "\<lparr>built = [ConvolutionalLayer 1 2 \<lparr>size_m = 10, size_n = 10\<rparr>
                     [[zeros 5 3, zeros 5 3]] [0, 0],
                   SubSamplingLayer 2 2 \<lparr>size_m = 6, size_n = 8\<rparr> 2],
          img_size = \<lparr>size_m = 3, size_n = 4\<rparr>, nInputMaps = 2, counter = 2,
          stdout = [Initializing 1 2 5 3]\<rparr>"
  have l: "init_layers example_kfile [''2s'']
      \<lparr>built = [], img_size = \<lparr>size_m = 10, size_n = 10\<rparr>, nInputMaps = 1, counter = 0,
       stdout = []\<rparr> = Inr ?s1"
    using example_sub_token by (simp add: example_init_state_def)
  have n: "CHR ''s'' \<notin> set ''abc''" "CHR ''x'' \<notin> set ''abc''"
    "CHR ''s'' \<in> set ''2s''" "CHR ''s'' \<notin> set ''2x3x5''" "CHR ''x'' \<in> set ''2x3x5''"
    by simp_all
  note D = init_dispatch [of "''2s-abc-5s''" "[''2s'']" "''abc''" "[''5s'']" example_kfile
      "[]" "\<lparr>size_m = 10, size_n = 10\<rparr>" 0 ?s1 "''abc''" example_init_state "''abc''"
      "''2s''" "''2x3x5''" "''2x3x5-2s''" ?s2]
  have c1: "CNN_init example_kfile ''2s-abc-5s'' \<lparr>size_m = 10, size_n = 10\<rparr> [] 0 =
      Inl (NoSuchLayer ''abc'', ?s1)"
    using D example_split_error l n(1,2) by blast
  have c2: "init_token example_kfile ''abc'' example_init_state = Inl (NoSuchLayer ''abc'')"
    using D n(1,2) by blast
  have c3: "init_token example_kfile ''2s'' example_init_state =
      (if to_size_t (str2int (take (length ''2s'' - 1) ''2s'')) = 0 then Inl DivisionByZero
         else Inr (example_init_state\<lparr>built := built example_init_state @
                     [SubSamplingLayer (nInputMaps example_init_state)
                        (nInputMaps example_init_state) (img_size example_init_state)
                        (to_size_t (str2int (take (length ''2s'' - 1) ''2s'')))],
                    img_size :=
                      \<lparr>size_m = size_m (img_size example_init_state) div
                                  to_size_t (str2int (take (length ''2s'' - 1) ''2s'')),
                       size_n = size_n (img_size example_init_state) div
                                  to_size_t (str2int (take (length ''2s'' - 1) ''2s''))\<rparr>\<rparr>))"
    using D n(3) by blast
  have c3': "init_token example_kfile ''2s'' example_init_state = Inr ?s1"
    unfolding c3 by (simp add: example_numbers example_init_state_def)
  have c4: "init_token example_kfile ''2x3x5'' example_init_state =
        (if length (split_str ''2x3x5'' CHR ''x'') < 3 then Inl OutOfRange
         else case new_ConvolutionalLayer example_kfile (counter example_init_state)
                     (nInputMaps example_init_state)
                     (to_size_t (str2int (split_str ''2x3x5'' CHR ''x'' ! 0)))
                     (to_int32 (to_size_t (str2int (split_str ''2x3x5'' CHR ''x'' ! 2))))
                     (to_int32 (to_size_t (str2int (split_str ''2x3x5'' CHR ''x'' ! 1)))) of
                Inl e \<Rightarrow> Inl e
              | Inr (t0, cnt, line) \<Rightarrow>
                  Inr (example_init_state\<lparr>built := built example_init_state @
                           [set_input_img_size (img_size example_init_state) t0],
                         img_size := get_output_img_size
                           (set_input_img_size (img_size example_init_state) t0),
                         nInputMaps := to_size_t (str2int (split_str ''2x3x5'' CHR ''x'' ! 0)),
                         counter := cnt,
                         stdout := stdout example_init_state @ [line]\<rparr>))"
    using D n(4,5) by blast
  have c4': "init_token example_kfile ''2x3x5'' example_init_state =
     Inr \<lparr>built = [ConvolutionalLayer 1 2 \<lparr>size_m = 10, size_n = 10\<rparr>
                     [[zeros 5 3, zeros 5 3]] [0, 0]],
          img_size = \<lparr>size_m = 6, size_n = 8\<rparr>, nInputMaps = 2, counter = 2,
          stdout = [Initializing 1 2 5 3]\<rparr>"
    unfolding c4 example_split_x
    by (simp add: example_numbers example_init_state_def example_new_layer zeros_def
        del: One_nat_def)
  have c5: "\<exists>new. built ?s2 = [] @ new \<and>
         length new = length (split_str ''2x3x5-2s'' CHR ''-'') \<and>
         chained \<lparr>size_m = 10, size_n = 10\<rparr> 1 new \<and>
         img_size ?s2 = final_size \<lparr>size_m = 10, size_n = 10\<rparr> new \<and>
         nInputMaps ?s2 = final_maps 1 new"
    using D example_init_ok by blast
  then have c5': "\<exists>new. [ConvolutionalLayer 1 2 \<lparr>size_m = 10, size_n = 10\<rparr>
           [[zeros 5 3, zeros 5 3]] [0, 0],
           SubSamplingLayer 2 2 \<lparr>size_m = 6, size_n = 8\<rparr> 2] = new \<and>
      length new = 2 \<and> chained \<lparr>size_m = 10, size_n = 10\<rparr> 1 new \<and>
      \<lparr>size_m = 3, size_n = 4\<rparr> = final_size \<lparr>size_m = 10, size_n = 10\<rparr> new \<and>
      2 = final_maps 1 new"
    by (simp add: example_split_ok)
  show ?thesis
    using c1 c2 c3' c4' c5' by blast
qed

text \<open>
  The token \<open>2ss\<close> has neither of the two forms, and yet no error is raised: the token
  contains \<open>s\<close>, and a sub-sampling layer of scale 2 is constructed from it.
\<close>

theorem init_dispatch_counterexample:
  "\<not> token_is_subsampling_form ''2ss'' \<and> \<not> token_is_convolutional_form ''2ss'' \<and>
   CNN_init example_kfile ''2ss'' \<lparr>size_m = 10, size_n = 10\<rparr> [] 0 =
     Inr \<lparr>built = [SubSamplingLayer 1 1 \<lparr>size_m = 10, size_n = 10\<rparr> 2],
          img_size = \<lparr>size_m = 5, size_n = 5\<rparr>, nInputMaps = 1, counter = 0,
          stdout = []\<rparr>"
  by (simp add: token_is_subsampling_form_def token_is_convolutional_form_def digits1_def
      CNN_init_def split_str_def init_token_def Let_def to_size_t_def str2int_def is_digit_def
      digit_val_def)

subsection \<open>The copy constructor of DNN\<close>

lemma clone_all_spec:
  assumes "heap_ok h" "set ps \<subseteq> dom (objs h)"
  shows "\<exists>qs h'. clone_all ps h = Some (qs, h') \<and> length qs = length ps \<and>
           next_free h' = next_free h + length ps \<and> heap_ok h' \<and>
           (\<forall>a. a < next_free h \<longrightarrow> objs h' a = objs h a) \<and>
           (\<forall>i. i < length ps \<longrightarrow> qs ! i = next_free h + i \<and> objs h' (qs ! i) = objs h (ps ! i))"
  using assms
proof (induction ps arbitrary: h)
  case Nil
  then show ?case by simp
next
  case (Cons p ps)
  from Cons.prems obtain x where x: "objs h p = Some x" by auto
  define h1 where "h1 = snd (new_obj x h)"
  have c: "clone p h = Some (next_free h, h1)"
    by (simp add: clone_def x h1_def new_obj_def)
  have nf1: "next_free h1 = next_free h + 1" by (simp add: h1_def new_obj_def)
  have o1: "objs h1 = (objs h)(next_free h \<mapsto> x)" by (simp add: h1_def new_obj_def)
  have old: "\<And>a. a \<in> dom (objs h) \<Longrightarrow> a < next_free h"
    using Cons.prems(1) by (auto simp: heap_ok_def)
  have ok1: "heap_ok h1"
    using Cons.prems(1) by (auto simp: heap_ok_def nf1 o1 less_Suc_eq)
  have sub1: "set ps \<subseteq> dom (objs h1)"
    using Cons.prems(2) by (auto simp: o1)
  from Cons.IH [OF ok1 sub1] obtain qs h' where
    r: "clone_all ps h1 = Some (qs, h')" and len: "length qs = length ps" and
    nf: "next_free h' = next_free h1 + length ps" and ok: "heap_ok h'" and
    keep: "\<And>a. a < next_free h1 \<Longrightarrow> objs h' a = objs h1 a" and
    new: "\<And>i. i < length ps \<Longrightarrow> qs ! i = next_free h1 + i \<and> objs h' (qs ! i) = objs h1 (ps ! i)"
    by blast
  have res: "clone_all (p # ps) h = Some (next_free h # qs, h')"
    by (simp add: c r)
  have keep': "\<forall>a. a < next_free h \<longrightarrow> objs h' a = objs h a"
    using keep by (simp add: nf1 o1)
  have new': "\<forall>i. i < length (p # ps) \<longrightarrow>
      (next_free h # qs) ! i = next_free h + i \<and>
      objs h' ((next_free h # qs) ! i) = objs h ((p # ps) ! i)"
  proof (intro allI impI)
    fix i assume i: "i < length (p # ps)"
    show "(next_free h # qs) ! i = next_free h + i \<and>
      objs h' ((next_free h # qs) ! i) = objs h ((p # ps) ! i)"
    proof (cases i)
      case 0
      then show ?thesis using keep [of "next_free h"] by (simp add: nf1 o1 x)
    next
      case (Suc k)
      with i have k: "k < length ps" by simp
      then have "ps ! k \<in> set ps" by simp
      then have "ps ! k \<in> dom (objs h)" using Cons.prems(2) by auto
      then have "ps ! k < next_free h" by (rule old)
      then have e1: "objs h1 (ps ! k) = objs h (ps ! k)" by (simp add: o1)
      from new [OF k] have e2: "qs ! k = next_free h1 + k"
        and e3: "objs h' (qs ! k) = objs h1 (ps ! k)" by blast+
      have "(next_free h # qs) ! i = next_free h + i"
        using e2 by (simp add: Suc nf1)
      moreover have "objs h' ((next_free h # qs) ! i) = objs h ((p # ps) ! i)"
        using e3 e1 by (simp only: Suc nth_Cons_Suc)
      ultimately show ?thesis by blast
    qed
  qed
  have l': "length (next_free h # qs) = length (p # ps)" using len by simp
  have nf': "next_free h' = next_free h + length (p # ps)" using nf nf1 by simp
  show ?case
    using res l' nf' ok keep' new' by blast
qed

lemma DNN_copy_spec:
  assumes "heap_ok h" "set (dnn_transforms source) \<subseteq> dom (objs h)"
  shows "\<exists>cp h'. DNN_copy default_config source h = Some (cp, h') \<and>
     length (dnn_transforms cp) = length (dnn_transforms source) \<and>
     (\<forall>i. i < length (dnn_transforms source) \<longrightarrow>
        objs h' (dnn_transforms cp ! i) = objs h (dnn_transforms source ! i)) \<and>
     (\<forall>a. a < next_free h \<longrightarrow> objs h' a = objs h a) \<and>
     distinct (dnn_transforms cp) \<and>
     set (dnn_transforms cp) \<inter> dom (objs h) = {} \<and>
     set (dnn_transforms cp) \<inter> set (dnn_transforms source) = {} \<and>
     (\<forall>i j x. i < length (dnn_transforms source) \<longrightarrow> j < length (dnn_transforms source) \<longrightarrow>
        objs (store (dnn_transforms cp ! i) x h') (dnn_transforms source ! j) =
          objs h (dnn_transforms source ! j) \<and>
        objs (store (dnn_transforms source ! j) x h') (dnn_transforms cp ! i) =
          objs h' (dnn_transforms cp ! i)) \<and>
     dnn_config cp = default_config"
proof -
  let ?ps = "dnn_transforms source"
  from clone_all_spec [OF assms] obtain qs h' where
    r: "clone_all ?ps h = Some (qs, h')" and len: "length qs = length ?ps" and
    keep: "\<And>a. a < next_free h \<Longrightarrow> objs h' a = objs h a" and
    new: "\<And>i. i < length ?ps \<Longrightarrow> qs ! i = next_free h + i \<and> objs h' (qs ! i) = objs h (?ps ! i)"
    by blast
  let ?cp = "\<lparr>dnn_transforms = qs, dnn_config = default_config\<rparr>"
  have old: "\<And>a. a \<in> dom (objs h) \<Longrightarrow> a < next_free h"
    using assms(1) by (auto simp: heap_ok_def)
  have src: "\<And>j. j < length ?ps \<Longrightarrow> ?ps ! j < next_free h"
    using assms(2) old by (meson nth_mem subsetD)
  have qs_eq: "qs = map (\<lambda>i. next_free h + i) [0..<length ?ps]"
    using len new by (intro nth_equalityI) simp_all
  have dist: "distinct qs"
    unfolding qs_eq by (simp add: distinct_map inj_on_def)
  have ge: "\<And>q. q \<in> set qs \<Longrightarrow> next_free h \<le> q"
    unfolding qs_eq by auto
  have fresh: "set qs \<inter> dom (objs h) = {}"
    using ge old by fastforce
  have disj: "set qs \<inter> set ?ps = {}"
    using fresh assms(2) by blast
  have indep: "\<forall>i j x. i < length ?ps \<longrightarrow> j < length ?ps \<longrightarrow>
        objs (store (qs ! i) x h') (?ps ! j) = objs h (?ps ! j) \<and>
        objs (store (?ps ! j) x h') (qs ! i) = objs h' (qs ! i)"
  proof (intro allI impI)
    fix i j x assume i: "i < length ?ps" and j: "j < length ?ps"
    have ne: "qs ! i \<noteq> ?ps ! j"
      using new [OF i] src [OF j] by simp
    have "objs h' (?ps ! j) = objs h (?ps ! j)"
      using keep [OF src [OF j]] .
    then show "objs (store (qs ! i) x h') (?ps ! j) = objs h (?ps ! j) \<and>
        objs (store (?ps ! j) x h') (qs ! i) = objs h' (qs ! i)"
      using ne by (simp add: store_def)
  qed
  have c: "DNN_copy default_config source h = Some (?cp, h')"
    by (simp add: DNN_copy_def r)
  have same: "\<forall>i. i < length ?ps \<longrightarrow> objs h' (qs ! i) = objs h (?ps ! i)"
    using new by blast
  have keep': "\<forall>a. a < next_free h \<longrightarrow> objs h' a = objs h a"
    using keep by blast
  show ?thesis
    apply (rule exI [of _ ?cp], rule exI [of _ h'])
    using c len same keep' dist fresh disj indep by simp
qed

text \<open>
  C10. Copy-constructing a DNN from a source whose layer pointers are valid returns a DNN
  with as many layers; layer \<open>i\<close> of the copy is a newly allocated object with the contents
  of layer \<open>i\<close> of the source. The new objects are pairwise distinct and distinct from every
  object that existed, the source's among them, and the existing objects are unchanged:
  a later write through a pointer of one DNN leaves the layers of the other as they are.
  The copy's \<^verbatim>\<open>Config\<close> is the default-constructed one, whatever the source's is.
\<close>

theorem DNN_copy_deep:
  assumes "heap_ok h" "set (dnn_transforms source) \<subseteq> dom (objs h)"
  shows "\<exists>cp h'. DNN_copy default_config source h = Some (cp, h') \<and>
     length (dnn_transforms cp) = length (dnn_transforms source) \<and>
     (\<forall>i. i < length (dnn_transforms source) \<longrightarrow>
        objs h' (dnn_transforms cp ! i) = objs h (dnn_transforms source ! i)) \<and>
     (\<forall>a. a < next_free h \<longrightarrow> objs h' a = objs h a) \<and>
     distinct (dnn_transforms cp) \<and>
     set (dnn_transforms cp) \<inter> dom (objs h) = {} \<and>
     set (dnn_transforms cp) \<inter> set (dnn_transforms source) = {} \<and>
     (\<forall>i j x. i < length (dnn_transforms source) \<longrightarrow> j < length (dnn_transforms source) \<longrightarrow>
        objs (store (dnn_transforms cp ! i) x h') (dnn_transforms source ! j) =
          objs h (dnn_transforms source ! j) \<and>
        objs (store (dnn_transforms source ! j) x h') (dnn_transforms cp ! i) =
          objs h' (dnn_transforms cp ! i)) \<and>
     dnn_config cp = default_config"
  using assms by (rule DNN_copy_spec)

theorem DNN_copy_deep_witness:
  "\<exists>cp h'. DNN_copy example_default_config example_source example_heap = Some (cp, h') \<and>
     dnn_transforms cp = [1] \<and>
     objs h' 1 = Some example_layer \<and>
     objs h' 0 = Some example_layer \<and>
     objs (store 1 (example_layer\<lparr>getW := zeros 3 3\<rparr>) h') 0 = Some example_layer \<and>
     dnn_config cp = example_default_config \<and>
     dnn_config cp \<noteq> dnn_config example_source"
proof -
  have ok: "heap_ok example_heap"
    by (simp add: heap_ok_def example_heap_def)
  have sub: "set (dnn_transforms example_source) \<subseteq> dom (objs example_heap)"
    by (simp add: example_source_def example_heap_def dom_def)
  from DNN_copy_deep [OF ok sub, of example_default_config] obtain cp h' where
    c: "DNN_copy example_default_config example_source example_heap = Some (cp, h')" and
    same: "\<And>i. i < length (dnn_transforms example_source) \<Longrightarrow>
        objs h' (dnn_transforms cp ! i) = objs example_heap (dnn_transforms example_source ! i)" and
    keep: "\<And>a. a < next_free example_heap \<Longrightarrow> objs h' a = objs example_heap a" and
    indep: "\<And>i j x. i < length (dnn_transforms example_source) \<Longrightarrow>
        j < length (dnn_transforms example_source) \<Longrightarrow>
        objs (store (dnn_transforms cp ! i) x h') (dnn_transforms example_source ! j) =
          objs example_heap (dnn_transforms example_source ! j)" and
    cfg: "dnn_config cp = example_default_config"
    by blast
  have e: "DNN_copy example_default_config example_source example_heap =
      Some (\<lparr>dnn_transforms = [1], dnn_config = example_default_config\<rparr>,
            snd (new_obj example_layer example_heap))"
    by (simp add: DNN_copy_def example_source_def clone_def example_heap_def new_obj_def)
  from c e have ptr: "dnn_transforms cp = [1]" by auto
  have a1: "objs h' 1 = Some example_layer"
    using same [of 0] ptr by (simp add: example_source_def example_heap_def)
  have a0: "objs h' 0 = Some example_layer"
    using keep [of 0] by (simp add: example_heap_def)
  have a2: "objs (store 1 (example_layer\<lparr>getW := zeros 3 3\<rparr>) h') 0 = Some example_layer"
    using indep [of 0 0] ptr by (simp add: example_source_def example_heap_def)
  have ne: "dnn_config cp \<noteq> dnn_config example_source"
    using cfg by (simp add: example_source_def example_default_config_def)
  show ?thesis
    using c ptr a1 a0 a2 cfg ne by blast
qed

subsection \<open>The forward pass of the DNN\<close>

lemma last_column_bound:
  assumes "i < R * C - R"
  shows "i mod R < R" and "i div R + 1 < (C::nat)"
proof -
  have R: "0 < R" using assms by (cases R) simp_all
  then show "i mod R < R" by simp
  have "R * C - R = R * (C - 1)" by (simp add: diff_mult_distrib2)
  with assms have "i < R * (C - 1)" by simp
  then have "i div R < C - 1" by (rule div_less_mult)
  then show "i div R + 1 < C" by simp
qed

lemma fillLastColumnWith_mat_of:
  "fillLastColumnWith (mat_of R C g) v =
     \<lparr>rows = R, cols = C,
      data = map (\<lambda>i. g (i mod R) (i div R)) [0..<R * C - R] @ replicate R v\<rparr>"
  by (simp add: fillLastColumnWith_def mat_of_def take_map)

lemma fillLastColumnWith_cong:
  assumes "\<And>r c. r < R \<Longrightarrow> c + 1 < C \<Longrightarrow> g r c = g' r c"
  shows "fillLastColumnWith (mat_of R C g) v = fillLastColumnWith (mat_of R C g') v"
proof -
  have "map (\<lambda>i. g (i mod R) (i div R)) [0..<R * C - R] =
        map (\<lambda>i. g' (i mod R) (i div R)) [0..<R * C - R]"
  proof (rule map_cong [OF refl])
    fix i assume "i \<in> set [0..<R * C - R]"
    then have i: "i < R * C - R" by simp
    show "g (i mod R) (i div R) = g' (i mod R) (i div R)"
      by (rule assms [OF last_column_bound [OF i]])
  qed
  then show ?thesis by (simp only: fillLastColumnWith_mat_of)
qed

lemma ext_sigmoid_mat_of: "ext_sigmoid (mat_of R C f) = mat_of R C (\<lambda>r c. sigmoid (f r c))"
  by (simp add: ext_sigmoid_def mat_of_def comp_def)

lemma softmax_rows_mat_of:
  "softmax_rows (mat_of R C f) =
     mat_of R C (\<lambda>r c. exp (f r c) / (\<Sum>j\<leftarrow>[0..<C - 1]. exp (f r j)))"
proof -
  have "mat_of R C (\<lambda>r c. exp (elem (mat_of R C f) r c) /
            (\<Sum>j\<leftarrow>[0..<C - 1]. exp (elem (mat_of R C f) r j))) =
        mat_of R C (\<lambda>r c. exp (f r c) / (\<Sum>j\<leftarrow>[0..<C - 1]. exp (f r j)))"
  proof (rule mat_of_cong)
    fix r c assume r: "r < R" and c: "c < C"
    have "(\<Sum>j\<leftarrow>[0..<C - 1]. exp (elem (mat_of R C f) r j)) = (\<Sum>j\<leftarrow>[0..<C - 1]. exp (f r j))"
      by (rule sum_list_cong_upt) (simp add: elem_mat_of r)
    then show "exp (elem (mat_of R C f) r c) / (\<Sum>j\<leftarrow>[0..<C - 1]. exp (elem (mat_of R C f) r j)) =
        exp (f r c) / (\<Sum>j\<leftarrow>[0..<C - 1]. exp (f r j))"
      by (simp add: elem_mat_of r c)
  qed
  then show ?thesis by (simp add: softmax_rows_def)
qed

lemma activation_cong:
  assumes "\<And>r c. r < R \<Longrightarrow> c + 1 < C \<Longrightarrow> f r c = f' r c"
  shows "fillLastColumnWith
           ((case ty of Sigmoid \<Rightarrow> ext_sigmoid | Softmax \<Rightarrow> softmax_rows) (mat_of R C f)) v =
         fillLastColumnWith
           ((case ty of Sigmoid \<Rightarrow> ext_sigmoid | Softmax \<Rightarrow> softmax_rows) (mat_of R C f')) v"
proof (cases ty)
  case Sigmoid
  show ?thesis
    unfolding Sigmoid transform_type.case ext_sigmoid_mat_of
    by (rule fillLastColumnWith_cong) (simp add: assms)
next
  case Softmax
  show ?thesis
    unfolding Softmax transform_type.case softmax_rows_mat_of
  proof (rule fillLastColumnWith_cong)
    fix r c assume r: "r < R" and c: "c + 1 < C"
    have s: "(\<Sum>j\<leftarrow>[0..<C - 1]. exp (f r j)) = (\<Sum>j\<leftarrow>[0..<C - 1]. exp (f' r j))"
    proof (rule sum_list_cong_upt)
      fix j assume "j < C - 1"
      then have "j + 1 < C" by simp
      then show "exp (f r j) = exp (f' r j)" by (simp only: assms [OF r])
    qed
    have e: "f r c = f' r c" by (rule assms [OF r c])
    show "exp (f r c) / (\<Sum>j\<leftarrow>[0..<C - 1]. exp (f r j)) =
        exp (f' r c) / (\<Sum>j\<leftarrow>[0..<C - 1]. exp (f' r j))"
      by (simp only: s e)
  qed
qed

lemma feedForward_cong:
  assumes ty: "ftype t = ftype t'"
    and sh: "rows (getW t) = rows (getW t')" "cols (getW t) = cols (getW t')"
    and eq: "\<And>k c. k < rows (getW t) \<Longrightarrow> c + 1 < cols (getW t) \<Longrightarrow>
               elem (getW t) k c = elem (getW t') k c"
  shows "feedForward t x = feedForward t' x"
proof (cases "cols x = rows (getW t)")
  case False
  then show ?thesis using sh by (simp add: feedForward_def)
next
  case True
  have "fillLastColumnWith
           ((case ftype t of Sigmoid \<Rightarrow> ext_sigmoid | Softmax \<Rightarrow> softmax_rows)
              (mat_of (rows x) (cols (getW t))
                 (\<lambda>r c. \<Sum>k\<leftarrow>[0..<cols x]. elem x r k * elem (getW t) k c))) 1 =
        fillLastColumnWith
           ((case ftype t of Sigmoid \<Rightarrow> ext_sigmoid | Softmax \<Rightarrow> softmax_rows)
              (mat_of (rows x) (cols (getW t))
                 (\<lambda>r c. \<Sum>k\<leftarrow>[0..<cols x]. elem x r k * elem (getW t') k c))) 1"
    by (rule activation_cong, rule sum_list_cong_upt) (simp add: eq True)
  then show ?thesis
    using True sh ty by (simp add: feedForward_def mat_mul_def)
qed

lemma feed_loop_cong:
  assumes "list_all2 (\<lambda>t t'. ftype t = ftype t' \<and> rows (getW t) = rows (getW t') \<and>
              cols (getW t) = cols (getW t') \<and>
              (\<forall>k c. k < rows (getW t) \<longrightarrow> c + 1 < cols (getW t) \<longrightarrow>
                 elem (getW t) k c = elem (getW t') k c)) ts ts'"
  shows "feed_loop ts i outs = feed_loop ts' i outs"
  using assms
proof (induction ts ts' arbitrary: i outs rule: list_all2_induct)
  case Nil
  show ?case by simp
next
  case (Cons t ts t' ts')
  have f: "feedForward t (outs ! i) = feedForward t' (outs ! i)"
    by (rule feedForward_cong) (use Cons.hyps(1) in simp_all)
  show ?case
    by (simp add: f Cons.IH split: sum.splits)
qed

lemma DNN_feedForward_cong:
  assumes "list_all2 (\<lambda>t t'. ftype t = ftype t' \<and> rows (getW t) = rows (getW t') \<and>
              cols (getW t) = cols (getW t') \<and>
              (\<forall>k c. k < rows (getW t) \<longrightarrow> c + 1 < cols (getW t) \<longrightarrow>
                 elem (getW t) k c = elem (getW t') k c)) ts ts'"
  shows "DNN_feedForward ts x outs = DNN_feedForward ts' x outs"
  by (simp add: DNN_feedForward_def feed_loop_cong [OF assms])








lemma pred_size_t: "1 \<le> c \<Longrightarrow> c < 2 ^ 64 \<Longrightarrow> (c + 2 ^ 64 - 1) mod 2 ^ 64 = c - (1::nat)"
proof -
  assume c: "1 \<le> c" "c < 2 ^ 64"
  have "c + 2 ^ 64 - 1 = (c - 1) + 1 * 2 ^ 64" using c(1) by simp
  then have "(c + 2 ^ 64 - 1) mod 2 ^ 64 = (c - 1) mod 2 ^ 64"
    by (simp only: mod_mult_self1)
  then show ?thesis using c(2) by simp
qed














subsection \<open>Saving and reading a DNN\<close>

lemma read_floats_map:
  "read_floats ixs (map (\<lambda>ix. Flt (g ix)) ixs @ Word b # rest) w =
     Some (fold (\<lambda>ix w. w[ix := g ix]) ixs w, Word b # rest)"
  by (induction ixs arbitrary: w) simp_all

lemma read_floats_map':
  "read_floats ixs (map (\<lambda>ix. Flt (g ix)) ixs @ RBracket # rest) w =
     Some (fold (\<lambda>ix w. w[ix := g ix]) ixs w, RBracket # rest)"
  by (induction ixs arbitrary: w) simp_all

lemma fold_upd_length: "length (fold (\<lambda>ix w. w[ix := g ix]) ixs w) = length w"
  by (induction ixs arbitrary: w) simp_all

lemma fold_upd_nth:
  "i < length w \<Longrightarrow>
   fold (\<lambda>ix w. w[ix := g ix]) ixs w ! i = (if i \<in> set ixs then g i else w ! i)"
  by (induction ixs arbitrary: w) (auto simp: fold_upd_length nth_list_update)

lemma weight_indices:
  "set (concat (map (\<lambda>i. map (\<lambda>j. j * rs + i) [0..<cs]) [0..<rs - 1])) \<union>
   set (map (\<lambda>j. j * rs + rs - 1) [0..<cs]) = {ix. ix < rs * cs}" if "1 \<le> rs"
proof (intro set_eqI iffI)
  fix ix
  assume "ix \<in> set (concat (map (\<lambda>i. map (\<lambda>j. j * rs + i) [0..<cs]) [0..<rs - 1])) \<union>
   set (map (\<lambda>j. j * rs + rs - 1) [0..<cs])"
  then consider (w) i j where "ix = j * rs + i" "j < cs" "i < rs - 1"
    | (b) j where "ix = j * rs + rs - 1" "j < cs"
    by auto
  then obtain i j where "ix = j * rs + i" "j < cs" "i < rs"
  proof cases
    case w
    then show ?thesis using that by (intro that [of j i]) simp_all
  next
    case b
    then have "ix = j * rs + (rs - 1)" using \<open>1 \<le> rs\<close> by simp
    then show ?thesis using b \<open>1 \<le> rs\<close> by (intro that [of j "rs - 1"]) simp_all
  qed
  then show "ix \<in> {ix. ix < rs * cs}"
    using index_less [of i rs j cs] by simp
next
  fix ix assume "ix \<in> {ix. ix < rs * cs}"
  then have lt: "ix < rs * cs" by simp
  then have j: "ix div rs < cs" by (rule div_less_mult)
  have i: "ix mod rs < rs" using lt by (rule mod_less_mult)
  have e: "ix = (ix div rs) * rs + ix mod rs" by simp
  show "ix \<in> set (concat (map (\<lambda>i. map (\<lambda>j. j * rs + i) [0..<cs]) [0..<rs - 1])) \<union>
   set (map (\<lambda>j. j * rs + rs - 1) [0..<cs])"
  proof (cases "ix mod rs < rs - 1")
    case True
    then have "ix \<in> set (concat (map (\<lambda>i. map (\<lambda>j. j * rs + i) [0..<cs]) [0..<rs - 1]))"
      using j e by (auto intro!: bexI [of _ "ix mod rs"] image_eqI [of _ _ "ix div rs"])
    then show ?thesis by simp
  next
    case False
    with i have "ix mod rs = rs - 1" by simp
    then have "ix = (ix div rs) * rs + rs - 1" using e that
      by (metis Nat.add_diff_assoc)
    then have "ix \<in> set (map (\<lambda>j. j * rs + rs - 1) [0..<cs])"
      using j by (auto intro!: image_eqI [of _ _ "ix div rs"])
    then show ?thesis by simp
  qed
qed

lemma readweight_saved:
  assumes rs: "1 \<le> rs" and len: "length w0 = rs * (cs + 1)"
  shows "readweight
      (concat (map (\<lambda>j. map (\<lambda>k. Flt (fmt (dat ! (k * rs + j)))) [0..<cs]) [0..<rs - 1])
       @ [RBracket, Word ''<bias>'', LBracket]
       @ map (\<lambda>j. Flt (fmt (dat ! (j * rs + rs - 1)))) [0..<cs]
       @ [RBracket] @ rest) w0 rs cs =
     Some (map (\<lambda>i. if i < rs * cs then fmt (dat ! i) else w0 ! i) [0..<rs * (cs + 1)], rest)"
proof -
  let ?g = "\<lambda>ix. fmt (dat ! ix)"
  let ?ixs1 = "concat (map (\<lambda>i. map (\<lambda>j. j * rs + i) [0..<cs]) [0..<rs - 1])"
  let ?ixs2 = "map (\<lambda>j. j * rs + rs - 1) [0..<cs]"
  let ?w1 = "fold (\<lambda>ix w. w[ix := ?g ix]) ?ixs1 w0"
  let ?w2 = "fold (\<lambda>ix w. w[ix := ?g ix]) ?ixs2 ?w1"
  have f1: "concat (map (\<lambda>j. map (\<lambda>k. Flt (fmt (dat ! (k * rs + j)))) [0..<cs]) [0..<rs - 1]) =
      map (\<lambda>ix. Flt (?g ix)) ?ixs1"
    by (simp add: map_concat comp_def)
  have f2: "map (\<lambda>j. Flt (fmt (dat ! (j * rs + rs - 1)))) [0..<cs] = map (\<lambda>ix. Flt (?g ix)) ?ixs2"
    by (simp add: comp_def)
  have r1: "read_floats ?ixs1
      (map (\<lambda>ix. Flt (?g ix)) ?ixs1 @ RBracket # Word ''<bias>'' # LBracket #
         map (\<lambda>ix. Flt (?g ix)) ?ixs2 @ RBracket # rest) w0 =
      Some (?w1, RBracket # Word ''<bias>'' # LBracket #
         map (\<lambda>ix. Flt (?g ix)) ?ixs2 @ RBracket # rest)"
    by (rule read_floats_map')
  have r2: "read_floats ?ixs2 (map (\<lambda>ix. Flt (?g ix)) ?ixs2 @ RBracket # rest) ?w1 =
      Some (?w2, RBracket # rest)"
    by (rule read_floats_map')
  have rw: "readweight
      (map (\<lambda>ix. Flt (?g ix)) ?ixs1 @ RBracket # Word ''<bias>'' # LBracket #
         map (\<lambda>ix. Flt (?g ix)) ?ixs2 @ RBracket # rest) w0 rs cs = Some (?w2, rest)"
    unfolding readweight_def
    by (simp only: r1 r2 option.case prod.case list.case item.case refl if_True)
  have l2: "length ?w2 = rs * (cs + 1)"
    by (simp only: fold_upd_length len)
  have w2: "?w2 = map (\<lambda>i. if i < rs * cs then fmt (dat ! i) else w0 ! i) [0..<rs * (cs + 1)]"
  proof (rule nth_equalityI)
    show "length ?w2 = length (map (\<lambda>i. if i < rs * cs then fmt (dat ! i) else w0 ! i) [0..<rs * (cs + 1)])"
      using l2 by simp
  next
    fix i assume "i < length ?w2"
    then have i: "i < rs * (cs + 1)" using l2 by simp
    then have i1: "i < length ?w1" by (simp only: fold_upd_length len)
    have i0: "i < length w0" using i len by simp
    have "?w2 ! i = (if i \<in> set ?ixs2 then ?g i else ?w1 ! i)"
      using fold_upd_nth [OF i1, of ?g ?ixs2] .
    also have "?w1 ! i = (if i \<in> set ?ixs1 then ?g i else w0 ! i)"
      using fold_upd_nth [OF i0, of ?g ?ixs1] .
    finally have "?w2 ! i = (if i \<in> set ?ixs1 \<union> set ?ixs2 then ?g i else w0 ! i)"
      by auto
    also have "set ?ixs1 \<union> set ?ixs2 = {ix. ix < rs * cs}"
      by (rule weight_indices [OF rs])
    finally show "?w2 ! i = map (\<lambda>i. if i < rs * cs then fmt (dat ! i) else w0 ! i) [0..<rs * (cs + 1)] ! i"
      using i by simp
  qed
  show ?thesis
    using rw by (simp only: f1 f2 w2 append_Cons append_Nil)
qed

lemma read_loop_saved_layer:
  assumes rs: "1 \<le> rows (getW t)" and cs: "1 \<le> cols (getW t)"
  shows "read_loop junk n (layer_items fmt t @ rest) ts =
     read_loop junk (n + 1) rest
       (ts @ [new_FeatureTransform (ftype t) (reread fmt (junk n) (getW t))])"
proof -
  define rs' where "rs' = rows (getW t)"
  define cs' where "cs' = cols (getW t) - 1"
  define dat where "dat = data (getW t)"
  define body where "body =
    concat (map (\<lambda>j. map (\<lambda>k. Flt (fmt (dat ! (k * rs' + j)))) [0..<cs']) [0..<rs' - 1])
       @ [RBracket, Word ''<bias>'', LBracket]
       @ map (\<lambda>j. Flt (fmt (dat ! (j * rs' + rs' - 1)))) [0..<cs']
       @ [RBracket] @ rest"
  define hw where "hw = map (junk n) [0..<rs' * (cs' + 1)]"
  have sz: "rs' - 1 + 1 = rs'" using rs by (simp add: rs'_def)
  have cw: "cs' + 1 = cols (getW t)" using cs by (simp add: cs'_def)
  have sv: "layer_items fmt t @ rest =
      Word (''<'' @ toString (ftype t) @ ''>'') # Num (rs' - 1) # Num cs' # LBracket # body"
    by (simp add: layer_items_def Let_def body_def rs'_def cs'_def dat_def)
  have len: "length hw = rs' * (cs' + 1)" by (simp add: hw_def)
  have rs1: "1 \<le> rs'" using rs by (simp add: rs'_def)
  have rw: "readweight body hw rs' cs' =
      Some (map (\<lambda>i. if i < rs' * cs' then fmt (dat ! i) else hw ! i) [0..<rs' * (cs' + 1)], rest)"
    unfolding body_def by (rule readweight_saved [OF rs1 len])
  have dat: "map (\<lambda>i. if i < rs' * cs' then fmt (dat ! i) else hw ! i) [0..<rs' * (cs' + 1)] =
      map (\<lambda>i. if i < rs' * cs' then fmt (dat ! i) else junk n i) [0..<rs' * (cs' + 1)]"
    by (rule map_cong [OF refl]) (simp add: hw_def)
  have w: "\<lparr>rows = rs', cols = cs' + 1,
        data = map (\<lambda>i. if i < rs' * cs' then fmt (dat ! i) else hw ! i) [0..<rs' * (cs' + 1)]\<rparr> =
      reread fmt (junk n) (getW t)"
    unfolding dat unfolding reread_def cw unfolding rs'_def cs'_def dat_def by (rule refl)
  have step: "read_loop junk n
       (Word (''<'' @ toString (ftype t) @ ''>'') # Num (rs' - 1) # Num cs' # LBracket # body) ts =
     read_loop junk (n + 1) rest
       (if ''<'' @ toString (ftype t) @ ''>'' = ''<sigmoid>''
        then ts @ [new_FeatureTransform Sigmoid (reread fmt (junk n) (getW t))]
        else if ''<'' @ toString (ftype t) @ ''>'' = ''<softmax>''
        then ts @ [new_FeatureTransform Softmax (reread fmt (junk n) (getW t))]
        else ts)"
    apply (subst read_loop.simps)
    apply (simp only: list.case item.case Let_def sz)
    apply (simp only: hw_def [symmetric] rw option.case prod.case w)
    done
  show ?thesis
    unfolding sv step by (cases "ftype t") simp_all
qed

lemma read_loop_Nil: "read_loop junk n [] ts = Some ts"
  by (subst read_loop.simps) simp

lemma read_loop_saved:
  assumes "\<forall>t\<in>set ds. 1 \<le> rows (getW t) \<and> 1 \<le> cols (getW t)"
  shows "read_loop junk n (concat (map (layer_items fmt) ds)) ts =
     Some (ts @ map (\<lambda>(i, t). new_FeatureTransform (ftype t) (reread fmt (junk i) (getW t)))
                  (enumerate n ds))"
  using assms
proof (induction ds arbitrary: n ts)
  case Nil
  show ?case by (simp add: read_loop_Nil)
next
  case (Cons d ds)
  have sv: "concat (map (layer_items fmt) (d # ds)) =
      layer_items fmt d @ concat (map (layer_items fmt) ds)"
    by simp
  from Cons.prems have d: "1 \<le> rows (getW d)" "1 \<le> cols (getW d)"
    and ds: "\<forall>t\<in>set ds. 1 \<le> rows (getW t) \<and> 1 \<le> cols (getW t)"
    by simp_all
  show ?case
    unfolding sv read_loop_saved_layer [OF d]
    by (simp add: Cons.IH [OF ds])
qed

lemma elem_reread:
  assumes "r < rows w" "c + 1 < cols w"
  shows "elem (reread fmt jnk w) r c = fmt (elem w r c)"
proof -
  from assms have c: "c < cols w - 1" by simp
  have i1: "c * rows w + r < rows w * (cols w - 1)"
    using index_less [OF assms(1) c] .
  have "cols w - 1 \<le> cols w" by simp
  then have "rows w * (cols w - 1) \<le> rows w * cols w" by (rule mult_le_mono2)
  with i1 have i2: "c * rows w + r < rows w * cols w" by (rule less_le_trans)
  show ?thesis
    using i1 i2 by (simp add: elem_def reread_def)
qed

lemma elem_reread_last:
  assumes "r < rows w" "1 \<le> cols w"
  shows "elem (reread fmt jnk w) r (cols w - 1) = jnk ((cols w - 1) * rows w + r)"
proof -
  have i2: "(cols w - 1) * rows w + r < rows w * cols w"
    using index_less [OF assms(1), of "cols w - 1" "cols w"] assms(2) by simp
  have i1: "\<not> (cols w - 1) * rows w + r < rows w * (cols w - 1)"
    by (simp add: mult.commute)
  show ?thesis
    using i1 i2 by (simp add: elem_def reread_def)
qed

lemma DNN_read_saved:
  assumes "\<forall>t\<in>set ds. 1 \<le> rows (getW t) \<and> 1 \<le> cols (getW t)"
  shows "DNN_read junk (concat (map (layer_items fmt) ds)) =
     Some (map (\<lambda>(i, t). new_FeatureTransform (ftype t) (reread fmt (junk i) (getW t)))
             (enumerate 0 ds))"
  using read_loop_saved [OF assms, of junk 0 fmt "[]"] by (simp add: DNN_read_def)

lemma save_layer_Inr:
  assumes wf: "wf_mat (getW t)" and rs: "1 \<le> rows (getW t)" and cs: "1 \<le> cols (getW t)"
    and sz: "rows (getW t) * cols (getW t) < 2 ^ 64"
  shows "save_layer fmt t = Inr (layer_items fmt t)"
proof -
  define R where "R = rows (getW t)"
  define C where "C = cols (getW t) - 1"
  define dat where "dat = data (getW t)"
  have R1: "1 \<le> R" using rs by (simp add: R_def)
  have C1: "C + 1 = cols (getW t)" using cs by (simp add: C_def)
  have len: "length dat = R * (C + 1)"
    unfolding C1 using wf by (simp add: wf_mat_def dat_def R_def)
  have big: "R * (C + 1) < 2 ^ 64"
    unfolding C1 using sz by (simp add: R_def)
  have cb: "cols (getW t) < 2 ^ 64"
  proof -
    have "cols (getW t) * 1 \<le> cols (getW t) * rows (getW t)" using rs by (rule mult_le_mono2)
    then have "cols (getW t) \<le> rows (getW t) * cols (getW t)" by (simp only: mult_1_right mult.commute)
    then show ?thesis using sz by (rule le_less_trans)
  qed
  have rb: "R < 2 ^ 64"
  proof -
    have "R * 1 \<le> R * (C + 1)" by (rule mult_le_mono2) simp
    then have "R \<le> R * (C + 1)" by (simp only: mult_1_right)
    then show ?thesis using big by (rule le_less_trans)
  qed
  have pc: "(cols (getW t) + 2 ^ 64 - 1) mod 2 ^ 64 = C"
    unfolding C_def using cs cb by (rule pred_size_t)
  have pr: "(R + 2 ^ 64 - 1) mod 2 ^ 64 = R - 1"
    using R1 rb by (rule pred_size_t)
  have inr: "\<And>j k. j < R \<Longrightarrow> k < C \<Longrightarrow> k * R + j < R * (C + 1)"
  proof -
    fix j k assume "j < R" "k < C"
    then have "k * R + j < R * C" by (rule index_less)
    also have "\<dots> \<le> R * (C + 1)" by simp
    finally show "k * R + j < R * (C + 1)" .
  qed
  have w1: "\<And>j k. j < R - 1 \<Longrightarrow> k < C \<Longrightarrow> (k * R + j) mod 2 ^ 64 = k * R + j"
  proof -
    fix j k assume j: "j < R - 1" and k: "k < C"
    from j have "j < R" by simp
    from inr [OF this k] big show "(k * R + j) mod 2 ^ 64 = k * R + j" by simp
  qed
  have b1: "\<And>j. j < C \<Longrightarrow> (j * R + R + 2 ^ 64 - 1) mod 2 ^ 64 = j * R + R - 1"
  proof -
    fix j assume j: "j < C"
    have "j * R + (R - 1) < R * (C + 1)" using R1 by (intro inr [OF _ j]) simp
    then have "j * R + R - 1 < R * (C + 1)" using R1 by simp
    then have lt: "j * R + R < 2 ^ 64" using big R1 by simp
    have ge: "1 \<le> j * R + R" using R1 by simp
    show "(j * R + R + 2 ^ 64 - 1) mod 2 ^ 64 = j * R + R - 1"
      using ge lt by (rule pred_size_t)
  qed
  have wix: "concat (map (\<lambda>j. map (\<lambda>k. (k * R + j) mod 2 ^ 64) [0..<C]) [0..<R - 1]) =
      concat (map (\<lambda>j. map (\<lambda>k. k * R + j) [0..<C]) [0..<R - 1])"
  proof (rule arg_cong [where f = concat], rule map_cong [OF refl], rule map_cong [OF refl])
    fix j k assume "j \<in> set [0..<R - 1]" "k \<in> set [0..<C]"
    then have "j < R - 1" "k < C" by simp_all
    then show "(k * R + j) mod 2 ^ 64 = k * R + j" by (rule w1)
  qed
  have bix: "map (\<lambda>j. (j * R + R + 2 ^ 64 - 1) mod 2 ^ 64) [0..<C] =
      map (\<lambda>j. j * R + R - 1) [0..<C]"
  proof (rule map_cong [OF refl])
    fix j assume "j \<in> set [0..<C]"
    then have "j < C" by simp
    then show "(j * R + R + 2 ^ 64 - 1) mod 2 ^ 64 = j * R + R - 1" by (rule b1)
  qed
  have ok: "list_all (\<lambda>ix. ix < length dat)
      (concat (map (\<lambda>j. map (\<lambda>k. k * R + j) [0..<C]) [0..<R - 1]) @
       map (\<lambda>j. j * R + R - 1) [0..<C])"
  proof -
    have "set (concat (map (\<lambda>j. map (\<lambda>k. k * R + j) [0..<C]) [0..<R - 1]) @
       map (\<lambda>j. j * R + R - 1) [0..<C]) = {ix. ix < R * C}"
      using weight_indices [OF R1, of C] by simp
    moreover have "R * C \<le> length dat" by (simp add: len)
    ultimately show ?thesis by (auto simp: list_all_iff)
  qed
  have f1: "map (\<lambda>ix. Flt (fmt (dat ! ix)))
        (concat (map (\<lambda>j. map (\<lambda>k. k * R + j) [0..<C]) [0..<R - 1])) =
      concat (map (\<lambda>j. map (\<lambda>k. Flt (fmt (dat ! (k * R + j)))) [0..<C]) [0..<R - 1])"
    by (simp add: map_concat comp_def)
  have f2: "map (\<lambda>ix. Flt (fmt (dat ! ix))) (map (\<lambda>j. j * R + R - 1) [0..<C]) =
      map (\<lambda>j. Flt (fmt (dat ! (j * R + R - 1)))) [0..<C]"
    by (simp add: comp_def)
  show ?thesis
    unfolding save_layer_def layer_items_def Let_def
    unfolding R_def [symmetric] dat_def [symmetric] pc pr wix bix
    unfolding C_def [symmetric]
    using ok by (simp only: if_True f1 f2)
qed

lemma DNN_save_Inr:
  assumes ne: "ds \<noteq> []"
    and ok: "\<forall>t\<in>set ds. wf_mat (getW t) \<and> 1 \<le> rows (getW t) \<and> 1 \<le> cols (getW t) \<and>
               rows (getW t) * cols (getW t) < 2 ^ 64"
  shows "DNN_save fmt ds =
     Inr (concat (map (layer_items fmt) ds),
          map (\<lambda>t. rows (getW t)) ds @ [cols (getW (last ds))])"
proof -
  have "map (save_layer fmt) ds = map (\<lambda>t. Inr (layer_items fmt t)) ds"
    by (rule map_cong [OF refl]) (use ok in \<open>simp add: save_layer_Inr\<close>)
  then have "collect (map (save_layer fmt) ds) = Inr (map (layer_items fmt) ds)"
    by (simp only: collect_map_Inr)
  then show ?thesis
    using ne by (simp add: DNN_save_def)
qed

lemma elem_mat_map:
  assumes "wf_mat w" "r < rows w" "c < cols w"
  shows "elem (mat_map f w) r c = f (elem w r c)"
proof -
  have "c * rows w + r < rows w * cols w" using assms(2,3) by (rule index_less)
  then show ?thesis using assms(1) by (simp add: elem_def mat_map_def wf_mat_def)
qed

lemma reread_forward:
  assumes "\<forall>t\<in>set ds. wf_mat (getW t)"
  shows "DNN_feedForward
           (map (\<lambda>(i, t). new_FeatureTransform (ftype t) (reread fmt (junk i) (getW t)))
              (enumerate 0 ds)) x outs =
         DNN_feedForward (map (printed_weights fmt) ds) x outs"
proof (rule DNN_feedForward_cong, unfold list_all2_conv_all_nth, intro conjI allI impI)
  show "length (map (\<lambda>(i, t). new_FeatureTransform (ftype t) (reread fmt (junk i) (getW t)))
              (enumerate 0 ds)) = length (map (printed_weights fmt) ds)"
    by simp
next
  fix i
  assume "i < length (map (\<lambda>(i, t). new_FeatureTransform (ftype t) (reread fmt (junk i) (getW t)))
              (enumerate 0 ds))"
  then have i: "i < length ds" by simp
  then have wf: "wf_mat (getW (ds ! i))" using assms by simp
  have a: "map (\<lambda>(i, t). new_FeatureTransform (ftype t) (reread fmt (junk i) (getW t)))
              (enumerate 0 ds) ! i =
      new_FeatureTransform (ftype (ds ! i)) (reread fmt (junk i) (getW (ds ! i)))"
    using i by (simp add: nth_enumerate_eq)
  have b: "map (printed_weights fmt) ds ! i = printed_weights fmt (ds ! i)"
    using i by simp
  show "ftype (map (\<lambda>(i, t). new_FeatureTransform (ftype t) (reread fmt (junk i) (getW t)))
              (enumerate 0 ds) ! i) = ftype (map (printed_weights fmt) ds ! i)"
    unfolding a b by (simp add: new_FeatureTransform_def printed_weights_def)
  show "rows (getW (map (\<lambda>(i, t). new_FeatureTransform (ftype t) (reread fmt (junk i) (getW t)))
              (enumerate 0 ds) ! i)) = rows (getW (map (printed_weights fmt) ds ! i))"
    unfolding a b
    by (simp add: new_FeatureTransform_def printed_weights_def reread_def mat_map_def)
  show "cols (getW (map (\<lambda>(i, t). new_FeatureTransform (ftype t) (reread fmt (junk i) (getW t)))
              (enumerate 0 ds) ! i)) = cols (getW (map (printed_weights fmt) ds ! i))"
    unfolding a b
    by (simp add: new_FeatureTransform_def printed_weights_def reread_def mat_map_def)
  fix k c
  assume "k < rows (getW (map (\<lambda>(i, t). new_FeatureTransform (ftype t)
              (reread fmt (junk i) (getW t))) (enumerate 0 ds) ! i))"
    and "c + 1 < cols (getW (map (\<lambda>(i, t). new_FeatureTransform (ftype t)
              (reread fmt (junk i) (getW t))) (enumerate 0 ds) ! i))"
  then have k: "k < rows (getW (ds ! i))" and c: "c + 1 < cols (getW (ds ! i))"
    unfolding a by (simp_all add: new_FeatureTransform_def reread_def)
  from c have c': "c < cols (getW (ds ! i))" by simp
  have e1: "elem (reread fmt (junk i) (getW (ds ! i))) k c = fmt (elem (getW (ds ! i)) k c)"
    using k c by (rule elem_reread)
  have e2: "elem (mat_map fmt (getW (ds ! i))) k c = fmt (elem (getW (ds ! i)) k c)"
    using wf k c' by (rule elem_mat_map)
  show "elem (getW (map (\<lambda>(i, t). new_FeatureTransform (ftype t) (reread fmt (junk i) (getW t)))
              (enumerate 0 ds) ! i)) k c = elem (getW (map (printed_weights fmt) ds ! i)) k c"
    unfolding a b
    by (simp add: new_FeatureTransform_def printed_weights_def e1 e2)
qed

text \<open>
  C6 (as amended). For a DNN with at least one layer, whose weight matrices have at least
  one row and one column, \<^verbatim>\<open>save\<close> returns normally, and \<^verbatim>\<open>read\<close> of the file returns as
  many layers, of the same types and with weight matrices of the same shape. In every
  column but the last, the bias row included, an entry comes back as the number its printed
  text denotes. The last column is not written by \<^verbatim>\<open>save\<close>, and \<^verbatim>\<open>read\<close> leaves there what
  the array it allocated held. The forward pass does not look at that column: on every
  input the model read back gives the output of the original with its weights replaced by
  the numbers printed.
\<close>

theorem save_then_read:
  assumes "ds \<noteq> []"
    and "\<forall>t\<in>set ds. wf_mat (getW t) \<and> 1 \<le> rows (getW t) \<and> 1 \<le> cols (getW t) \<and>
           rows (getW t) * cols (getW t) < 2 ^ 64"
  shows "\<exists>items printed ds'.
     DNN_save fmt ds = Inr (items, printed) \<and>
     DNN_read junk items = Some ds' \<and> length ds' = length ds \<and>
     (\<forall>i. i < length ds \<longrightarrow>
        ftype (ds' ! i) = ftype (ds ! i) \<and>
        rows (getW (ds' ! i)) = rows (getW (ds ! i)) \<and>
        cols (getW (ds' ! i)) = cols (getW (ds ! i)) \<and>
        (\<forall>r c. r < rows (getW (ds ! i)) \<longrightarrow> c + 1 < cols (getW (ds ! i)) \<longrightarrow>
           elem (getW (ds' ! i)) r c = fmt (elem (getW (ds ! i)) r c)) \<and>
        (\<forall>r. r < rows (getW (ds ! i)) \<longrightarrow>
           elem (getW (ds' ! i)) r (cols (getW (ds ! i)) - 1) =
             junk i ((cols (getW (ds ! i)) - 1) * rows (getW (ds ! i)) + r))) \<and>
     (\<forall>x outs. DNN_feedForward ds' x outs =
                DNN_feedForward (map (printed_weights fmt) ds) x outs)"
proof -
  let ?ds' = "map (\<lambda>(i, t). new_FeatureTransform (ftype t) (reread fmt (junk i) (getW t)))
             (enumerate 0 ds)"
  let ?file = "concat (map (layer_items fmt) ds)"
  let ?printed = "map (\<lambda>t. rows (getW t)) ds @ [cols (getW (last ds))]"
  have a1: "\<forall>t\<in>set ds. 1 \<le> rows (getW t) \<and> 1 \<le> cols (getW t)"
    using assms(2) by blast
  have a2: "\<forall>t\<in>set ds. wf_mat (getW t)"
    using assms(2) by blast
  have s: "DNN_save fmt ds = Inr (?file, ?printed)"
    by (rule DNN_save_Inr [OF assms])
  have r: "DNN_read junk ?file = Some ?ds'"
    by (rule DNN_read_saved [OF a1])
  have l: "length ?ds' = length ds" by simp
  have n: "\<And>i. i < length ds \<Longrightarrow>
      ?ds' ! i = new_FeatureTransform (ftype (ds ! i)) (reread fmt (junk i) (getW (ds ! i)))"
    by (simp add: nth_enumerate_eq)
  have p: "\<forall>i. i < length ds \<longrightarrow>
        ftype (?ds' ! i) = ftype (ds ! i) \<and>
        rows (getW (?ds' ! i)) = rows (getW (ds ! i)) \<and>
        cols (getW (?ds' ! i)) = cols (getW (ds ! i)) \<and>
        (\<forall>r c. r < rows (getW (ds ! i)) \<longrightarrow> c + 1 < cols (getW (ds ! i)) \<longrightarrow>
           elem (getW (?ds' ! i)) r c = fmt (elem (getW (ds ! i)) r c)) \<and>
        (\<forall>r. r < rows (getW (ds ! i)) \<longrightarrow>
           elem (getW (?ds' ! i)) r (cols (getW (ds ! i)) - 1) =
             junk i ((cols (getW (ds ! i)) - 1) * rows (getW (ds ! i)) + r))"
  proof (intro allI impI)
    fix i assume i: "i < length ds"
    then have "ds ! i \<in> set ds" by simp
    with a1 have c1: "1 \<le> cols (getW (ds ! i))" by blast
    have g: "getW (?ds' ! i) = reread fmt (junk i) (getW (ds ! i))"
      and f: "ftype (?ds' ! i) = ftype (ds ! i)"
      unfolding n [OF i] by (simp_all add: new_FeatureTransform_def)
    show "ftype (?ds' ! i) = ftype (ds ! i) \<and>
        rows (getW (?ds' ! i)) = rows (getW (ds ! i)) \<and>
        cols (getW (?ds' ! i)) = cols (getW (ds ! i)) \<and>
        (\<forall>r c. r < rows (getW (ds ! i)) \<longrightarrow> c + 1 < cols (getW (ds ! i)) \<longrightarrow>
           elem (getW (?ds' ! i)) r c = fmt (elem (getW (ds ! i)) r c)) \<and>
        (\<forall>r. r < rows (getW (ds ! i)) \<longrightarrow>
           elem (getW (?ds' ! i)) r (cols (getW (ds ! i)) - 1) =
             junk i ((cols (getW (ds ! i)) - 1) * rows (getW (ds ! i)) + r))"
    proof (intro conjI allI impI)
      show "ftype (?ds' ! i) = ftype (ds ! i)" by (rule f)
      show "rows (getW (?ds' ! i)) = rows (getW (ds ! i))"
        unfolding g by (simp add: reread_def)
      show "cols (getW (?ds' ! i)) = cols (getW (ds ! i))"
        unfolding g by (simp add: reread_def)
    next
      fix r c assume "r < rows (getW (ds ! i))" "c + 1 < cols (getW (ds ! i))"
      then show "elem (getW (?ds' ! i)) r c = fmt (elem (getW (ds ! i)) r c)"
        unfolding g by (rule elem_reread)
    next
      fix r assume "r < rows (getW (ds ! i))"
      then show "elem (getW (?ds' ! i)) r (cols (getW (ds ! i)) - 1) =
             junk i ((cols (getW (ds ! i)) - 1) * rows (getW (ds ! i)) + r)"
        unfolding g using c1 by (rule elem_reread_last)
    qed
  qed
  have fw: "\<forall>x outs. DNN_feedForward ?ds' x outs =
                DNN_feedForward (map (printed_weights fmt) ds) x outs"
    by (intro allI reread_forward [OF a2])
  show ?thesis
    apply (rule exI [of _ ?file], rule exI [of _ ?printed], rule exI [of _ ?ds'])
    using s r l p fw by (intro conjI)
qed

theorem save_then_read_witness:
  "\<exists>items printed ds'.
     DNN_save exact_fmt example_saved = Inr (items, printed) \<and>
     DNN_read zero_junk items = Some ds' \<and>
     length ds' = 1 \<and> ftype (ds' ! 0) = Sigmoid \<and>
     rows (getW (ds' ! 0)) = 2 \<and> cols (getW (ds' ! 0)) = 2 \<and>
     elem (getW (ds' ! 0)) 0 0 = 1 \<and> elem (getW (ds' ! 0)) 1 0 = 2 \<and>
     elem (getW (ds' ! 0)) 0 1 = 0 \<and> elem (getW (ds' ! 0)) 1 1 = 0 \<and>
     DNN_feedForward ds' \<lparr>rows = 1, cols = 2, data = [5, 1]\<rparr> [zeros 0 0, zeros 0 0] =
       DNN_feedForward example_saved \<lparr>rows = 1, cols = 2, data = [5, 1]\<rparr> [zeros 0 0, zeros 0 0]"
proof -
  have ne: "example_saved \<noteq> []" by (simp add: example_saved_def)
  have a: "\<forall>t\<in>set example_saved. wf_mat (getW t) \<and> 1 \<le> rows (getW t) \<and>
      1 \<le> cols (getW t) \<and> rows (getW t) * cols (getW t) < 2 ^ 64"
    by (simp add: example_saved_def wf_mat_def)
  from save_then_read [OF ne a, of exact_fmt zero_junk] obtain items printed ds' where
    s: "DNN_save exact_fmt example_saved = Inr (items, printed)" and
    r: "DNN_read zero_junk items = Some ds'" and
    l: "length ds' = length example_saved" and
    p: "\<And>i. i < length example_saved \<Longrightarrow>
        ftype (ds' ! i) = ftype (example_saved ! i) \<and>
        rows (getW (ds' ! i)) = rows (getW (example_saved ! i)) \<and>
        cols (getW (ds' ! i)) = cols (getW (example_saved ! i)) \<and>
        (\<forall>r c. r < rows (getW (example_saved ! i)) \<longrightarrow> c + 1 < cols (getW (example_saved ! i)) \<longrightarrow>
           elem (getW (ds' ! i)) r c = exact_fmt (elem (getW (example_saved ! i)) r c)) \<and>
        (\<forall>r. r < rows (getW (example_saved ! i)) \<longrightarrow>
           elem (getW (ds' ! i)) r (cols (getW (example_saved ! i)) - 1) =
             zero_junk i ((cols (getW (example_saved ! i)) - 1) * rows (getW (example_saved ! i)) + r))" and
    f: "\<And>x outs. DNN_feedForward ds' x outs =
          DNN_feedForward (map (printed_weights exact_fmt) example_saved) x outs"
    by blast
  have w: "getW (example_saved ! 0) = \<lparr>rows = 2, cols = 2, data = [1, 2, 3, 4]\<rparr>"
    "ftype (example_saved ! 0) = Sigmoid" "length example_saved = 1"
    by (simp_all add: example_saved_def)
  have i0: "0 < length example_saved" by (simp add: example_saved_def)
  note p0 = p [OF i0, unfolded w]
  have q1: "ftype (ds' ! 0) = Sigmoid" using p0 by simp
  have q2: "rows (getW (ds' ! 0)) = 2" using p0 by simp
  have q3: "cols (getW (ds' ! 0)) = 2" using p0 by simp
  have q4: "\<forall>r c. r < rows \<lparr>rows = 2, cols = 2, data = [1, 2, 3, 4::real]\<rparr> \<longrightarrow>
        c + 1 < cols \<lparr>rows = 2, cols = 2, data = [1, 2, 3, 4::real]\<rparr> \<longrightarrow>
        elem (getW (ds' ! 0)) r c =
          exact_fmt (elem \<lparr>rows = 2, cols = 2, data = [1, 2, 3, 4]\<rparr> r c)"
    by (rule conjunct1 [OF conjunct2 [OF conjunct2 [OF conjunct2 [OF p0]]]])
  have q5: "\<forall>r. r < rows \<lparr>rows = 2, cols = 2, data = [1, 2, 3, 4::real]\<rparr> \<longrightarrow>
        elem (getW (ds' ! 0)) r (cols \<lparr>rows = 2, cols = 2, data = [1, 2, 3, 4::real]\<rparr> - 1) =
          zero_junk 0 ((cols \<lparr>rows = 2, cols = 2, data = [1, 2, 3, 4::real]\<rparr> - 1) *
             rows \<lparr>rows = 2, cols = 2, data = [1, 2, 3, 4::real]\<rparr> + r)"
    by (rule conjunct2 [OF conjunct2 [OF conjunct2 [OF conjunct2 [OF p0]]]])
  have e00: "elem (getW (ds' ! 0)) 0 0 = 1"
    using q4 [rule_format, of 0 0] by (simp add: exact_fmt_def elem_def)
  have e10: "elem (getW (ds' ! 0)) 1 0 = 2"
    using q4 [rule_format, of 1 0] by (simp add: exact_fmt_def elem_def)
  have e01: "elem (getW (ds' ! 0)) 0 1 = 0"
    using q5 [rule_format, of 0] by (simp add: zero_junk_def)
  have e11: "elem (getW (ds' ! 0)) 1 1 = 0"
    using q5 [rule_format, of 1] by (simp add: zero_junk_def)
  have id: "map (printed_weights exact_fmt) example_saved = example_saved"
    by (simp add: example_saved_def printed_weights_def mat_map_def exact_fmt_def)
  have fw: "DNN_feedForward ds' \<lparr>rows = 1, cols = 2, data = [5, 1]\<rparr> [zeros 0 0, zeros 0 0] =
       DNN_feedForward example_saved \<lparr>rows = 1, cols = 2, data = [5, 1]\<rparr> [zeros 0 0, zeros 0 0]"
    unfolding f id by (rule refl)
  have l1: "length ds' = 1" using l w(3) by simp
  show ?thesis
    using s r l1 q1 q2 q3 e00 e10 e01 e11 fw by blast
qed

lemma example_file:
  "DNN_save exact_fmt example_saved =
     Inr ([Word ''<sigmoid>'', Num 1, Num 1, LBracket, Flt 1, RBracket,
           Word ''<bias>'', LBracket, Flt 2, RBracket], [2, 2])"
proof -
  have ne: "example_saved \<noteq> []" by (simp add: example_saved_def)
  have ok: "\<forall>t\<in>set example_saved. wf_mat (getW t) \<and> 1 \<le> rows (getW t) \<and>
      1 \<le> cols (getW t) \<and> rows (getW t) * cols (getW t) < 2 ^ 64"
    by (simp add: example_saved_def wf_mat_def)
  show ?thesis
    unfolding DNN_save_Inr [OF ne ok]
    by (simp add: example_saved_def layer_items_def exact_fmt_def upt1 del: One_nat_def)
qed

lemma example_read:
  "DNN_read zero_junk
     [Word ''<sigmoid>'', Num 1, Num 1, LBracket, Flt 1, RBracket,
      Word ''<bias>'', LBracket, Flt 2, RBracket] =
   Some [\<lparr>ftype = Sigmoid, getW = \<lparr>rows = 2, cols = 2, data = [1, 2, 0, 0]\<rparr>,
          getDw = zeros 2 2\<rparr>]"
proof -
  have a: "\<forall>t\<in>set example_saved. 1 \<le> rows (getW t) \<and> 1 \<le> cols (getW t)"
    by (simp add: example_saved_def)
  have u: "[0..<4] = [0, 1, 2, 3]" by code_simp
  have f: "concat (map (layer_items exact_fmt) example_saved) =
      [Word ''<sigmoid>'', Num 1, Num 1, LBracket, Flt 1, RBracket,
       Word ''<bias>'', LBracket, Flt 2, RBracket]"
    by (simp add: example_saved_def layer_items_def exact_fmt_def upt1 del: One_nat_def)
  have "reread exact_fmt (zero_junk 0) \<lparr>rows = 2, cols = 2, data = [1, 2, 3, 4]\<rparr> =
      \<lparr>rows = 2, cols = 2, data = [1, 2, 0, 0]\<rparr>"
    by (simp add: reread_def u exact_fmt_def zero_junk_def)
  then show ?thesis
    using DNN_read_saved [OF a, of zero_junk exact_fmt]
    unfolding f
    by (simp add: example_saved_def new_FeatureTransform_def enumerate_eq_zip)
qed

text \<open>
  A layer with the 2 by 2 weight matrix of the entries 1, 2 (first column) and 3, 4 (last
  column), saved with exact printing and read into arrays that hold zeros: the matrix that
  comes back has the last column 0, 0 and is not the original one. And a DNN without
  layers is not saved at all: \<^verbatim>\<open>save\<close> takes the last element of an empty vector.
\<close>

theorem save_then_read_counterexample:
  "DNN_save exact_fmt example_saved =
     Inr ([Word ''<sigmoid>'', Num 1, Num 1, LBracket, Flt 1, RBracket,
           Word ''<bias>'', LBracket, Flt 2, RBracket], [2, 2]) \<and>
   DNN_read zero_junk
     [Word ''<sigmoid>'', Num 1, Num 1, LBracket, Flt 1, RBracket,
      Word ''<bias>'', LBracket, Flt 2, RBracket] =
     Some [\<lparr>ftype = Sigmoid, getW = \<lparr>rows = 2, cols = 2, data = [1, 2, 0, 0]\<rparr>,
            getDw = zeros 2 2\<rparr>] \<and>
   getW (example_saved ! 0) = \<lparr>rows = 2, cols = 2, data = [1, 2, 3, 4]\<rparr> \<and>
   \<lparr>rows = 2, cols = 2, data = [1, 2, 0, 0]\<rparr> \<noteq> getW (example_saved ! 0) \<and>
   DNN_save exact_fmt [] = Inl OutOfBounds"
proof -
  have w: "getW (example_saved ! 0) = \<lparr>rows = 2, cols = 2, data = [1, 2, 3, 4]\<rparr>"
    by (simp add: example_saved_def)
  have d: "\<lparr>rows = 2, cols = 2, data = [1, 2, 0, 0]\<rparr> \<noteq> getW (example_saved ! 0)"
    unfolding w by simp
  have e: "DNN_save exact_fmt [] = Inl OutOfBounds"
    by (simp add: DNN_save_def)
  show ?thesis
    using example_file example_read w d e by blast
qed

subsection \<open>The sub-sampling layer\<close>

lemma mat_div_scalar_mat_of:
  "mat_div_scalar (mat_of h w f) x = mat_of h w (\<lambda>r c. f r c / x)"
  by (simp add: mat_div_scalar_def mat_map_mat_of)

lemma dvd_div_less: "s dvd m \<Longrightarrow> 0 < s \<Longrightarrow> r < m \<Longrightarrow> r div s < m div (s::nat)"
  by (metis div_less_mult dvd_mult_div_cancel mult.commute)

lemma dvd_div_div: "s dvd m \<Longrightarrow> 0 < s \<Longrightarrow> 0 < m \<Longrightarrow> m div (m div s) = (s::nat)"
  by (metis div_by_0 dvd_div_eq_0_iff dvd_mult_div_cancel less_numeral_extra(3) nonzero_mult_div_cancel_right)

lemma SubSamplingLayer_feedBackward_nth:
  assumes s: "0 < s" "s < 2 ^ 32" "s dvd m" "s dvd n" and mn: "0 < m" "0 < n"
    and B: "0 < B"
    and wf: "\<forall>e\<in>set deltas. wf_mat e \<and> rows e = (m div s) * (n div s) \<and> cols e = B"
    and i: "i < length deltas"
  shows "\<exists>res. SubSamplingLayer_feedBackward
                 (SubSamplingLayer nI nO \<lparr>size_m = m, size_n = n\<rparr> s) deltas = Inr res \<and>
     length res = length deltas \<and>
     res ! i = mat_of (m * n) B
       (\<lambda>ix k. elem (deltas ! i) (((ix div m) div s) * (m div s) + (ix mod m) div s) k / real (s * s))"
proof -
  let ?L = "SubSamplingLayer nI nO \<lparr>size_m = m, size_n = n\<rparr> s"
  let ?N = "length deltas"
  have d0: "deltas ! 0 \<in> set deltas" using i by (cases deltas) simp_all
  have b0: "cols (deltas ! 0) = B" using wf d0 by blast
  have di: "wf_mat (deltas ! i)" "rows (deltas ! i) = (m div s) * (n div s)" "cols (deltas ! i) = B"
    using wf i by simp_all
  have sq: "(s * s) mod 2 ^ 64 = s * s"
  proof -
    have "s * s < 2 ^ 32 * 2 ^ 32" using s(2) by (intro mult_strict_mono) simp_all
    then show ?thesis by simp
  qed
  have o: "\<And>k. k < B \<Longrightarrow>
      reshapeVectors2Images (deltas ! i) \<lparr>size_m = m div s, size_n = n div s\<rparr> ! k =
      mat_of (m div s) (n div s) (\<lambda>r c. elem (deltas ! i) (c * (m div s) + r) k)"
    using reshapeVectors2Images_nth [OF di(1,2)] di(3) by simp
  have up: "\<And>k. k < B \<Longrightarrow>
      mat_div_scalar
        (upsample (reshapeVectors2Images (deltas ! i) \<lparr>size_m = m div s, size_n = n div s\<rparr> ! k)
           \<lparr>size_m = m, size_n = n\<rparr>) (real (s * s)) =
      mat_of m n (\<lambda>r c. elem (deltas ! i) ((c div s) * (m div s) + r div s) k / real (s * s))"
  proof -
    fix k assume k: "k < B"
    have "upsample (mat_of (m div s) (n div s) (\<lambda>r c. elem (deltas ! i) (c * (m div s) + r) k))
           \<lparr>size_m = m, size_n = n\<rparr> =
        mat_of m n (\<lambda>r c. elem (deltas ! i) ((c div s) * (m div s) + r div s) k)"
      unfolding upsample_def
      using s mn
      by (simp add: dvd_div_div) (rule mat_of_cong, simp add: elem_mat_of dvd_div_less)
    then show "mat_div_scalar
        (upsample (reshapeVectors2Images (deltas ! i) \<lparr>size_m = m div s, size_n = n div s\<rparr> ! k)
           \<lparr>size_m = m, size_n = n\<rparr>) (real (s * s)) =
      mat_of m n (\<lambda>r c. elem (deltas ! i) ((c div s) * (m div s) + r div s) k / real (s * s))"
      by (simp only: o [OF k] mat_div_scalar_mat_of)
  qed
  have img: "map (\<lambda>k. mat_div_scalar
        (upsample (reshapeVectors2Images (deltas ! i) \<lparr>size_m = m div s, size_n = n div s\<rparr> ! k)
           \<lparr>size_m = m, size_n = n\<rparr>) (real (s * s))) [0..<B] =
      map (\<lambda>k. mat_of m n (\<lambda>r c. elem (deltas ! i) ((c div s) * (m div s) + r div s) k / real (s * s)))
        [0..<B]"
    by (rule map_cong [OF refl]) (rule up, simp)
  define res where "res = map (\<lambda>j. reshapeImages2Vectors (map (\<lambda>k. mat_div_scalar
        (upsample (reshapeVectors2Images (deltas ! j) \<lparr>size_m = m div s, size_n = n div s\<rparr> ! k)
           \<lparr>size_m = m, size_n = n\<rparr>) (real (s * s))) [0..<B])) [0..<length deltas]"
  have ne: "deltas \<noteq> []" using i by auto
  have r: "SubSamplingLayer_feedBackward ?L deltas = Inr res"
    using ne s(1) sq
    by (simp add: SubSamplingLayer_feedBackward_def Let_def b0 res_def del: of_nat_mult
        cong: map_cong)
  have l: "length res = length deltas" by (simp add: res_def)
  have "res ! i =
      reshapeImages2Vectors (map (\<lambda>k. mat_div_scalar
        (upsample (reshapeVectors2Images (deltas ! i) \<lparr>size_m = m div s, size_n = n div s\<rparr> ! k)
           \<lparr>size_m = m, size_n = n\<rparr>) (real (s * s))) [0..<B])"
    using i by (simp add: res_def del: of_nat_mult)
  also have "\<dots> = mat_of (m * n) B
       (\<lambda>ix k. elem (deltas ! i) (((ix div m) div s) * (m div s) + (ix mod m) div s) k / real (s * s))"
    unfolding img by (rule reshapeImages2Vectors_mat_of [OF B])
  finally show ?thesis using r l by blast
qed

lemma SubSamplingLayer_feedBackward_all:
  assumes s: "0 < s" "s < 2 ^ 32" "s dvd m" "s dvd n" and mn: "0 < m" "0 < n"
    and B: "0 < B"
    and wf: "\<forall>e\<in>set deltas. wf_mat e \<and> rows e = (m div s) * (n div s) \<and> cols e = B"
    and ne: "deltas \<noteq> []"
  shows "\<exists>res. SubSamplingLayer_feedBackward
                 (SubSamplingLayer nI nO \<lparr>size_m = m, size_n = n\<rparr> s) deltas = Inr res \<and>
     length res = length deltas \<and>
     (\<forall>i<length deltas. res ! i = mat_of (m * n) B
       (\<lambda>ix k. elem (deltas ! i) (((ix div m) div s) * (m div s) + (ix mod m) div s) k / real (s * s)))"
proof -
  have i0: "0 < length deltas" using ne by simp
  from SubSamplingLayer_feedBackward_nth [OF s mn B wf i0, of nI nO] obtain res where
    r: "SubSamplingLayer_feedBackward
          (SubSamplingLayer nI nO \<lparr>size_m = m, size_n = n\<rparr> s) deltas = Inr res"
    and l: "length res = length deltas"
    by blast
  have "\<forall>i<length deltas. res ! i = mat_of (m * n) B
       (\<lambda>ix k. elem (deltas ! i) (((ix div m) div s) * (m div s) + (ix mod m) div s) k / real (s * s))"
  proof (intro allI impI)
    fix i assume i: "i < length deltas"
    from SubSamplingLayer_feedBackward_nth [OF s mn B wf i, of nI nO] r
    show "res ! i = mat_of (m * n) B
       (\<lambda>ix k. elem (deltas ! i) (((ix div m) div s) * (m div s) + (ix mod m) div s) k / real (s * s))"
      by simp
  qed
  with r l show ?thesis by blast
qed

text \<open>
  C3 (as amended). For a sub-sampling layer of scale \<open>s\<close> (positive, below \<open>2 ^ 32\<close>) on
  images of \<open>m\<close> by \<open>n\<close> with \<open>s\<close> dividing both, and at least one error map, all of the
  output size for a batch of \<open>B\<close> samples, \<^verbatim>\<open>backPropagate\<close> returns the layer as it
  was. Every error map is replaced by one of the input size: the entry at row \<open>r\<close> and
  column \<open>c\<close> of the image of sample \<open>k\<close> is the delta at row \<open>r div s\<close> and column
  \<open>c div s\<close> of the output image, divided by \<open>s * s\<close>, so all entries of a pooled block
  carry the same share of the block's delta, which is what the exact adjoint of the
  pooling gives them.
\<close>

theorem SubSamplingLayer_backPropagate_adjoint:
  assumes "0 < s" "s < 2 ^ 32" "s dvd m" "s dvd n" "0 < m" "0 < n" "0 < B"
    and "\<forall>e\<in>set errors. wf_mat e \<and> rows e = (m div s) * (n div s) \<and> cols e = B"
    and "errors \<noteq> []"
  shows "\<exists>errors'.
     SubSamplingLayer_backPropagate
       (SubSamplingLayer nI nO \<lparr>size_m = m, size_n = n\<rparr> s) errors fins fouts lr =
       Inr (SubSamplingLayer nI nO \<lparr>size_m = m, size_n = n\<rparr> s, errors') \<and>
     length errors' = length errors \<and>
     (\<forall>i. i < length errors \<longrightarrow>
        rows (errors' ! i) = m * n \<and> cols (errors' ! i) = B \<and>
        (\<forall>r c k. r < m \<longrightarrow> c < n \<longrightarrow> k < B \<longrightarrow>
           elem (errors' ! i) (c * m + r) k =
             elem (errors ! i) ((c div s) * (m div s) + r div s) k / real (s * s) \<and>
           elem (errors' ! i) (c * m + r) k =
             spec_adjoint_entry s m n
               (reshapeVectors2Images (errors ! i) \<lparr>size_m = m div s, size_n = n div s\<rparr> ! k)
               r c))"
proof -
  let ?L = "SubSamplingLayer nI nO \<lparr>size_m = m, size_n = n\<rparr> s"
  from SubSamplingLayer_feedBackward_all [OF assms, of nI nO] obtain res where
    r: "SubSamplingLayer_feedBackward ?L errors = Inr res" and
    l: "length res = length errors" and
    n: "\<And>i. i < length errors \<Longrightarrow> res ! i = mat_of (m * n) B
       (\<lambda>ix k. elem (errors ! i) (((ix div m) div s) * (m div s) + (ix mod m) div s) k / real (s * s))"
    by blast
  have bp: "SubSamplingLayer_backPropagate ?L errors fins fouts lr = Inr (?L, res)"
    by (simp add: SubSamplingLayer_backPropagate_def r)
  have each: "\<forall>i. i < length errors \<longrightarrow>
      rows (res ! i) = m * n \<and> cols (res ! i) = B \<and>
      (\<forall>r c k. r < m \<longrightarrow> c < n \<longrightarrow> k < B \<longrightarrow>
         elem (res ! i) (c * m + r) k =
           elem (errors ! i) ((c div s) * (m div s) + r div s) k / real (s * s) \<and>
         elem (res ! i) (c * m + r) k =
           spec_adjoint_entry s m n
             (reshapeVectors2Images (errors ! i) \<lparr>size_m = m div s, size_n = n div s\<rparr> ! k)
             r c)"
  proof (intro allI impI)
    fix i assume i: "i < length errors"
    then have mem: "errors ! i \<in> set errors" by simp
    have di: "wf_mat (errors ! i)" "rows (errors ! i) = (m div s) * (n div s)"
      "cols (errors ! i) = B"
      using assms(8) mem by blast+
    have rw: "rows (res ! i) = m * n" unfolding n [OF i] by simp
    have cl: "cols (res ! i) = B" unfolding n [OF i] by simp
    have en: "\<forall>r c k. r < m \<longrightarrow> c < n \<longrightarrow> k < B \<longrightarrow>
         elem (res ! i) (c * m + r) k =
           elem (errors ! i) ((c div s) * (m div s) + r div s) k / real (s * s) \<and>
         elem (res ! i) (c * m + r) k =
           spec_adjoint_entry s m n
             (reshapeVectors2Images (errors ! i) \<lparr>size_m = m div s, size_n = n div s\<rparr> ! k)
             r c"
    proof (intro allI impI)
      fix r c k assume r: "r < m" and c: "c < n" and k: "k < B"
      have ix: "c * m + r < m * n" using r c by (rule index_less)
      have a: "elem (res ! i) (c * m + r) k =
           elem (errors ! i) ((c div s) * (m div s) + r div s) k / real (s * s)"
        unfolding n [OF i] using r
        by (simp only: elem_mat_of [OF ix k] div_mult_add_less mod_mult_self3 mod_less)
      have rs: "r div s < m div s" using assms(3) assms(1) r by (rule dvd_div_less)
      have cs: "c div s < n div s" using assms(4) assms(1) c by (rule dvd_div_less)
      have o: "reshapeVectors2Images (errors ! i) \<lparr>size_m = m div s, size_n = n div s\<rparr> ! k =
          mat_of (m div s) (n div s) (\<lambda>r c. elem (errors ! i) (c * (m div s) + r) k)"
        using reshapeVectors2Images_nth [OF di(1,2)] di(3) k by simp
      have b: "spec_adjoint_entry s m n
             (reshapeVectors2Images (errors ! i) \<lparr>size_m = m div s, size_n = n div s\<rparr> ! k)
             r c = elem (errors ! i) ((c div s) * (m div s) + r div s) k / real (s * s)"
        unfolding spec_adjoint_entry_def o using rs cs
        by (simp only: if_True conj_absorb elem_mat_of [OF rs cs])
      show "elem (res ! i) (c * m + r) k =
           elem (errors ! i) ((c div s) * (m div s) + r div s) k / real (s * s) \<and>
         elem (res ! i) (c * m + r) k =
           spec_adjoint_entry s m n
             (reshapeVectors2Images (errors ! i) \<lparr>size_m = m div s, size_n = n div s\<rparr> ! k)
             r c"
        using a b by simp
    qed
    show "rows (res ! i) = m * n \<and> cols (res ! i) = B \<and>
      (\<forall>r c k. r < m \<longrightarrow> c < n \<longrightarrow> k < B \<longrightarrow>
         elem (res ! i) (c * m + r) k =
           elem (errors ! i) ((c div s) * (m div s) + r div s) k / real (s * s) \<and>
         elem (res ! i) (c * m + r) k =
           spec_adjoint_entry s m n
             (reshapeVectors2Images (errors ! i) \<lparr>size_m = m div s, size_n = n div s\<rparr> ! k)
             r c)"
      using rw cl en by (intro conjI)
  qed
  show ?thesis
    apply (rule exI [of _ res])
    using bp l each by (intro conjI)
qed

theorem SubSamplingLayer_backPropagate_adjoint_witness:
  "\<exists>errors'.
     SubSamplingLayer_backPropagate example_subsampling example_errors [] [] 1 =
       Inr (example_subsampling, errors') \<and>
     length errors' = 1 \<and> rows (errors' ! 0) = 4 \<and> cols (errors' ! 0) = 1 \<and>
     elem (errors' ! 0) 0 0 = 2 \<and> elem (errors' ! 0) 3 0 = 2"
proof -
  have a: "\<forall>e\<in>set example_errors. wf_mat e \<and> rows e = (2 div 2) * (2 div 2) \<and> cols e = 1"
    by (simp add: example_errors_def wf_mat_def)
  have ne: "example_errors \<noteq> []" by (simp add: example_errors_def)
  have h: "(0::nat) < 2" "(2::nat) < 2 ^ 32" "(2::nat) dvd 2" "(0::nat) < 1" by simp_all
  note t = SubSamplingLayer_backPropagate_adjoint
    [OF h(1) h(2) h(3) h(3) h(1) h(1) h(4) a ne, of 1 1 "[]" "[]" 1,
      folded example_subsampling_def]
  from t obtain errors' where
    f: "SubSamplingLayer_backPropagate example_subsampling example_errors [] [] 1 =
         Inr (example_subsampling, errors')" and
    l: "length errors' = length example_errors" and
    e: "\<And>i. i < length example_errors \<Longrightarrow>
         rows (errors' ! i) = 2 * 2 \<and> cols (errors' ! i) = 1 \<and>
         (\<forall>r c k. r < 2 \<longrightarrow> c < 2 \<longrightarrow> k < 1 \<longrightarrow>
           elem (errors' ! i) (c * 2 + r) k =
             elem (example_errors ! i) ((c div 2) * (2 div 2) + r div 2) k / real (2 * 2) \<and>
           elem (errors' ! i) (c * 2 + r) k =
             spec_adjoint_entry 2 2 2
               (reshapeVectors2Images (example_errors ! i)
                  \<lparr>size_m = 2 div 2, size_n = 2 div 2\<rparr> ! k) r c)"
    by blast
  have i0: "0 < length example_errors" by (simp add: example_errors_def)
  note e0 = e [OF i0]
  have r0: "rows (errors' ! 0) = 4" using e0 by simp
  have c0: "cols (errors' ! 0) = 1" using e0 by simp
  have al: "\<forall>r c k. r < 2 \<longrightarrow> c < 2 \<longrightarrow> k < 1 \<longrightarrow>
           elem (errors' ! 0) (c * 2 + r) k =
             elem (example_errors ! 0) ((c div 2) * (2 div 2) + r div 2) k / real (2 * 2) \<and>
           elem (errors' ! 0) (c * 2 + r) k =
             spec_adjoint_entry 2 2 2
               (reshapeVectors2Images (example_errors ! 0)
                  \<lparr>size_m = 2 div 2, size_n = 2 div 2\<rparr> ! k) r c"
    by (rule conjunct2 [OF conjunct2 [OF e0]])
  have z: "(0::nat) < 1" "(0::nat) < 2" "(1::nat) < 2" by simp_all
  have el0: "elem (errors' ! 0) (0 * 2 + 0) 0 =
             elem (example_errors ! 0) ((0 div 2) * (2 div 2) + 0 div 2) 0 / real (2 * 2)"
    using al [rule_format, of 0 0 0] z by blast
  have el3: "elem (errors' ! 0) (1 * 2 + 1) 0 =
             elem (example_errors ! 0) ((1 div 2) * (2 div 2) + 1 div 2) 0 / real (2 * 2)"
    using al [rule_format, of 1 1 0] z by blast
  have e00: "elem (errors' ! 0) 0 0 = 2"
    using el0 by (simp add: example_errors_def elem_def)
  have e30: "elem (errors' ! 0) 3 0 = 2"
    using el3 by (simp add: example_errors_def elem_def)
  have l1: "length errors' = 1" using l by (simp add: example_errors_def)
  show ?thesis
    using f l1 r0 c0 e00 e30 by blast
qed

text \<open>
  Scale 2 on images of 3 by 3, with the delta 8 for the one pooled block: all nine entries
  of the propagated error are 2, also the five that lie in no pooled block, where the
  adjoint of the pooling has 0; the entries sum to 18 and not to 8. And without any error
  map, \<^verbatim>\<open>backPropagate\<close> reads \<^verbatim>\<open>deltas[0]\<close> of an empty vector.
\<close>

theorem SubSamplingLayer_backPropagate_counterexample:
  "SubSamplingLayer_backPropagate example_subsampling_odd example_errors [] [] 1 =
     Inr (example_subsampling_odd, [\<lparr>rows = 9, cols = 1, data = replicate 9 2\<rparr>]) \<and>
   elem \<lparr>rows = 9, cols = 1, data = replicate 9 2\<rparr> (2 * 3 + 2) 0 = 2 \<and>
   spec_adjoint_entry 2 3 3
     (reshapeVectors2Images (example_errors ! 0) \<lparr>size_m = 3 div 2, size_n = 3 div 2\<rparr> ! 0)
     2 2 = 0 \<and>
   sum_all \<lparr>rows = 9, cols = 1, data = replicate 9 2\<rparr> = 18 \<and>
   sum_all (example_errors ! 0) = 8 \<and>
   SubSamplingLayer_backPropagate example_subsampling [] [] [] 1 = Inl OutOfRange"
proof -
  have d: "(3::nat) div 2 = 1" by simp
  have img: "reshapeVectors2Images \<lparr>rows = 1, cols = 1, data = [8]\<rparr>
      \<lparr>size_m = 1, size_n = 1\<rparr> = [\<lparr>rows = 1, cols = 1, data = [8]\<rparr>]"
    by (simp add: reshapeVectors2Images_def)
  have up: "upsample \<lparr>rows = 1, cols = 1, data = [8]\<rparr> \<lparr>size_m = 3, size_n = 3\<rparr> =
      \<lparr>rows = 3, cols = 3, data = replicate 9 8\<rparr>"
  proof -
    have "map (\<lambda>i. elem \<lparr>rows = 1, cols = 1, data = [8]\<rparr> (i mod 3 div 3) (i div 3 div 3))
            [0..<9] = replicate 9 8"
    proof (rule map_const_upt)
      fix i :: nat assume "i < 9"
      then have "i div 3 div 3 = 0" "i mod 3 div 3 = 0" by simp_all
      then show "elem \<lparr>rows = 1, cols = 1, data = [8]\<rparr> (i mod 3 div 3) (i div 3 div 3) = 8"
        by (simp add: elem_def)
    qed
    then show ?thesis by (simp add: upsample_def mat_of_def)
  qed
  have a: "SubSamplingLayer_backPropagate example_subsampling_odd example_errors [] [] 1 =
     Inr (example_subsampling_odd, [\<lparr>rows = 9, cols = 1, data = replicate 9 2\<rparr>])"
    by (simp add: SubSamplingLayer_backPropagate_def SubSamplingLayer_feedBackward_def Let_def
        example_subsampling_odd_def example_errors_def d img up mat_div_scalar_def mat_map_def
        reshapeImages2Vectors_def upt1 del: One_nat_def)
  have b: "elem \<lparr>rows = 9, cols = 1, data = replicate 9 2\<rparr> (2 * 3 + 2) 0 = 2"
    by (simp add: elem_def)
  have c: "spec_adjoint_entry 2 3 3
     (reshapeVectors2Images (example_errors ! 0) \<lparr>size_m = 3 div 2, size_n = 3 div 2\<rparr> ! 0)
     2 2 = 0"
    by (simp add: spec_adjoint_entry_def)
  have s1: "sum_all \<lparr>rows = 9, cols = 1, data = replicate 9 2\<rparr> = 18"
    by (simp add: sum_all_def sum_list_replicate)
  have s2: "sum_all (example_errors ! 0) = 8"
    by (simp add: sum_all_def example_errors_def)
  have e: "SubSamplingLayer_backPropagate example_subsampling [] [] [] 1 = Inl OutOfRange"
    by (simp add: SubSamplingLayer_backPropagate_def SubSamplingLayer_feedBackward_def)
  show ?thesis using a b c s1 s2 e by blast
qed

subsection \<open>The forward pass of the convolutional layer\<close>

lemma fold_mat_add_mat_of:
  "fold (\<lambda>i a. mat_add a (mat_of h w (g i))) is (mat_of h w f0) =
   mat_of h w (\<lambda>r c. f0 r c + (\<Sum>i\<leftarrow>is. g i r c))"
proof (induction "is" arbitrary: f0)
  case Nil
  show ?case by simp
next
  case (Cons i "is")
  show ?case
    by (simp add: mat_add_mat_of Cons.IH add.assoc)
qed

lemma fold_cong_upt:
  assumes "\<And>i. i < n \<Longrightarrow> f i = g i"
  shows "fold f [0..<n] a = fold g [0..<n] a"
  by (rule List.fold_cong) (simp_all add: assms)

lemma conv_ff_cell_set2:
  assumes "shape xs J B" "j < J" "k < B"
  shows "conv_ff_cell L iImgs k j xs =
     set2 xs j k
       (mat_map sigmoid (mat_add_scalar
          (fold (\<lambda>i a. mat_add a (convn_valid (iImgs ! i ! k) (kernels L ! i ! j)))
             [0..<getNumInputMaps L] (xs ! j ! k)) (bias L ! j)))"
proof -
  have j: "j < length xs" and k: "k < length (xs ! j)"
    using assms by (simp_all add: shape_def)
  let ?F = "\<lambda>i a. mat_add a (convn_valid (iImgs ! i ! k) (kernels L ! i ! j))"
  have f: "fold (\<lambda>i xs. set2 xs j k (?F i (xs ! j ! k))) [0..<getNumInputMaps L] xs =
      set2 xs j k (fold ?F [0..<getNumInputMaps L] (xs ! j ! k))"
    by (rule fold_set2_acc [OF j k])
  show ?thesis
    unfolding conv_ff_cell_def Let_def f
    by (simp add: set2_same [OF j k] set2_overwrite)
qed

lemma conv_ff_loops_eq:
  assumes "shape xs (getNumOutputMaps L) B"
  shows "conv_ff_loops L iImgs B xs =
     map (\<lambda>j. map (\<lambda>k.
        mat_map sigmoid (mat_add_scalar
          (fold (\<lambda>i a. mat_add a (convn_valid (iImgs ! i ! k) (kernels L ! i ! j)))
             [0..<getNumInputMaps L] (xs ! j ! k)) (bias L ! j))) [0..<B]) [0..<getNumOutputMaps L]"
proof -
  let ?G = "\<lambda>k j a. mat_map sigmoid (mat_add_scalar
          (fold (\<lambda>i a. mat_add a (convn_valid (iImgs ! i ! k) (kernels L ! i ! j)))
             [0..<getNumInputMaps L] a) (bias L ! j))"
  have "conv_ff_loops L iImgs B xs =
      map (\<lambda>j. map (\<lambda>k. if k < B then ?G k j (xs ! j ! k) else xs ! j ! k) [0..<B])
        [0..<getNumOutputMaps L]"
    unfolding conv_ff_loops_def
    by (rule fold_cells [OF assms _ order_refl]) (rule conv_ff_cell_set2)
  also have "\<dots> = map (\<lambda>j. map (\<lambda>k. ?G k j (xs ! j ! k)) [0..<B]) [0..<getNumOutputMaps L]"
    by (intro map_cong refl) simp
  finally show ?thesis .
qed

lemma rows_reshapeVectors2Images:
  "k < cols x \<Longrightarrow> rows (reshapeVectors2Images x s ! k) = size_m s \<and>
     cols (reshapeVectors2Images x s ! k) = size_n s"
  by (simp add: reshapeVectors2Images_def)

lemma convn_valid_reshaped:
  assumes "k < cols x" "rows kern = kh" "cols kern = kw"
  shows "convn_valid (reshapeVectors2Images x \<lparr>size_m = m, size_n = n\<rparr> ! k) kern =
     mat_of (m + 1 - kh) (n + 1 - kw)
       (convn_valid_at (reshapeVectors2Images x \<lparr>size_m = m, size_n = n\<rparr> ! k) kern)"
  using rows_reshapeVectors2Images [OF assms(1), of "\<lparr>size_m = m, size_n = n\<rparr>"] assms(2,3)
  by (simp add: convn_valid_def)

lemma ConvolutionalLayer_feedForward_eq:
  assumes pos: "0 < nI" "0 < nO" "0 < B"
    and dims: "\<forall>i<nI. \<forall>j<nO. rows (K ! i ! j) = kh \<and> cols (K ! i ! j) = kw"
    and len: "length fins = nI"
    and fins: "\<forall>i<nI. cols (fins ! i) = B"
  shows "ConvolutionalLayer_feedForward (ConvolutionalLayer nI nO \<lparr>size_m = m, size_n = n\<rparr> K b) fins =
     Inr (map (\<lambda>j. mat_of ((m + 1 - kh) * (n + 1 - kw)) B
            (\<lambda>ix k. sigmoid
               ((\<Sum>i\<leftarrow>[0..<nI].
                   convn_valid_at (reshapeVectors2Images (fins ! i) \<lparr>size_m = m, size_n = n\<rparr> ! k)
                     (K ! i ! j) (ix mod (m + 1 - kh)) (ix div (m + 1 - kh)))
                + b ! j)))
          [0..<nO])"
proof -
  let ?L = "ConvolutionalLayer nI nO \<lparr>size_m = m, size_n = n\<rparr> K b"
  define sm where "sm = m + 1 - kh"
  define sn where "sn = n + 1 - kw"
  let ?iImgs = "map (\<lambda>i. reshapeVectors2Images (fins ! i) \<lparr>size_m = m, size_n = n\<rparr>) [0..<nI]"
  let ?img = "\<lambda>i k. reshapeVectors2Images (fins ! i) \<lparr>size_m = m, size_n = n\<rparr> ! k"
  let ?o0 = "replicate nO (replicate B (zeros sm sn))"
  have k00: "rows (K ! 0 ! 0) = kh" "cols (K ! 0 ! 0) = kw"
    using dims pos by simp_all
  have b0: "cols (fins ! 0) = B" using fins pos by simp
  have os: "get_output_img_size ?L = \<lparr>size_m = sm, size_n = sn\<rparr>"
    by (simp add: k00 sm_def sn_def)
  have sh: "shape ?o0 (getNumOutputMaps ?L) B"
    by (simp add: shape_def)
  have cell: "\<And>j k. j < nO \<Longrightarrow> k < B \<Longrightarrow>
      mat_map sigmoid (mat_add_scalar
          (fold (\<lambda>i a. mat_add a (convn_valid (?iImgs ! i ! k) (K ! i ! j)))
             [0..<nI] (?o0 ! j ! k)) (b ! j)) =
      mat_of sm sn (\<lambda>r c. sigmoid ((\<Sum>i\<leftarrow>[0..<nI]. convn_valid_at (?img i k) (K ! i ! j) r c) + b ! j))"
  proof -
    fix j k assume j: "j < nO" and k: "k < B"
    have "fold (\<lambda>i a. mat_add a (convn_valid (?iImgs ! i ! k) (K ! i ! j)))
             [0..<nI] (?o0 ! j ! k) =
        fold (\<lambda>i a. mat_add a (mat_of sm sn (convn_valid_at (?img i k) (K ! i ! j))))
             [0..<nI] (mat_of sm sn (\<lambda>r c. 0))"
    proof -
      have "\<And>i. i < nI \<Longrightarrow>
          (\<lambda>a. mat_add a (convn_valid (?iImgs ! i ! k) (K ! i ! j))) =
          (\<lambda>a. mat_add a (mat_of sm sn (convn_valid_at (?img i k) (K ! i ! j))))"
      proof -
        fix i assume i: "i < nI"
        have kc: "k < cols (fins ! i)" using fins i k by simp
        have "convn_valid (?img i k) (K ! i ! j) =
            mat_of sm sn (convn_valid_at (?img i k) (K ! i ! j))"
          using convn_valid_reshaped [OF kc] dims i j by (simp add: sm_def sn_def)
        then show "(\<lambda>a. mat_add a (convn_valid (?iImgs ! i ! k) (K ! i ! j))) =
          (\<lambda>a. mat_add a (mat_of sm sn (convn_valid_at (?img i k) (K ! i ! j))))"
          using i by simp
      qed
      then have "fold (\<lambda>i a. mat_add a (convn_valid (?iImgs ! i ! k) (K ! i ! j))) [0..<nI]
            (mat_of sm sn (\<lambda>r c. 0)) =
          fold (\<lambda>i a. mat_add a (mat_of sm sn (convn_valid_at (?img i k) (K ! i ! j)))) [0..<nI]
            (mat_of sm sn (\<lambda>r c. 0))"
        by (rule fold_cong_upt)
      then show ?thesis
        using j k by (simp add: zeros_mat_of)
    qed
    also have "\<dots> = mat_of sm sn
        (\<lambda>r c. 0 + (\<Sum>i\<leftarrow>[0..<nI]. convn_valid_at (?img i k) (K ! i ! j) r c))"
      by (rule fold_mat_add_mat_of)
    finally show "mat_map sigmoid (mat_add_scalar
          (fold (\<lambda>i a. mat_add a (convn_valid (?iImgs ! i ! k) (K ! i ! j)))
             [0..<nI] (?o0 ! j ! k)) (b ! j)) =
      mat_of sm sn (\<lambda>r c. sigmoid ((\<Sum>i\<leftarrow>[0..<nI]. convn_valid_at (?img i k) (K ! i ! j) r c) + b ! j))"
      by (simp add: mat_add_scalar_def mat_map_mat_of)
  qed
  have loops: "conv_ff_loops ?L ?iImgs B ?o0 =
      map (\<lambda>j. map (\<lambda>k. mat_of sm sn
          (\<lambda>r c. sigmoid ((\<Sum>i\<leftarrow>[0..<nI]. convn_valid_at (?img i k) (K ! i ! j) r c) + b ! j)))
        [0..<B]) [0..<nO]"
  proof -
    have "conv_ff_loops ?L ?iImgs B ?o0 =
        map (\<lambda>j. map (\<lambda>k. mat_map sigmoid (mat_add_scalar
          (fold (\<lambda>i a. mat_add a (convn_valid (?iImgs ! i ! k) (K ! i ! j)))
             [0..<nI] (?o0 ! j ! k)) (b ! j))) [0..<B]) [0..<nO]"
      by (simp only: conv_ff_loops_eq [OF sh] MIMOFeatureTransform.sel)
    also have "\<dots> = map (\<lambda>j. map (\<lambda>k. mat_of sm sn
          (\<lambda>r c. sigmoid ((\<Sum>i\<leftarrow>[0..<nI]. convn_valid_at (?img i k) (K ! i ! j) r c) + b ! j)))
        [0..<B]) [0..<nO]"
      by (rule map_cong [OF refl], rule map_cong [OF refl]) (rule cell, simp_all)
    finally show ?thesis .
  qed
  have out: "\<And>j. j < nO \<Longrightarrow>
      reshapeImages2Vectors (conv_ff_loops ?L ?iImgs B ?o0 ! j) =
      mat_of (sm * sn) B
            (\<lambda>ix k. sigmoid
               ((\<Sum>i\<leftarrow>[0..<nI]. convn_valid_at (?img i k) (K ! i ! j) (ix mod sm) (ix div sm))
                + b ! j))"
    unfolding loops using reshapeImages2Vectors_mat_of [OF pos(3)] by simp
  have "ConvolutionalLayer_feedForward ?L fins =
      Inr (map (\<lambda>j. reshapeImages2Vectors (conv_ff_loops ?L ?iImgs B ?o0 ! j)) [0..<nO])"
    unfolding ConvolutionalLayer_feedForward_def Let_def os
    using len b0 by (simp del: get_output_img_size.simps)
  also have "map (\<lambda>j. reshapeImages2Vectors (conv_ff_loops ?L ?iImgs B ?o0 ! j)) [0..<nO] =
      map (\<lambda>j. mat_of (sm * sn) B
            (\<lambda>ix k. sigmoid
               ((\<Sum>i\<leftarrow>[0..<nI]. convn_valid_at (?img i k) (K ! i ! j) (ix mod sm) (ix div sm))
                + b ! j))) [0..<nO]"
    by (rule map_cong [OF refl], rule out) simp
  finally show ?thesis
    unfolding sm_def sn_def .
qed

lemma sum_list_upt_rev: "(\<Sum>p\<leftarrow>[0..<n]. f (n - 1 - p)) = (\<Sum>p\<leftarrow>[0..<n]. f p :: real)"
proof -
  have "(\<Sum>p\<leftarrow>[0..<n]. f (n - 1 - p)) = sum (\<lambda>p. f (n - 1 - p)) {0..<n}"
    by (simp add: interv_sum_list_conv_sum_set_nat)
  also have "\<dots> = sum (\<lambda>p. f (n + 0 - Suc p)) {0..<n}" by simp
  also have "\<dots> = sum f {0..<n}" by (rule sum.atLeastLessThan_rev [symmetric])
  also have "\<dots> = (\<Sum>p\<leftarrow>[0..<n]. f p)"
    by (simp add: interv_sum_list_conv_sum_set_nat)
  finally show ?thesis .
qed

lemma elem_rot180: "p < rows A \<Longrightarrow> q < cols A \<Longrightarrow>
   elem (rot180 A) p q = elem A (rows A - 1 - p) (cols A - 1 - q)"
  by (simp add: rot180_def elem_mat_of)

lemma rows_rot180 [simp]: "rows (rot180 A) = rows A"
  and cols_rot180 [simp]: "cols (rot180 A) = cols A"
  by (simp_all add: rot180_def)

lemma convn_valid_at_xcorr_rot180:
  "convn_valid_at x k r c = xcorr_valid_at x (rot180 k) r c"
proof -
  let ?kh = "rows k" and ?kw = "cols k"
  have inner: "\<And>p. p < ?kh \<Longrightarrow>
      (\<Sum>q\<leftarrow>[0..<?kw]. elem x (r + p) (c + q) * elem (rot180 k) p q) =
      (\<Sum>q\<leftarrow>[0..<?kw]. elem x (r + p) (c + ?kw - 1 - q) * elem k (?kh - 1 - p) q)"
  proof -
    fix p assume p: "p < ?kh"
    have "(\<Sum>q\<leftarrow>[0..<?kw]. elem x (r + p) (c + q) * elem (rot180 k) p q) =
        (\<Sum>q\<leftarrow>[0..<?kw]. elem x (r + p) (c + q) * elem k (?kh - 1 - p) (?kw - 1 - q))"
      by (rule sum_list_cong_upt) (simp add: elem_rot180 p)
    also have "\<dots> = (\<Sum>q\<leftarrow>[0..<?kw]. elem x (r + p) (c + (?kw - 1 - q)) *
        elem k (?kh - 1 - p) (?kw - 1 - (?kw - 1 - q)))"
      by (rule sum_list_upt_rev [symmetric])
    also have "\<dots> = (\<Sum>q\<leftarrow>[0..<?kw]. elem x (r + p) (c + ?kw - 1 - q) * elem k (?kh - 1 - p) q)"
      by (rule sum_list_cong_upt) simp
    finally show "(\<Sum>q\<leftarrow>[0..<?kw]. elem x (r + p) (c + q) * elem (rot180 k) p q) =
      (\<Sum>q\<leftarrow>[0..<?kw]. elem x (r + p) (c + ?kw - 1 - q) * elem k (?kh - 1 - p) q)" .
  qed
  have "xcorr_valid_at x (rot180 k) r c =
      (\<Sum>p\<leftarrow>[0..<?kh]. \<Sum>q\<leftarrow>[0..<?kw]. elem x (r + p) (c + ?kw - 1 - q) * elem k (?kh - 1 - p) q)"
    unfolding xcorr_valid_at_def rows_rot180 cols_rot180
    by (rule sum_list_cong_upt, rule inner)
  also have "\<dots> = (\<Sum>p\<leftarrow>[0..<?kh]. \<Sum>q\<leftarrow>[0..<?kw].
      elem x (r + (?kh - 1 - p)) (c + ?kw - 1 - q) * elem k (?kh - 1 - (?kh - 1 - p)) q)"
    by (rule sum_list_upt_rev [symmetric])
  also have "\<dots> = (\<Sum>p\<leftarrow>[0..<?kh]. \<Sum>q\<leftarrow>[0..<?kw].
      elem x (r + ?kh - 1 - p) (c + ?kw - 1 - q) * elem k p q)"
    by (rule sum_list_cong_upt) simp
  finally show ?thesis
    by (simp add: convn_valid_at_def)
qed

lemma sigmoid_inj: "sigmoid x = sigmoid y \<longleftrightarrow> x = y"
proof -
  have "0 < 1 + exp (- x)" "0 < 1 + exp (- y)" by (simp_all add: add_pos_pos)
  then show ?thesis
    by (simp add: sigmoid_def field_simps)
qed

text \<open>
  C1 (as amended). For a convolutional layer whose kernels all have \<open>kh\<close> rows and \<open>kw\<close>
  columns and fit the \<open>m\<close> by \<open>n\<close> input images, and an input list with one well-formed
  matrix per input map for a batch of \<open>B\<close> samples, \<^verbatim>\<open>feedForward\<close> returns one matrix
  per output map, with one column per sample holding the flattened output image. Its entry
  for row \<open>r\<close> and column \<open>c\<close> of the image of sample \<open>k\<close> and output map \<open>j\<close> is the
  sigmoid of the bias \<open>b[j]\<close> plus the sum over the input maps \<open>i\<close> of the valid-mode
  convolution of input image \<open>i\<close> with \<open>kernel[i][j]\<close>, which is the valid-mode
  cross-correlation with the kernel rotated by 180 degrees.
\<close>

theorem ConvolutionalLayer_feedForward_convolution:
  assumes "0 < nI" "0 < nO" "0 < B" "1 \<le> kh" "kh \<le> m" "1 \<le> kw" "kw \<le> n"
    and "\<forall>i<nI. \<forall>j<nO. rows (K ! i ! j) = kh \<and> cols (K ! i ! j) = kw"
    and "length fins = nI"
    and "\<forall>i<nI. wf_mat (fins ! i) \<and> rows (fins ! i) = m * n \<and> cols (fins ! i) = B"
  shows "\<exists>fouts.
     ConvolutionalLayer_feedForward (ConvolutionalLayer nI nO \<lparr>size_m = m, size_n = n\<rparr> K b) fins =
       Inr fouts \<and>
     length fouts = nO \<and>
     (\<forall>j<nO.
        rows (fouts ! j) = (m - kh + 1) * (n - kw + 1) \<and> cols (fouts ! j) = B \<and>
        (\<forall>r c k. r < m - kh + 1 \<longrightarrow> c < n - kw + 1 \<longrightarrow> k < B \<longrightarrow>
           elem (fouts ! j) (c * (m - kh + 1) + r) k =
             sigmoid ((\<Sum>i\<leftarrow>[0..<nI].
                         convn_valid_at
                           (reshapeVectors2Images (fins ! i) \<lparr>size_m = m, size_n = n\<rparr> ! k)
                           (K ! i ! j) r c)
                      + b ! j) \<and>
           elem (fouts ! j) (c * (m - kh + 1) + r) k =
             sigmoid ((\<Sum>i\<leftarrow>[0..<nI].
                         xcorr_valid_at
                           (reshapeVectors2Images (fins ! i) \<lparr>size_m = m, size_n = n\<rparr> ! k)
                           (rot180 (K ! i ! j)) r c)
                      + b ! j)))"
proof -
  let ?img = "\<lambda>i k. reshapeVectors2Images (fins ! i) \<lparr>size_m = m, size_n = n\<rparr> ! k"
  let ?fouts = "map (\<lambda>j. mat_of ((m + 1 - kh) * (n + 1 - kw)) B
            (\<lambda>ix k. sigmoid
               ((\<Sum>i\<leftarrow>[0..<nI]. convn_valid_at (?img i k) (K ! i ! j)
                    (ix mod (m + 1 - kh)) (ix div (m + 1 - kh)))
                + b ! j)))
          [0..<nO]"
  have sm: "m + 1 - kh = m - kh + 1" and sn: "n + 1 - kw = n - kw + 1"
    using assms(5,7) by simp_all
  have cb: "\<forall>i<nI. cols (fins ! i) = B" using assms(10) by blast
  have ff: "ConvolutionalLayer_feedForward (ConvolutionalLayer nI nO \<lparr>size_m = m, size_n = n\<rparr> K b) fins =
       Inr ?fouts"
    by (rule ConvolutionalLayer_feedForward_eq [OF assms(1-3,8,9) cb])
  have len: "length ?fouts = nO" by simp
  have each: "\<forall>j<nO.
        rows (?fouts ! j) = (m - kh + 1) * (n - kw + 1) \<and> cols (?fouts ! j) = B \<and>
        (\<forall>r c k. r < m - kh + 1 \<longrightarrow> c < n - kw + 1 \<longrightarrow> k < B \<longrightarrow>
           elem (?fouts ! j) (c * (m - kh + 1) + r) k =
             sigmoid ((\<Sum>i\<leftarrow>[0..<nI]. convn_valid_at (?img i k) (K ! i ! j) r c) + b ! j) \<and>
           elem (?fouts ! j) (c * (m - kh + 1) + r) k =
             sigmoid ((\<Sum>i\<leftarrow>[0..<nI]. xcorr_valid_at (?img i k) (rot180 (K ! i ! j)) r c) + b ! j))"
  proof (intro allI impI)
    fix j assume j: "j < nO"
    have nth: "?fouts ! j = mat_of ((m - kh + 1) * (n - kw + 1)) B
            (\<lambda>ix k. sigmoid
               ((\<Sum>i\<leftarrow>[0..<nI]. convn_valid_at (?img i k) (K ! i ! j)
                    (ix mod (m - kh + 1)) (ix div (m - kh + 1)))
                + b ! j))"
      using j by (simp only: sm sn nth_map_upt length_upt diff_zero add_0)
    have el: "\<And>r c k. r < m - kh + 1 \<Longrightarrow> c < n - kw + 1 \<Longrightarrow> k < B \<Longrightarrow>
        elem (?fouts ! j) (c * (m - kh + 1) + r) k =
          sigmoid ((\<Sum>i\<leftarrow>[0..<nI]. convn_valid_at (?img i k) (K ! i ! j) r c) + b ! j)"
    proof -
      fix r c k assume r: "r < m - kh + 1" and c: "c < n - kw + 1" and k: "k < B"
      have ix: "c * (m - kh + 1) + r < (m - kh + 1) * (n - kw + 1)"
        using r c by (rule index_less)
      show "elem (?fouts ! j) (c * (m - kh + 1) + r) k =
          sigmoid ((\<Sum>i\<leftarrow>[0..<nI]. convn_valid_at (?img i k) (K ! i ! j) r c) + b ! j)"
        unfolding nth using r
        by (simp only: elem_mat_of [OF ix k] div_mult_add_less mod_mult_self3 mod_less)
    qed
    show "rows (?fouts ! j) = (m - kh + 1) * (n - kw + 1) \<and> cols (?fouts ! j) = B \<and>
        (\<forall>r c k. r < m - kh + 1 \<longrightarrow> c < n - kw + 1 \<longrightarrow> k < B \<longrightarrow>
           elem (?fouts ! j) (c * (m - kh + 1) + r) k =
             sigmoid ((\<Sum>i\<leftarrow>[0..<nI]. convn_valid_at (?img i k) (K ! i ! j) r c) + b ! j) \<and>
           elem (?fouts ! j) (c * (m - kh + 1) + r) k =
             sigmoid ((\<Sum>i\<leftarrow>[0..<nI]. xcorr_valid_at (?img i k) (rot180 (K ! i ! j)) r c) + b ! j))"
      unfolding convn_valid_at_xcorr_rot180 [symmetric]
      using el unfolding nth by simp
  qed
  show ?thesis
    using ff len each by blast
qed

lemma example_image:
  "reshapeVectors2Images (example_fins ! 0) \<lparr>size_m = 1, size_n = 2\<rparr> ! 0 =
     \<lparr>rows = 1, cols = 2, data = [1, 0]\<rparr>"
  by (simp add: example_fins_def reshapeVectors2Images_def)

lemma example_conv_entry:
  "convn_valid_at \<lparr>rows = 1, cols = 2, data = [1, 0]\<rparr> \<lparr>rows = 1, cols = 2, data = [1, 2]\<rparr> 0 0 = 2"
  by (simp add: convn_valid_at_def elem_def upt2)

lemma example_xcorr_entry:
  "xcorr_valid_at \<lparr>rows = 1, cols = 2, data = [1, 0]\<rparr> \<lparr>rows = 1, cols = 2, data = [1, 2]\<rparr> 0 0 = 1"
  by (simp add: xcorr_valid_at_def elem_def upt2)

theorem ConvolutionalLayer_feedForward_convolution_witness:
  "\<exists>fouts. ConvolutionalLayer_feedForward example_conv example_fins = Inr fouts \<and>
     length fouts = 1 \<and> rows (fouts ! 0) = 1 \<and> cols (fouts ! 0) = 1 \<and>
     elem (fouts ! 0) 0 0 = sigmoid 2"
proof -
  have d: "\<forall>i<1. \<forall>j<1. rows ([[\<lparr>rows = 1, cols = 2, data = [1, 2]\<rparr>]] ! i ! j) = 1 \<and>
      cols ([[\<lparr>rows = 1, cols = 2, data = [1, 2::real]\<rparr>]] ! i ! j) = 2"
    by simp
  have f: "\<forall>i<1. wf_mat (example_fins ! i) \<and> rows (example_fins ! i) = 1 * 2 \<and>
      cols (example_fins ! i) = 1"
    by (simp add: example_fins_def wf_mat_def)
  have l: "length example_fins = 1" by (simp add: example_fins_def)
  have h: "(0::nat) < 1" "(1::nat) \<le> 1" "(1::nat) \<le> 2" "(2::nat) \<le> 2" by simp_all
  note T = ConvolutionalLayer_feedForward_convolution
    [OF h(1) h(1) h(1) h(2) h(2) h(3) h(4) d l f, of "[0]", folded example_conv_def]
  from T obtain fouts where
    A: "ConvolutionalLayer_feedForward example_conv example_fins = Inr fouts \<and>
     length fouts = 1 \<and>
     (\<forall>j<1.
        rows (fouts ! j) = (1 - 1 + 1) * (2 - 2 + 1) \<and> cols (fouts ! j) = 1 \<and>
        (\<forall>r c k. r < 1 - 1 + 1 \<longrightarrow> c < 2 - 2 + 1 \<longrightarrow> k < 1 \<longrightarrow>
           elem (fouts ! j) (c * (1 - 1 + 1) + r) k =
             sigmoid ((\<Sum>i\<leftarrow>[0..<1].
                         convn_valid_at
                           (reshapeVectors2Images (example_fins ! i) \<lparr>size_m = 1, size_n = 2\<rparr> ! k)
                           ([[\<lparr>rows = 1, cols = 2, data = [1, 2]\<rparr>]] ! i ! j) r c)
                      + [0] ! j) \<and>
           elem (fouts ! j) (c * (1 - 1 + 1) + r) k =
             sigmoid ((\<Sum>i\<leftarrow>[0..<1].
                         xcorr_valid_at
                           (reshapeVectors2Images (example_fins ! i) \<lparr>size_m = 1, size_n = 2\<rparr> ! k)
                           (rot180 ([[\<lparr>rows = 1, cols = 2, data = [1, 2]\<rparr>]] ! i ! j)) r c)
                      + [0] ! j)))" ..
  have r: "ConvolutionalLayer_feedForward example_conv example_fins = Inr fouts"
    by (rule conjunct1 [OF A])
  have n: "length fouts = 1"
    by (rule conjunct1 [OF conjunct2 [OF A]])
  have e: "\<forall>j<1.
        rows (fouts ! j) = (1 - 1 + 1) * (2 - 2 + 1) \<and> cols (fouts ! j) = 1 \<and>
        (\<forall>r c k. r < 1 - 1 + 1 \<longrightarrow> c < 2 - 2 + 1 \<longrightarrow> k < 1 \<longrightarrow>
           elem (fouts ! j) (c * (1 - 1 + 1) + r) k =
             sigmoid ((\<Sum>i\<leftarrow>[0..<1].
                         convn_valid_at
                           (reshapeVectors2Images (example_fins ! i) \<lparr>size_m = 1, size_n = 2\<rparr> ! k)
                           ([[\<lparr>rows = 1, cols = 2, data = [1, 2]\<rparr>]] ! i ! j) r c)
                      + [0] ! j) \<and>
           elem (fouts ! j) (c * (1 - 1 + 1) + r) k =
             sigmoid ((\<Sum>i\<leftarrow>[0..<1].
                         xcorr_valid_at
                           (reshapeVectors2Images (example_fins ! i) \<lparr>size_m = 1, size_n = 2\<rparr> ! k)
                           (rot180 ([[\<lparr>rows = 1, cols = 2, data = [1, 2]\<rparr>]] ! i ! j)) r c)
                      + [0] ! j))"
    by (rule conjunct2 [OF conjunct2 [OF A]])
  from e have e0: "rows (fouts ! 0) = (1 - 1 + 1) * (2 - 2 + 1) \<and> cols (fouts ! 0) = 1 \<and>
        (\<forall>r c k. r < 1 - 1 + 1 \<longrightarrow> c < 2 - 2 + 1 \<longrightarrow> k < 1 \<longrightarrow>
           elem (fouts ! 0) (c * (1 - 1 + 1) + r) k =
             sigmoid ((\<Sum>i\<leftarrow>[0..<1].
                         convn_valid_at
                           (reshapeVectors2Images (example_fins ! i) \<lparr>size_m = 1, size_n = 2\<rparr> ! k)
                           ([[\<lparr>rows = 1, cols = 2, data = [1, 2]\<rparr>]] ! i ! 0) r c)
                      + [0] ! 0) \<and>
           elem (fouts ! 0) (c * (1 - 1 + 1) + r) k =
             sigmoid ((\<Sum>i\<leftarrow>[0..<1].
                         xcorr_valid_at
                           (reshapeVectors2Images (example_fins ! i) \<lparr>size_m = 1, size_n = 2\<rparr> ! k)
                           (rot180 ([[\<lparr>rows = 1, cols = 2, data = [1, 2]\<rparr>]] ! i ! 0)) r c)
                      + [0] ! 0))"
    by (elim allE [of _ 0] impE) simp_all
  then have r0: "rows (fouts ! 0) = 1" and c0: "cols (fouts ! 0) = 1"
    by simp_all
  from e0 have el: "elem (fouts ! 0) (0 * (1 - 1 + 1) + 0) 0 =
             sigmoid ((\<Sum>i\<leftarrow>[0..<1].
                         convn_valid_at
                           (reshapeVectors2Images (example_fins ! i) \<lparr>size_m = 1, size_n = 2\<rparr> ! 0)
                           ([[\<lparr>rows = 1, cols = 2, data = [1, 2]\<rparr>]] ! i ! 0) 0 0)
                      + [0] ! 0)"
    by (elim conjE allE [of _ 0] impE) simp_all
  have "elem (fouts ! 0) 0 0 = sigmoid 2"
    using el by (simp add: upt1 example_image example_conv_entry del: One_nat_def)
  then show ?thesis
    using r n r0 c0 by blast
qed

text \<open>
  On the example the image is \<open>(1 0)\<close> and the kernel \<open>(1 2)\<close>: the convolution gives
  \<open>0 * 1 + 1 * 2 = 2\<close> and the layer returns \<open>sigmoid 2\<close>, where the cross-correlation
  of the claim gives \<open>1 * 1 + 0 * 2 = 1\<close> and \<open>sigmoid 1\<close>.
\<close>

theorem ConvolutionalLayer_feedForward_counterexample:
  "ConvolutionalLayer_feedForward example_conv example_fins =
     Inr [\<lparr>rows = 1, cols = 1, data = [sigmoid 2]\<rparr>] \<and>
   spec_feedForward_entry example_conv example_fins 0 0 0 0 = sigmoid 1 \<and>
   sigmoid 2 \<noteq> sigmoid 1"
proof -
  have d: "\<forall>i<1. \<forall>j<1. rows ([[\<lparr>rows = 1, cols = 2, data = [1, 2]\<rparr>]] ! i ! j) = 1 \<and>
      cols ([[\<lparr>rows = 1, cols = 2, data = [1, 2::real]\<rparr>]] ! i ! j) = 2"
    by simp
  have f: "\<forall>i<1. cols (example_fins ! i) = 1"
    by (simp add: example_fins_def)
  have l: "length example_fins = 1" by (simp add: example_fins_def)
  have h: "(0::nat) < 1" by simp
  note E = ConvolutionalLayer_feedForward_eq [OF h h h d l f, of 1 2 "[0]", folded example_conv_def]
  have m11: "\<And>g. mat_of 1 1 g = \<lparr>rows = 1, cols = 1, data = [g 0 0]\<rparr>"
    by (simp add: mat_of_def)
  have s1: "(1::nat) + 1 - 1 = 1" "(2::nat) + 1 - 2 = 1" "(1::nat) * 1 = 1" by simp_all
  have a1: "ConvolutionalLayer_feedForward example_conv example_fins =
     Inr [mat_of 1 1 (\<lambda>ix k. sigmoid
            ((\<Sum>i\<leftarrow>[0].
                convn_valid_at (reshapeVectors2Images (example_fins ! i) \<lparr>size_m = 1, size_n = 2\<rparr> ! k)
                  ([[\<lparr>rows = 1, cols = 2, data = [1, 2]\<rparr>]] ! i ! 0) (ix mod 1) (ix div 1))
             + [0] ! 0))]"
    unfolding E by (simp only: s1 upt1 list.map)
  have a: "ConvolutionalLayer_feedForward example_conv example_fins =
     Inr [\<lparr>rows = 1, cols = 1, data = [sigmoid 2]\<rparr>]"
    unfolding a1 m11
    by (simp add: example_image example_conv_entry del: One_nat_def)
  have b: "spec_feedForward_entry example_conv example_fins 0 0 0 0 = sigmoid 1"
    by (simp add: spec_feedForward_entry_def example_conv_def upt1 example_image
        example_xcorr_entry del: One_nat_def)
  have c: "sigmoid 2 \<noteq> sigmoid 1"
    by (simp add: sigmoid_inj)
  show ?thesis using a b c by blast
qed

subsection \<open>The backward pass of the convolutional layer\<close>

lemma local_delta_eq:
  assumes "rows fout = rows err" "cols fout = cols err"
  shows "local_delta fout err = Inr (sigmoid_delta fout err)"
proof -
  have "map2 (*) (map2 (*) (data fout) (map (\<lambda>x. 1 - x) (data fout))) (data err) =
      map (\<lambda>(f, e). f * (1 - f) * e) (zip (data fout) (data err))"
  proof -
    have "map2 (*) (data fout) (map (\<lambda>x. 1 - x) (data fout)) = map (\<lambda>f. f * (1 - f)) (data fout)"
      using map2_map_map [of "(*)" "\<lambda>x. x" "data fout" "\<lambda>x. 1 - x"] by simp
    then show ?thesis
      by (simp add: zip_map1 case_prod_unfold)
  qed
  then show ?thesis
    using assms by (simp add: local_delta_def hadamard_def mat_map_def sigmoid_delta_def)
qed

lemma collect_local_delta:
  assumes "\<forall>j<nO. rows (fouts ! j) = rows (errors ! j) \<and> cols (fouts ! j) = cols (errors ! j)"
  shows "collect (map (\<lambda>j. local_delta (fouts ! j) (errors ! j)) [0..<nO]) =
         Inr (map (\<lambda>j. sigmoid_delta (fouts ! j) (errors ! j)) [0..<nO])"
proof -
  have "map (\<lambda>j. local_delta (fouts ! j) (errors ! j)) [0..<nO] =
      map (\<lambda>j. Inr (sigmoid_delta (fouts ! j) (errors ! j))) [0..<nO]"
    by (rule map_cong [OF refl]) (simp add: local_delta_eq assms)
  then show ?thesis by (simp only: collect_map_Inr)
qed

lemma conv_fb_cell_set2:
  assumes "shape xs J B" "i < J" "k < B"
  shows "conv_fb_cell L oImgs k i xs =
     set2 xs i k
       (fold (\<lambda>j a. mat_add a (convn_full (oImgs ! j ! k) (rot180 (kernels L ! i ! j))))
          [0..<getNumOutputMaps L]
          (zeros (size_m (get_input_img_size L)) (size_n (get_input_img_size L))))"
proof -
  let ?Z = "zeros (size_m (get_input_img_size L)) (size_n (get_input_img_size L))"
  let ?xs1 = "set2 xs i k ?Z"
  have i: "i < length xs" and k: "k < length (xs ! i)"
    using assms by (simp_all add: shape_def)
  have i1: "i < length ?xs1" and k1: "k < length (?xs1 ! i)" using i k by simp_all
  let ?F = "\<lambda>j a. mat_add a (convn_full (oImgs ! j ! k) (rot180 (kernels L ! i ! j)))"
  have "fold (\<lambda>j xs. set2 xs i k (?F j (xs ! i ! k))) [0..<getNumOutputMaps L] ?xs1 =
      set2 ?xs1 i k (fold ?F [0..<getNumOutputMaps L] (?xs1 ! i ! k))"
    by (rule fold_set2_acc [OF i1 k1])
  then show ?thesis
    unfolding conv_fb_cell_def Let_def
    by (simp add: set2_same [OF i k] set2_overwrite)
qed

lemma convn_full_reshaped:
  assumes "k < cols x" "rows kern = kh" "cols kern = kw"
  shows "convn_full (reshapeVectors2Images x \<lparr>size_m = sm, size_n = sn\<rparr> ! k) (rot180 kern) =
     mat_of (sm + kh - 1) (sn + kw - 1)
       (convn_full_at (reshapeVectors2Images x \<lparr>size_m = sm, size_n = sn\<rparr> ! k) (rot180 kern))"
  using rows_reshapeVectors2Images [OF assms(1), of "\<lparr>size_m = sm, size_n = sn\<rparr>"] assms(2,3)
  by (simp add: convn_full_def)

lemma ConvolutionalLayer_feedBackward_eq:
  assumes pos: "0 < nI" "0 < nO" "0 < B"
    and fit: "1 \<le> kh" "kh \<le> m" "1 \<le> kw" "kw \<le> n"
    and dims: "\<forall>i<nI. \<forall>j<nO. rows (K ! i ! j) = kh \<and> cols (K ! i ! j) = kw"
    and len: "length deltas = nO"
    and dl: "\<forall>j<nO. cols (deltas ! j) = B"
  shows "ConvolutionalLayer_feedBackward (ConvolutionalLayer nI nO \<lparr>size_m = m, size_n = n\<rparr> K b) deltas =
     map (\<lambda>i. mat_of (m * n) B
            (\<lambda>ix k. \<Sum>j\<leftarrow>[0..<nO].
                convn_full_at
                  (reshapeVectors2Images (deltas ! j) \<lparr>size_m = m - kh + 1, size_n = n - kw + 1\<rparr> ! k)
                  (rot180 (K ! i ! j)) (ix mod m) (ix div m)))
       [0..<nI]"
proof -
  let ?L = "ConvolutionalLayer nI nO \<lparr>size_m = m, size_n = n\<rparr> K b"
  define sm where "sm = m - kh + 1"
  define sn where "sn = n - kw + 1"
  let ?oImgs = "map (\<lambda>j. reshapeVectors2Images (deltas ! j) \<lparr>size_m = sm, size_n = sn\<rparr>) [0..<nO]"
  let ?img = "\<lambda>j k. reshapeVectors2Images (deltas ! j) \<lparr>size_m = sm, size_n = sn\<rparr> ! k"
  let ?i0 = "replicate nI (replicate B (zeros 0 0))"
  have k00: "rows (K ! 0 ! 0) = kh" "cols (K ! 0 ! 0) = kw"
    using dims pos by simp_all
  have b0: "cols (deltas ! 0) = B" using dl pos by simp
  have os: "get_output_img_size ?L = \<lparr>size_m = sm, size_n = sn\<rparr>"
    using fit by (simp add: k00 sm_def sn_def Suc_diff_le)
  have bk: "sm + kh - 1 = m" "sn + kw - 1 = n"
    using fit by (simp_all add: sm_def sn_def)
  have sh: "shape ?i0 nI B" by (simp add: shape_def)
  have cell: "\<And>i k. i < nI \<Longrightarrow> k < B \<Longrightarrow>
      fold (\<lambda>j a. mat_add a (convn_full (?oImgs ! j ! k) (rot180 (K ! i ! j)))) [0..<nO] (zeros m n) =
      mat_of m n (\<lambda>r c. \<Sum>j\<leftarrow>[0..<nO]. convn_full_at (?img j k) (rot180 (K ! i ! j)) r c)"
  proof -
    fix i k assume i: "i < nI" and k: "k < B"
    have "\<And>j. j < nO \<Longrightarrow>
        (\<lambda>a. mat_add a (convn_full (?oImgs ! j ! k) (rot180 (K ! i ! j)))) =
        (\<lambda>a. mat_add a (mat_of m n (convn_full_at (?img j k) (rot180 (K ! i ! j)))))"
    proof -
      fix j assume j: "j < nO"
      have kc: "k < cols (deltas ! j)" using dl j k by simp
      have "convn_full (?img j k) (rot180 (K ! i ! j)) =
          mat_of m n (convn_full_at (?img j k) (rot180 (K ! i ! j)))"
        using convn_full_reshaped [OF kc, of "K ! i ! j" kh kw sm sn] dims i j
        by (simp only: bk)
      then show "(\<lambda>a. mat_add a (convn_full (?oImgs ! j ! k) (rot180 (K ! i ! j)))) =
        (\<lambda>a. mat_add a (mat_of m n (convn_full_at (?img j k) (rot180 (K ! i ! j)))))"
        using j by simp
    qed
    then have "fold (\<lambda>j a. mat_add a (convn_full (?oImgs ! j ! k) (rot180 (K ! i ! j)))) [0..<nO]
          (mat_of m n (\<lambda>r c. 0)) =
        fold (\<lambda>j a. mat_add a (mat_of m n (convn_full_at (?img j k) (rot180 (K ! i ! j))))) [0..<nO]
          (mat_of m n (\<lambda>r c. 0))"
      by (rule fold_cong_upt)
    also have "\<dots> = mat_of m n (\<lambda>r c. 0 + (\<Sum>j\<leftarrow>[0..<nO]. convn_full_at (?img j k) (rot180 (K ! i ! j)) r c))"
      by (rule fold_mat_add_mat_of)
    finally show "fold (\<lambda>j a. mat_add a (convn_full (?oImgs ! j ! k) (rot180 (K ! i ! j)))) [0..<nO] (zeros m n) =
      mat_of m n (\<lambda>r c. \<Sum>j\<leftarrow>[0..<nO]. convn_full_at (?img j k) (rot180 (K ! i ! j)) r c)"
      by (simp add: zeros_mat_of)
  qed
  have loops: "fold (\<lambda>k iImgs. fold (\<lambda>i iImgs. conv_fb_cell ?L ?oImgs k i iImgs) [0..<nI] iImgs)
        [0..<B] ?i0 =
      map (\<lambda>i. map (\<lambda>k. mat_of m n
          (\<lambda>r c. \<Sum>j\<leftarrow>[0..<nO]. convn_full_at (?img j k) (rot180 (K ! i ! j)) r c)) [0..<B]) [0..<nI]"
  proof -
    have "fold (\<lambda>k iImgs. fold (conv_fb_cell ?L ?oImgs k) [0..<nI] iImgs) [0..<B] ?i0 =
        map (\<lambda>i. map (\<lambda>k. if k < B then
            fold (\<lambda>j a. mat_add a (convn_full (?oImgs ! j ! k) (rot180 (K ! i ! j)))) [0..<nO] (zeros m n)
            else ?i0 ! i ! k) [0..<B]) [0..<nI]"
      by (rule fold_cells [OF sh _ order_refl]) (simp add: conv_fb_cell_set2)
    also have "\<dots> = map (\<lambda>i. map (\<lambda>k. mat_of m n
          (\<lambda>r c. \<Sum>j\<leftarrow>[0..<nO]. convn_full_at (?img j k) (rot180 (K ! i ! j)) r c)) [0..<B]) [0..<nI]"
      by (rule map_cong [OF refl], rule map_cong [OF refl]) (simp add: cell)
    finally show ?thesis .
  qed
  have out: "\<And>i. i < nI \<Longrightarrow>
      reshapeImages2Vectors (fold (\<lambda>k iImgs. fold (\<lambda>i iImgs. conv_fb_cell ?L ?oImgs k i iImgs) [0..<nI] iImgs)
        [0..<B] ?i0 ! i) =
      mat_of (m * n) B
            (\<lambda>ix k. \<Sum>j\<leftarrow>[0..<nO]. convn_full_at (?img j k) (rot180 (K ! i ! j)) (ix mod m) (ix div m))"
    unfolding loops using reshapeImages2Vectors_mat_of [OF pos(3)] by simp
  have "ConvolutionalLayer_feedBackward ?L deltas =
      map (\<lambda>i. reshapeImages2Vectors
        (fold (\<lambda>k iImgs. fold (\<lambda>i iImgs. conv_fb_cell ?L ?oImgs k i iImgs) [0..<nI] iImgs)
          [0..<B] ?i0 ! i)) [0..<nI]"
    unfolding ConvolutionalLayer_feedBackward_def Let_def os
    using b0 by (simp del: get_output_img_size.simps)
  also have "\<dots> = map (\<lambda>i. mat_of (m * n) B
            (\<lambda>ix k. \<Sum>j\<leftarrow>[0..<nO]. convn_full_at (?img j k) (rot180 (K ! i ! j)) (ix mod m) (ix div m)))
       [0..<nI]"
    by (rule map_cong [OF refl], rule out) simp
  finally show ?thesis
    unfolding sm_def sn_def .
qed

lemma map_nth_upt: "length b = J \<Longrightarrow> map (\<lambda>j. b ! j) [0..<J] = b"
  by (metis map_nth)

lemma shape_id: "shape xs I J \<Longrightarrow> map (\<lambda>i. map (\<lambda>j. xs ! i ! j) [0..<J]) [0..<I] = xs"
  by (auto simp: shape_def intro!: nth_equalityI)

lemma conv_update_cell_eq:
  assumes sh: "shape ks nI nO" and j: "j < nO"
  shows "conv_update_cell nI iImgs oImgs lr k j (ks, b) =
     (map (\<lambda>i. (ks ! i)[j := mat_sub (ks ! i ! j)
                      (mat_scale (convn_valid (rot180 (iImgs ! i ! k)) (oImgs ! j ! k)) lr)])
        [0..<nI],
      b[j := b ! j - sum_all (oImgs ! j ! k) * lr])"
proof -
  let ?G = "\<lambda>i a. mat_sub a (mat_scale (convn_valid (rot180 (iImgs ! i ! k)) (oImgs ! j ! k)) lr)"
  have "fold (\<lambda>i ks. set2 ks i j (?G i (ks ! i ! j))) [0..<nI] ks =
      map (\<lambda>i. if i < nI then (ks ! i)[j := ?G i (ks ! i ! j)] else ks ! i) [0..<nI]"
    by (rule fold_first_index [OF sh j order_refl]) (rule refl)
  also have "\<dots> = map (\<lambda>i. (ks ! i)[j := ?G i (ks ! i ! j)]) [0..<nI]"
    by (rule map_cong [OF refl]) simp
  finally show ?thesis
    by (simp add: conv_update_cell_def Let_def)
qed

lemma fold_pair_cols:
  assumes sh: "shape ks I J" and lb: "length b = J" and J': "J' \<le> J"
    and cell: "\<And>ks b j. shape ks I J \<Longrightarrow> length b = J \<Longrightarrow> j < J \<Longrightarrow>
        C j (ks, b) = (map (\<lambda>i. (ks ! i)[j := U i j (ks ! i ! j)]) [0..<I], b[j := V j (b ! j)])"
  shows "fold C [0..<J'] (ks, b) =
     (map (\<lambda>i. map (\<lambda>j. if j < J' then U i j (ks ! i ! j) else ks ! i ! j) [0..<J]) [0..<I],
      map (\<lambda>j. if j < J' then V j (b ! j) else b ! j) [0..<J])"
  using J'
proof (induction J')
  case 0
  show ?case using sh lb by (simp add: shape_id map_nth_upt)
next
  case (Suc J')
  let ?ks = "map (\<lambda>i. map (\<lambda>j. if j < J' then U i j (ks ! i ! j) else ks ! i ! j) [0..<J]) [0..<I]"
  let ?b = "map (\<lambda>j. if j < J' then V j (b ! j) else b ! j) [0..<J]"
  from Suc.prems have lt: "J' < J" by simp
  have prev: "fold C [0..<J'] (ks, b) = (?ks, ?b)" using Suc.IH lt by simp
  have shp: "shape ?ks I J" by (simp add: shape_def)
  have lbp: "length ?b = J" by simp
  have "fold C [0..<Suc J'] (ks, b) = C J' (?ks, ?b)" by (simp add: prev)
  also have "\<dots> = (map (\<lambda>i. (?ks ! i)[J' := U i J' (?ks ! i ! J')]) [0..<I], ?b[J' := V J' (?b ! J')])"
    by (rule cell [OF shp lbp lt])
  also have "map (\<lambda>i. (?ks ! i)[J' := U i J' (?ks ! i ! J')]) [0..<I] =
      map (\<lambda>i. map (\<lambda>j. if j < Suc J' then U i j (ks ! i ! j) else ks ! i ! j) [0..<J]) [0..<I]"
    using lt by (auto simp: less_Suc_eq nth_list_update intro!: nth_equalityI)
  also have "?b[J' := V J' (?b ! J')] = map (\<lambda>j. if j < Suc J' then V j (b ! j) else b ! j) [0..<J]"
    using lt by (auto simp: less_Suc_eq nth_list_update intro!: nth_equalityI)
  finally show ?case .
qed

lemma fold_pair_batches:
  assumes sh: "shape ks I J" and lb: "length b = J"
    and row: "\<And>ks b k. shape ks I J \<Longrightarrow> length b = J \<Longrightarrow>
        R k (ks, b) = (map (\<lambda>i. map (\<lambda>j. U k i j (ks ! i ! j)) [0..<J]) [0..<I],
                       map (\<lambda>j. V k j (b ! j)) [0..<J])"
  shows "fold R [0..<B'] (ks, b) =
     (map (\<lambda>i. map (\<lambda>j. fold (\<lambda>k. U k i j) [0..<B'] (ks ! i ! j)) [0..<J]) [0..<I],
      map (\<lambda>j. fold (\<lambda>k. V k j) [0..<B'] (b ! j)) [0..<J])"
proof (induction B')
  case 0
  show ?case using sh lb by (simp add: shape_id map_nth_upt)
next
  case (Suc B')
  let ?ks = "map (\<lambda>i. map (\<lambda>j. fold (\<lambda>k. U k i j) [0..<B'] (ks ! i ! j)) [0..<J]) [0..<I]"
  let ?b = "map (\<lambda>j. fold (\<lambda>k. V k j) [0..<B'] (b ! j)) [0..<J]"
  have shp: "shape ?ks I J" by (simp add: shape_def)
  have lbp: "length ?b = J" by simp
  have "fold R [0..<Suc B'] (ks, b) = R B' (?ks, ?b)" by (simp add: Suc.IH)
  also have "\<dots> = (map (\<lambda>i. map (\<lambda>j. U B' i j (?ks ! i ! j)) [0..<J]) [0..<I],
                       map (\<lambda>j. V B' j (?b ! j)) [0..<J])"
    by (rule row [OF shp lbp])
  also have "map (\<lambda>i. map (\<lambda>j. U B' i j (?ks ! i ! j)) [0..<J]) [0..<I] =
      map (\<lambda>i. map (\<lambda>j. fold (\<lambda>k. U k i j) [0..<Suc B'] (ks ! i ! j)) [0..<J]) [0..<I]"
    by (auto intro!: nth_equalityI)
  also have "map (\<lambda>j. V B' j (?b ! j)) [0..<J] =
      map (\<lambda>j. fold (\<lambda>k. V k j) [0..<Suc B'] (b ! j)) [0..<J]"
    by (auto intro!: nth_equalityI)
  finally show ?case .
qed

lemma conv_update_loops_eq:
  assumes sh: "shape ks nI nO" and lb: "length b = nO"
  shows "conv_update_loops nI nO iImgs oImgs lr B (ks, b) =
     (map (\<lambda>i. map (\<lambda>j.
         fold (\<lambda>k a. mat_sub a (mat_scale (convn_valid (rot180 (iImgs ! i ! k)) (oImgs ! j ! k)) lr))
           [0..<B] (ks ! i ! j)) [0..<nO]) [0..<nI],
      map (\<lambda>j. fold (\<lambda>k x. x - sum_all (oImgs ! j ! k) * lr) [0..<B] (b ! j)) [0..<nO])"
  unfolding conv_update_loops_def
proof (rule fold_pair_batches [OF sh lb])
  fix ks :: "mat list list" and b :: "real list" and k
  assume sh': "shape ks nI nO" and lb': "length b = nO"
  have "fold (conv_update_cell nI iImgs oImgs lr k) [0..<nO] (ks, b) =
      (map (\<lambda>i. map (\<lambda>j. if j < nO
          then mat_sub (ks ! i ! j) (mat_scale (convn_valid (rot180 (iImgs ! i ! k)) (oImgs ! j ! k)) lr)
          else ks ! i ! j) [0..<nO]) [0..<nI],
       map (\<lambda>j. if j < nO then b ! j - sum_all (oImgs ! j ! k) * lr else b ! j) [0..<nO])"
    by (rule fold_pair_cols [OF sh' lb' order_refl]) (rule conv_update_cell_eq)
  also have "\<dots> =
      (map (\<lambda>i. map (\<lambda>j.
          mat_sub (ks ! i ! j) (mat_scale (convn_valid (rot180 (iImgs ! i ! k)) (oImgs ! j ! k)) lr))
          [0..<nO]) [0..<nI],
       map (\<lambda>j. b ! j - sum_all (oImgs ! j ! k) * lr) [0..<nO])"
    by (auto intro!: nth_equalityI)
  finally show "fold (\<lambda>j kb. conv_update_cell nI iImgs oImgs lr k j kb) [0..<nO] (ks, b) =
      (map (\<lambda>i. map (\<lambda>j.
          mat_sub (ks ! i ! j) (mat_scale (convn_valid (rot180 (iImgs ! i ! k)) (oImgs ! j ! k)) lr))
          [0..<nO]) [0..<nI],
       map (\<lambda>j. b ! j - sum_all (oImgs ! j ! k) * lr) [0..<nO])" .
qed

lemma mat_sub_scale_mat_of:
  "mat_sub (mat_of h w f) (mat_scale (mat_of h w g) lr) = mat_of h w (\<lambda>p q. f p q - lr * g p q)"
  by (simp add: mat_scale_def mat_map_mat_of mat_sub_mat_of mult.commute)

lemma fold_mat_sub_scale_mat_of:
  "fold (\<lambda>k a. mat_sub a (mat_scale (mat_of h w (g k)) lr)) ks (mat_of h w f0) =
   mat_of h w (\<lambda>p q. f0 p q - lr * (\<Sum>k\<leftarrow>ks. g k p q))"
proof (induction ks arbitrary: f0)
  case Nil
  show ?case by simp
next
  case (Cons k ks)
  have "fold (\<lambda>k a. mat_sub a (mat_scale (mat_of h w (g k)) lr)) (k # ks) (mat_of h w f0) =
      mat_of h w (\<lambda>p q. (f0 p q - lr * g k p q) - lr * (\<Sum>k\<leftarrow>ks. g k p q))"
    by (simp only: fold_Cons comp_apply mat_sub_scale_mat_of Cons.IH)
  also have "\<dots> = mat_of h w (\<lambda>p q. f0 p q - lr * (\<Sum>k\<leftarrow>k # ks. g k p q))"
    by (rule mat_of_cong) (simp add: algebra_simps)
  finally show ?case .
qed

lemma fold_sub_scale:
  "fold (\<lambda>k x. x - d k * lr) ks (x0::real) = x0 - lr * (\<Sum>k\<leftarrow>ks. d k)"
  by (induction ks arbitrary: x0) (simp_all add: algebra_simps)

lemma convn_valid_rot180_reshaped:
  assumes "k < cols x" "k < cols d" "1 \<le> kh" "kh \<le> m" "1 \<le> kw" "kw \<le> n"
  shows "convn_valid (rot180 (reshapeVectors2Images x \<lparr>size_m = m, size_n = n\<rparr> ! k))
           (reshapeVectors2Images d \<lparr>size_m = m - kh + 1, size_n = n - kw + 1\<rparr> ! k) =
     mat_of kh kw
       (convn_valid_at (rot180 (reshapeVectors2Images x \<lparr>size_m = m, size_n = n\<rparr> ! k))
           (reshapeVectors2Images d \<lparr>size_m = m - kh + 1, size_n = n - kw + 1\<rparr> ! k))"
proof -
  have a: "m + 1 - (m - kh + 1) = kh" "n + 1 - (n - kw + 1) = kw"
    "m - (m - kh) = kh" "n - (n - kw) = kw"
    using assms(3-6) by simp_all
  show ?thesis
    using rows_reshapeVectors2Images [OF assms(1), of "\<lparr>size_m = m, size_n = n\<rparr>"]
      rows_reshapeVectors2Images [OF assms(2), of "\<lparr>size_m = m - kh + 1, size_n = n - kw + 1\<rparr>"]
    by (simp add: convn_valid_def a del: One_nat_def)
qed

lemma ConvolutionalLayer_backPropagate_eq:
  assumes pos: "0 < nI" "0 < nO" "0 < B"
    and fit: "1 \<le> kh" "kh \<le> m" "1 \<le> kw" "kw \<le> n"
    and dims: "\<forall>i<nI. \<forall>j<nO. wf_mat (K ! i ! j) \<and> rows (K ! i ! j) = kh \<and> cols (K ! i ! j) = kw"
    and sh: "shape K nI nO" and lb: "length b = nO"
    and fins: "\<forall>i<nI. cols (fins ! i) = B"
    and fe: "\<forall>j<nO. rows (fouts ! j) = rows (errors ! j) \<and> cols (fouts ! j) = cols (errors ! j) \<and>
               cols (fouts ! j) = B"
    and lr: "0 < lr"
  shows "ConvolutionalLayer_backPropagate
           (ConvolutionalLayer nI nO \<lparr>size_m = m, size_n = n\<rparr> K b) errors fins fouts lr =
     Inr (ConvolutionalLayer nI nO \<lparr>size_m = m, size_n = n\<rparr>
            (map (\<lambda>i. map (\<lambda>j. mat_of kh kw (\<lambda>p q. elem (K ! i ! j) p q - (lr / real B) *
                 (\<Sum>k\<leftarrow>[0..<B]. convn_valid_at
                     (rot180 (reshapeVectors2Images (fins ! i) \<lparr>size_m = m, size_n = n\<rparr> ! k))
                     (reshapeVectors2Images (sigmoid_delta (fouts ! j) (errors ! j))
                        \<lparr>size_m = m - kh + 1, size_n = n - kw + 1\<rparr> ! k) p q)))
               [0..<nO]) [0..<nI])
            (map (\<lambda>j. b ! j - (lr / real B) *
                 (\<Sum>k\<leftarrow>[0..<B]. sum_all
                     (reshapeVectors2Images (sigmoid_delta (fouts ! j) (errors ! j))
                        \<lparr>size_m = m - kh + 1, size_n = n - kw + 1\<rparr> ! k)))
               [0..<nO]),
          ConvolutionalLayer_feedBackward
            (ConvolutionalLayer nI nO \<lparr>size_m = m, size_n = n\<rparr> K b)
            (map (\<lambda>j. sigmoid_delta (fouts ! j) (errors ! j)) [0..<nO]))"
proof -
  let ?L = "ConvolutionalLayer nI nO \<lparr>size_m = m, size_n = n\<rparr> K b"
  define deltas where "deltas = map (\<lambda>j. sigmoid_delta (fouts ! j) (errors ! j)) [0..<nO]"
  define lr' where "lr' = lr / real B"
  define S where "S = \<lparr>size_m = m - kh + 1, size_n = n - kw + 1\<rparr>"
  define iImgs where "iImgs = map (\<lambda>i. reshapeVectors2Images (fins ! i) \<lparr>size_m = m, size_n = n\<rparr>) [0..<nI]"
  define oImgs where "oImgs = map (\<lambda>j. reshapeVectors2Images (deltas ! j) S) [0..<nO]"
  have k00: "rows (K ! 0 ! 0) = kh" "cols (K ! 0 ! 0) = kw"
    using dims pos by simp_all
  have os: "get_output_img_size ?L = S"
    using fit by (simp add: k00 S_def Suc_diff_le)
  have b0: "cols (fins ! 0) = B" using fins pos by simp
  have col: "collect (map (\<lambda>j. local_delta (fouts ! j) (errors ! j)) [0..<nO]) = Inr deltas"
    unfolding deltas_def by (rule collect_local_delta) (use fe in blast)
  have dj: "\<And>j. j < nO \<Longrightarrow> deltas ! j = sigmoid_delta (fouts ! j) (errors ! j)"
    by (simp add: deltas_def)
  have dc: "\<And>j. j < nO \<Longrightarrow> cols (deltas ! j) = B"
  proof -
    fix j assume j: "j < nO"
    with fe have "cols (fouts ! j) = B" by blast
    then show "cols (deltas ! j) = B" by (simp add: dj [OF j] sigmoid_delta_def)
  qed
  have U: "\<And>i j. i < nI \<Longrightarrow> j < nO \<Longrightarrow>
      fold (\<lambda>k a. mat_sub a (mat_scale (convn_valid (rot180 (iImgs ! i ! k)) (oImgs ! j ! k)) lr'))
           [0..<B] (K ! i ! j) =
      mat_of kh kw (\<lambda>p q. elem (K ! i ! j) p q - lr' *
         (\<Sum>k\<leftarrow>[0..<B]. convn_valid_at
             (rot180 (reshapeVectors2Images (fins ! i) \<lparr>size_m = m, size_n = n\<rparr> ! k))
             (reshapeVectors2Images (deltas ! j) S ! k) p q))"
  proof -
    fix i j assume i: "i < nI" and j: "j < nO"
    let ?g = "\<lambda>k. convn_valid_at
             (rot180 (reshapeVectors2Images (fins ! i) \<lparr>size_m = m, size_n = n\<rparr> ! k))
             (reshapeVectors2Images (deltas ! j) S ! k)"
    have Kij: "K ! i ! j = mat_of kh kw (elem (K ! i ! j))"
      using mat_as_mat_of [of "K ! i ! j"] dims i j by simp
    have "\<And>k. k < B \<Longrightarrow>
        (\<lambda>a. mat_sub a (mat_scale (convn_valid (rot180 (iImgs ! i ! k)) (oImgs ! j ! k)) lr')) =
        (\<lambda>a. mat_sub a (mat_scale (mat_of kh kw (?g k)) lr'))"
    proof -
      fix k assume k: "k < B"
      have kx: "k < cols (fins ! i)" using fins i k by simp
      have kd: "k < cols (deltas ! j)" using dc [OF j] k by simp
      have "convn_valid (rot180 (iImgs ! i ! k)) (oImgs ! j ! k) = mat_of kh kw (?g k)"
        using convn_valid_rot180_reshaped [OF kx kd fit] i j
        by (simp add: iImgs_def oImgs_def S_def)
      then show "(\<lambda>a. mat_sub a (mat_scale (convn_valid (rot180 (iImgs ! i ! k)) (oImgs ! j ! k)) lr')) =
        (\<lambda>a. mat_sub a (mat_scale (mat_of kh kw (?g k)) lr'))"
        by simp
    qed
    then have "fold (\<lambda>k a. mat_sub a (mat_scale (convn_valid (rot180 (iImgs ! i ! k)) (oImgs ! j ! k)) lr'))
           [0..<B] (mat_of kh kw (elem (K ! i ! j))) =
        fold (\<lambda>k a. mat_sub a (mat_scale (mat_of kh kw (?g k)) lr'))
           [0..<B] (mat_of kh kw (elem (K ! i ! j)))"
      by (rule fold_cong_upt)
    also have "\<dots> = mat_of kh kw (\<lambda>p q. elem (K ! i ! j) p q - lr' * (\<Sum>k\<leftarrow>[0..<B]. ?g k p q))"
      by (rule fold_mat_sub_scale_mat_of)
    finally show "fold (\<lambda>k a. mat_sub a (mat_scale (convn_valid (rot180 (iImgs ! i ! k)) (oImgs ! j ! k)) lr'))
           [0..<B] (K ! i ! j) =
      mat_of kh kw (\<lambda>p q. elem (K ! i ! j) p q - lr' * (\<Sum>k\<leftarrow>[0..<B]. ?g k p q))"
      using Kij by simp
  qed
  have V: "\<And>j. j < nO \<Longrightarrow>
      fold (\<lambda>k x. x - sum_all (oImgs ! j ! k) * lr') [0..<B] (b ! j) =
      b ! j - lr' * (\<Sum>k\<leftarrow>[0..<B]. sum_all (reshapeVectors2Images (deltas ! j) S ! k))"
    by (simp add: fold_sub_scale oImgs_def)
  have loops: "conv_update_loops nI nO iImgs oImgs lr' B (K, b) =
     (map (\<lambda>i. map (\<lambda>j. mat_of kh kw (\<lambda>p q. elem (K ! i ! j) p q - lr' *
         (\<Sum>k\<leftarrow>[0..<B]. convn_valid_at
             (rot180 (reshapeVectors2Images (fins ! i) \<lparr>size_m = m, size_n = n\<rparr> ! k))
             (reshapeVectors2Images (deltas ! j) S ! k) p q))) [0..<nO]) [0..<nI],
      map (\<lambda>j. b ! j - lr' *
         (\<Sum>k\<leftarrow>[0..<B]. sum_all (reshapeVectors2Images (deltas ! j) S ! k))) [0..<nO])"
    unfolding conv_update_loops_eq [OF sh lb]
    by (auto intro!: map_cong [OF refl] simp: U V)
  have "ConvolutionalLayer_backPropagate ?L errors fins fouts lr =
      Inr (ConvolutionalLayer nI nO \<lparr>size_m = m, size_n = n\<rparr>
             (fst (conv_update_loops nI nO iImgs oImgs lr' B (K, b)))
             (snd (conv_update_loops nI nO iImgs oImgs lr' B (K, b))),
           ConvolutionalLayer_feedBackward ?L deltas)"
    unfolding ConvolutionalLayer_backPropagate_def Let_def os
    using lr by (simp del: get_output_img_size.simps
        add: col b0 iImgs_def oImgs_def lr'_def)
  also have "\<dots> = Inr (ConvolutionalLayer nI nO \<lparr>size_m = m, size_n = n\<rparr>
            (map (\<lambda>i. map (\<lambda>j. mat_of kh kw (\<lambda>p q. elem (K ! i ! j) p q - lr' *
                 (\<Sum>k\<leftarrow>[0..<B]. convn_valid_at
                     (rot180 (reshapeVectors2Images (fins ! i) \<lparr>size_m = m, size_n = n\<rparr> ! k))
                     (reshapeVectors2Images (sigmoid_delta (fouts ! j) (errors ! j)) S ! k) p q)))
               [0..<nO]) [0..<nI])
            (map (\<lambda>j. b ! j - lr' *
                 (\<Sum>k\<leftarrow>[0..<B]. sum_all
                     (reshapeVectors2Images (sigmoid_delta (fouts ! j) (errors ! j)) S ! k)))
               [0..<nO]),
          ConvolutionalLayer_feedBackward ?L deltas)"
    unfolding loops by (auto intro!: map_cong [OF refl] simp: dj)
  finally show ?thesis
    unfolding deltas_def lr'_def S_def .
qed

text \<open>
  C2 (as amended). For a convolutional layer whose kernels are well-formed, share one
  size and fit the input image, on matrices of matching shapes and with a positive learning
  rate, \<^verbatim>\<open>backPropagate\<close> first forms the local delta
  \<open>fout \<odot> (1 - fout) \<odot> error\<close> of every output map. It overwrites the errors with one
  matrix per input map, whose image for sample \<open>k\<close> is the sum over the output maps of the
  full-mode convolution of the delta image with the kernel rotated by 180 degrees, taken
  with the kernels as they were before the update. The new \<open>kernel[i][j]\<close> is the old one
  less \<open>learning_rate / batch_size\<close> times the sum over the batch of the valid-mode
  convolution of the rotated input image with the delta image, and the new \<open>bias[j]\<close> is
  the old one less \<open>learning_rate / batch_size\<close> times the sum over the batch of all
  entries of the delta image.
\<close>

theorem ConvolutionalLayer_backPropagate_fused:
  assumes "0 < nI" "0 < nO" "0 < B" "1 \<le> kh" "kh \<le> m" "1 \<le> kw" "kw \<le> n"
    and "\<forall>i<nI. \<forall>j<nO. wf_mat (K ! i ! j) \<and> rows (K ! i ! j) = kh \<and> cols (K ! i ! j) = kw"
    and "shape K nI nO" and "length b = nO"
    and "\<forall>i<nI. wf_mat (fins ! i) \<and> rows (fins ! i) = m * n \<and> cols (fins ! i) = B"
    and "\<forall>j<nO. wf_mat (fouts ! j) \<and> wf_mat (errors ! j) \<and>
           rows (fouts ! j) = (m - kh + 1) * (n - kw + 1) \<and>
           rows (errors ! j) = (m - kh + 1) * (n - kw + 1) \<and>
           cols (fouts ! j) = B \<and> cols (errors ! j) = B"
    and "0 < lr"
  shows "\<exists>K' b' errors'.
     ConvolutionalLayer_backPropagate
       (ConvolutionalLayer nI nO \<lparr>size_m = m, size_n = n\<rparr> K b) errors fins fouts lr =
       Inr (ConvolutionalLayer nI nO \<lparr>size_m = m, size_n = n\<rparr> K' b', errors') \<and>
     length errors' = nI \<and> length K' = nI \<and> length b' = nO \<and>
     (\<forall>i<nI.
        rows (errors' ! i) = m * n \<and> cols (errors' ! i) = B \<and>
        (\<forall>r c k. r < m \<longrightarrow> c < n \<longrightarrow> k < B \<longrightarrow>
           elem (errors' ! i) (c * m + r) k =
             (\<Sum>j\<leftarrow>[0..<nO].
                convn_full_at
                  (reshapeVectors2Images (sigmoid_delta (fouts ! j) (errors ! j))
                     \<lparr>size_m = m - kh + 1, size_n = n - kw + 1\<rparr> ! k)
                  (rot180 (K ! i ! j)) r c))) \<and>
     (\<forall>i<nI. \<forall>j<nO.
        rows (K' ! i ! j) = kh \<and> cols (K' ! i ! j) = kw \<and>
        (\<forall>p q. p < kh \<longrightarrow> q < kw \<longrightarrow>
           elem (K' ! i ! j) p q =
             elem (K ! i ! j) p q - (lr / real B) *
               (\<Sum>k\<leftarrow>[0..<B].
                  convn_valid_at
                    (rot180 (reshapeVectors2Images (fins ! i) \<lparr>size_m = m, size_n = n\<rparr> ! k))
                    (reshapeVectors2Images (sigmoid_delta (fouts ! j) (errors ! j))
                       \<lparr>size_m = m - kh + 1, size_n = n - kw + 1\<rparr> ! k) p q))) \<and>
     (\<forall>j<nO.
        b' ! j = b ! j - (lr / real B) *
          (\<Sum>k\<leftarrow>[0..<B].
             sum_all (reshapeVectors2Images (sigmoid_delta (fouts ! j) (errors ! j))
                        \<lparr>size_m = m - kh + 1, size_n = n - kw + 1\<rparr> ! k)))"
proof -
  let ?L = "ConvolutionalLayer nI nO \<lparr>size_m = m, size_n = n\<rparr> K b"
  let ?S = "\<lparr>size_m = m - kh + 1, size_n = n - kw + 1\<rparr>"
  let ?dimg = "\<lambda>j k. reshapeVectors2Images (sigmoid_delta (fouts ! j) (errors ! j)) ?S ! k"
  let ?img = "\<lambda>i k. reshapeVectors2Images (fins ! i) \<lparr>size_m = m, size_n = n\<rparr> ! k"
  let ?deltas = "map (\<lambda>j. sigmoid_delta (fouts ! j) (errors ! j)) [0..<nO]"
  let ?K' = "map (\<lambda>i. map (\<lambda>j. mat_of kh kw (\<lambda>p q. elem (K ! i ! j) p q - (lr / real B) *
                 (\<Sum>k\<leftarrow>[0..<B]. convn_valid_at (rot180 (?img i k)) (?dimg j k) p q)))
               [0..<nO]) [0..<nI]"
  let ?b' = "map (\<lambda>j. b ! j - (lr / real B) * (\<Sum>k\<leftarrow>[0..<B]. sum_all (?dimg j k))) [0..<nO]"
  let ?e' = "map (\<lambda>i. mat_of (m * n) B
            (\<lambda>ix k. \<Sum>j\<leftarrow>[0..<nO]. convn_full_at (?dimg j k) (rot180 (K ! i ! j)) (ix mod m) (ix div m)))
       [0..<nI]"
  have cf: "\<forall>i<nI. cols (fins ! i) = B" using assms(11) by blast
  have fe: "\<forall>j<nO. rows (fouts ! j) = rows (errors ! j) \<and> cols (fouts ! j) = cols (errors ! j) \<and>
               cols (fouts ! j) = B"
    using assms(12) by simp
  have kd: "\<forall>i<nI. \<forall>j<nO. rows (K ! i ! j) = kh \<and> cols (K ! i ! j) = kw"
    using assms(8) by blast
  have dl: "length ?deltas = nO" by simp
  have dc: "\<forall>j<nO. cols (?deltas ! j) = B"
    using assms(12) by (simp add: sigmoid_delta_def)
  have fb: "ConvolutionalLayer_feedBackward ?L ?deltas = ?e'"
  proof -
    have "ConvolutionalLayer_feedBackward ?L ?deltas =
        map (\<lambda>i. mat_of (m * n) B
            (\<lambda>ix k. \<Sum>j\<leftarrow>[0..<nO].
                convn_full_at (reshapeVectors2Images (?deltas ! j) ?S ! k)
                  (rot180 (K ! i ! j)) (ix mod m) (ix div m))) [0..<nI]"
      by (rule ConvolutionalLayer_feedBackward_eq [OF assms(1-7) kd dl dc])
    also have "\<dots> = ?e'"
      by (intro map_cong refl arg_cong [where f = "mat_of (m * n) B"] ext sum_list_cong_upt) simp
    finally show ?thesis .
  qed
  have bp: "ConvolutionalLayer_backPropagate ?L errors fins fouts lr =
      Inr (ConvolutionalLayer nI nO \<lparr>size_m = m, size_n = n\<rparr> ?K' ?b', ?e')"
    unfolding fb [symmetric]
    by (rule ConvolutionalLayer_backPropagate_eq [OF assms(1-10) cf fe assms(13)])
  have e: "\<forall>i<nI.
        rows (?e' ! i) = m * n \<and> cols (?e' ! i) = B \<and>
        (\<forall>r c k. r < m \<longrightarrow> c < n \<longrightarrow> k < B \<longrightarrow>
           elem (?e' ! i) (c * m + r) k =
             (\<Sum>j\<leftarrow>[0..<nO]. convn_full_at (?dimg j k) (rot180 (K ! i ! j)) r c))"
  proof (intro allI impI conjI)
    fix i assume i: "i < nI"
    have nth: "?e' ! i = mat_of (m * n) B
            (\<lambda>ix k. \<Sum>j\<leftarrow>[0..<nO]. convn_full_at (?dimg j k) (rot180 (K ! i ! j)) (ix mod m) (ix div m))"
      using i by simp
    show "rows (?e' ! i) = m * n" unfolding nth by simp
    show "cols (?e' ! i) = B" unfolding nth by simp
    fix r c k assume r: "r < m" and c: "c < n" and k: "k < B"
    have ix: "c * m + r < m * n" using r c by (rule index_less)
    show "elem (?e' ! i) (c * m + r) k =
             (\<Sum>j\<leftarrow>[0..<nO]. convn_full_at (?dimg j k) (rot180 (K ! i ! j)) r c)"
      unfolding nth using r
      by (simp only: elem_mat_of [OF ix k] div_mult_add_less mod_mult_self3 mod_less)
  qed
  have k: "\<forall>i<nI. \<forall>j<nO.
        rows (?K' ! i ! j) = kh \<and> cols (?K' ! i ! j) = kw \<and>
        (\<forall>p q. p < kh \<longrightarrow> q < kw \<longrightarrow>
           elem (?K' ! i ! j) p q =
             elem (K ! i ! j) p q - (lr / real B) *
               (\<Sum>k\<leftarrow>[0..<B]. convn_valid_at (rot180 (?img i k)) (?dimg j k) p q))"
    by (simp add: elem_mat_of)
  have bb: "\<forall>j<nO. ?b' ! j = b ! j - (lr / real B) * (\<Sum>k\<leftarrow>[0..<B]. sum_all (?dimg j k))"
    by simp
  have l: "length ?e' = nI" "length ?K' = nI" "length ?b' = nO" by simp_all
  show ?thesis
    apply (rule exI [of _ ?K'], rule exI [of _ ?b'], rule exI [of _ ?e'])
    using bp l e k bb by (intro conjI)
qed

lemma upt3: "[0..<3] = [0, 1, 2]" by code_simp

lemma example_bp_delta:
  "sigmoid_delta (example_bp_fouts ! 0) (example_bp_errors ! 0) =
     \<lparr>rows = 2, cols = 1, data = [1, 2]\<rparr>"
  by (simp add: sigmoid_delta_def example_bp_fouts_def example_bp_errors_def)

lemma example_bp_delta_image:
  "reshapeVectors2Images \<lparr>rows = 2, cols = 1, data = [1, 2]\<rparr> \<lparr>size_m = 1, size_n = 2\<rparr> ! 0 =
     \<lparr>rows = 1, cols = 2, data = [1, 2]\<rparr>"
  by (simp add: reshapeVectors2Images_def)

lemma example_bp_image:
  "reshapeVectors2Images (example_bp_fins ! 0) \<lparr>size_m = 1, size_n = 3\<rparr> ! 0 =
     \<lparr>rows = 1, cols = 3, data = [1, 0, 0]\<rparr>"
  by (simp add: example_bp_fins_def reshapeVectors2Images_def)

lemma example_bp_rot_image:
  "rot180 \<lparr>rows = 1, cols = 3, data = [1, 0, 0]\<rparr> = \<lparr>rows = 1, cols = 3, data = [0, 0, 1]\<rparr>"
  by (simp add: rot180_def mat_of_def elem_def upt3)

lemma example_bp_rot_kernel:
  "rot180 \<lparr>rows = 1, cols = 2, data = [3, 5]\<rparr> = \<lparr>rows = 1, cols = 2, data = [5, 3]\<rparr>"
  by (simp add: rot180_def mat_of_def elem_def upt2)

lemma example_bp_conv_entry:
  "convn_valid_at \<lparr>rows = 1, cols = 3, data = [0, 0, 1]\<rparr> \<lparr>rows = 1, cols = 2, data = [1, 2]\<rparr> 0 1 = 1"
  "convn_valid_at \<lparr>rows = 1, cols = 3, data = [0, 0, 1]\<rparr> \<lparr>rows = 1, cols = 2, data = [1, 2]\<rparr> 0 0 = 0"
  by (simp_all add: convn_valid_at_def elem_def upt2)

lemma example_bp_xcorr_entry:
  "xcorr_valid_at \<lparr>rows = 1, cols = 3, data = [0, 0, 1]\<rparr> \<lparr>rows = 1, cols = 2, data = [1, 2]\<rparr> 0 1 = 2"
  by (simp add: xcorr_valid_at_def elem_def upt2)

lemma example_bp_full_entry:
  "convn_full_at \<lparr>rows = 1, cols = 2, data = [1, 2]\<rparr> \<lparr>rows = 1, cols = 2, data = [5, 3]\<rparr> 0 0 = 5"
  "convn_full_at \<lparr>rows = 1, cols = 2, data = [1, 2]\<rparr> \<lparr>rows = 1, cols = 2, data = [5, 3]\<rparr> 0 1 = 13"
  "convn_full_at \<lparr>rows = 1, cols = 2, data = [1, 2]\<rparr> \<lparr>rows = 1, cols = 2, data = [5, 3]\<rparr> 0 2 = 6"
  by (simp_all add: convn_full_at_def elem_def upt2)

lemma example_bp_sum_all:
  "sum_all \<lparr>rows = 1, cols = 2, data = [1, 2]\<rparr> = 3"
  by (simp add: sum_all_def)

lemma mat_of_1_2: "mat_of 1 2 g = \<lparr>rows = 1, cols = 2, data = [g 0 0, g 0 1]\<rparr>"
  by (simp add: mat_of_def upt2)

lemma mat_of_3_1: "mat_of 3 1 g = \<lparr>rows = 3, cols = 1, data = [g 0 0, g 1 0, g 2 0]\<rparr>"
  by (simp add: mat_of_def upt3)

lemma example_bp_feedBackward:
  "ConvolutionalLayer_feedBackward example_bp_layer [\<lparr>rows = 2, cols = 1, data = [1, 2]\<rparr>] =
     [\<lparr>rows = 3, cols = 1, data = [5, 13, 6]\<rparr>]"
proof -
  have h: "(0::nat) < 1" "(1::nat) \<le> 1" "(1::nat) \<le> 2" "(2::nat) \<le> 3" by simp_all
  have d: "\<forall>i<1. \<forall>j<1. rows ([[\<lparr>rows = 1, cols = 2, data = [3, 5::real]\<rparr>]] ! i ! j) = 1 \<and>
      cols ([[\<lparr>rows = 1, cols = 2, data = [3, 5::real]\<rparr>]] ! i ! j) = 2"
    by simp
  have l: "length [\<lparr>rows = 2, cols = 1, data = [1, 2::real]\<rparr>] = 1" by simp
  have c: "\<forall>j<1. cols ([\<lparr>rows = 2, cols = 1, data = [1, 2::real]\<rparr>] ! j) = 1" by simp
  note E = ConvolutionalLayer_feedBackward_eq
    [OF h(1) h(1) h(1) h(2) h(2) h(3) h(4) d l c, of "[0]", folded example_bp_layer_def]
  have s1: "(1::nat) - 1 + 1 = 1" "(3::nat) - 2 + 1 = 2" "(1::nat) * 3 = 3" by simp_all
  show ?thesis
    unfolding E
    by (simp add: s1 upt1 mat_of_3_1 example_bp_delta_image example_bp_rot_kernel
        example_bp_full_entry del: One_nat_def)
qed

theorem ConvolutionalLayer_backPropagate_fused_witness:
  "\<exists>K' b' errors'.
     ConvolutionalLayer_backPropagate example_bp_layer example_bp_errors example_bp_fins
       example_bp_fouts 1 =
       Inr (ConvolutionalLayer 1 1 \<lparr>size_m = 1, size_n = 3\<rparr> K' b', errors') \<and>
     length errors' = 1 \<and> length K' = 1 \<and> length b' = 1 \<and>
     rows (errors' ! 0) = 3 \<and> cols (errors' ! 0) = 1 \<and>
     elem (errors' ! 0) 0 0 = 5 \<and> elem (errors' ! 0) 1 0 = 13 \<and> elem (errors' ! 0) 2 0 = 6 \<and>
     rows (K' ! 0 ! 0) = 1 \<and> cols (K' ! 0 ! 0) = 2 \<and>
     elem (K' ! 0 ! 0) 0 0 = 3 \<and> elem (K' ! 0 ! 0) 0 1 = 4 \<and>
     b' ! 0 = - 3"
proof -
  have h: "(0::nat) < 1" "(1::nat) \<le> 1" "(1::nat) \<le> 2" "(2::nat) \<le> 3" by simp_all
  have d: "\<forall>i<1. \<forall>j<1. wf_mat ([[\<lparr>rows = 1, cols = 2, data = [3, 5::real]\<rparr>]] ! i ! j) \<and>
      rows ([[\<lparr>rows = 1, cols = 2, data = [3, 5::real]\<rparr>]] ! i ! j) = 1 \<and>
      cols ([[\<lparr>rows = 1, cols = 2, data = [3, 5::real]\<rparr>]] ! i ! j) = 2"
    by (simp add: wf_mat_def)
  have sh: "shape [[\<lparr>rows = 1, cols = 2, data = [3, 5::real]\<rparr>]] 1 1"
    by (simp add: shape_def)
  have lb: "length [0::real] = 1" by simp
  have f: "\<forall>i<1. wf_mat (example_bp_fins ! i) \<and> rows (example_bp_fins ! i) = 1 * 3 \<and>
      cols (example_bp_fins ! i) = 1"
    by (simp add: example_bp_fins_def wf_mat_def)
  have fe: "\<forall>j<1. wf_mat (example_bp_fouts ! j) \<and> wf_mat (example_bp_errors ! j) \<and>
      rows (example_bp_fouts ! j) = (1 - 1 + 1) * (3 - 2 + 1) \<and>
      rows (example_bp_errors ! j) = (1 - 1 + 1) * (3 - 2 + 1) \<and>
      cols (example_bp_fouts ! j) = 1 \<and> cols (example_bp_errors ! j) = 1"
    by (simp add: example_bp_fouts_def example_bp_errors_def wf_mat_def)
  have lr: "(0::real) < 1" by simp
  note T = ConvolutionalLayer_backPropagate_fused
    [OF h(1) h(1) h(1) h(2) h(2) h(3) h(4) d sh lb f fe lr, folded example_bp_layer_def]
  from T obtain K' b' errors' where
    A: "ConvolutionalLayer_backPropagate example_bp_layer example_bp_errors example_bp_fins
       example_bp_fouts 1 =
       Inr (ConvolutionalLayer 1 1 \<lparr>size_m = 1, size_n = 3\<rparr> K' b', errors') \<and>
     length errors' = 1 \<and> length K' = 1 \<and> length b' = 1 \<and>
     (\<forall>i<1.
        rows (errors' ! i) = 1 * 3 \<and> cols (errors' ! i) = 1 \<and>
        (\<forall>r c k. r < 1 \<longrightarrow> c < 3 \<longrightarrow> k < 1 \<longrightarrow>
           elem (errors' ! i) (c * 1 + r) k =
             (\<Sum>j\<leftarrow>[0..<1].
                convn_full_at
                  (reshapeVectors2Images (sigmoid_delta (example_bp_fouts ! j) (example_bp_errors ! j))
                     \<lparr>size_m = 1 - 1 + 1, size_n = 3 - 2 + 1\<rparr> ! k)
                  (rot180 ([[\<lparr>rows = 1, cols = 2, data = [3, 5]\<rparr>]] ! i ! j)) r c))) \<and>
     (\<forall>i<1. \<forall>j<1.
        rows (K' ! i ! j) = 1 \<and> cols (K' ! i ! j) = 2 \<and>
        (\<forall>p q. p < 1 \<longrightarrow> q < 2 \<longrightarrow>
           elem (K' ! i ! j) p q =
             elem ([[\<lparr>rows = 1, cols = 2, data = [3, 5]\<rparr>]] ! i ! j) p q - (1 / real 1) *
               (\<Sum>k\<leftarrow>[0..<1].
                  convn_valid_at
                    (rot180 (reshapeVectors2Images (example_bp_fins ! i) \<lparr>size_m = 1, size_n = 3\<rparr> ! k))
                    (reshapeVectors2Images (sigmoid_delta (example_bp_fouts ! j) (example_bp_errors ! j))
                     \<lparr>size_m = 1 - 1 + 1, size_n = 3 - 2 + 1\<rparr> ! k) p q))) \<and>
     (\<forall>j<1.
        b' ! j = [0] ! j - (1 / real 1) *
          (\<Sum>k\<leftarrow>[0..<1].
             sum_all (reshapeVectors2Images (sigmoid_delta (example_bp_fouts ! j) (example_bp_errors ! j))
                     \<lparr>size_m = 1 - 1 + 1, size_n = 3 - 2 + 1\<rparr> ! k)))"
    by (elim exE)
  have r: "ConvolutionalLayer_backPropagate example_bp_layer example_bp_errors example_bp_fins
       example_bp_fouts 1 =
       Inr (ConvolutionalLayer 1 1 \<lparr>size_m = 1, size_n = 3\<rparr> K' b', errors')"
    by (rule conjunct1 [OF A])
  have n1: "length errors' = 1"
    by (rule conjunct1 [OF conjunct2 [OF A]])
  have n2: "length K' = 1"
    by (rule conjunct1 [OF conjunct2 [OF conjunct2 [OF A]]])
  have n3: "length b' = 1"
    by (rule conjunct1 [OF conjunct2 [OF conjunct2 [OF conjunct2 [OF A]]]])
  have e: "(\<forall>i<1.
        rows (errors' ! i) = 1 * 3 \<and> cols (errors' ! i) = 1 \<and>
        (\<forall>r c k. r < 1 \<longrightarrow> c < 3 \<longrightarrow> k < 1 \<longrightarrow>
           elem (errors' ! i) (c * 1 + r) k =
             (\<Sum>j\<leftarrow>[0..<1].
                convn_full_at
                  (reshapeVectors2Images (sigmoid_delta (example_bp_fouts ! j) (example_bp_errors ! j))
                     \<lparr>size_m = 1 - 1 + 1, size_n = 3 - 2 + 1\<rparr> ! k)
                  (rot180 ([[\<lparr>rows = 1, cols = 2, data = [3, 5]\<rparr>]] ! i ! j)) r c)))"
    by (rule conjunct1 [OF conjunct2 [OF conjunct2 [OF conjunct2 [OF conjunct2 [OF A]]]]])
  have k: "(\<forall>i<1. \<forall>j<1.
        rows (K' ! i ! j) = 1 \<and> cols (K' ! i ! j) = 2 \<and>
        (\<forall>p q. p < 1 \<longrightarrow> q < 2 \<longrightarrow>
           elem (K' ! i ! j) p q =
             elem ([[\<lparr>rows = 1, cols = 2, data = [3, 5]\<rparr>]] ! i ! j) p q - (1 / real 1) *
               (\<Sum>k\<leftarrow>[0..<1].
                  convn_valid_at
                    (rot180 (reshapeVectors2Images (example_bp_fins ! i) \<lparr>size_m = 1, size_n = 3\<rparr> ! k))
                    (reshapeVectors2Images (sigmoid_delta (example_bp_fouts ! j) (example_bp_errors ! j))
                     \<lparr>size_m = 1 - 1 + 1, size_n = 3 - 2 + 1\<rparr> ! k) p q)))"
    by (rule conjunct1 [OF conjunct2 [OF conjunct2 [OF conjunct2 [OF conjunct2 [OF conjunct2 [OF A]]]]]])
  have b: "(\<forall>j<1.
        b' ! j = [0] ! j - (1 / real 1) *
          (\<Sum>k\<leftarrow>[0..<1].
             sum_all (reshapeVectors2Images (sigmoid_delta (example_bp_fouts ! j) (example_bp_errors ! j))
                     \<lparr>size_m = 1 - 1 + 1, size_n = 3 - 2 + 1\<rparr> ! k)))"
    by (rule conjunct2 [OF conjunct2 [OF conjunct2 [OF conjunct2 [OF conjunct2 [OF conjunct2 [OF A]]]]]])
  from e have e0: "rows (errors' ! 0) = 1 * 3 \<and> cols (errors' ! 0) = 1 \<and>
        (\<forall>r c k. r < 1 \<longrightarrow> c < 3 \<longrightarrow> k < 1 \<longrightarrow>
           elem (errors' ! 0) (c * 1 + r) k =
             (\<Sum>j\<leftarrow>[0..<1].
                convn_full_at
                  (reshapeVectors2Images (sigmoid_delta (example_bp_fouts ! j) (example_bp_errors ! j))
                     \<lparr>size_m = 1 - 1 + 1, size_n = 3 - 2 + 1\<rparr> ! k)
                  (rot180 ([[\<lparr>rows = 1, cols = 2, data = [3, 5]\<rparr>]] ! 0 ! j)) r c))"
    by (elim allE [of _ 0] impE) simp_all
  from k have k0: "rows (K' ! 0 ! 0) = 1 \<and> cols (K' ! 0 ! 0) = 2 \<and>
        (\<forall>p q. p < 1 \<longrightarrow> q < 2 \<longrightarrow>
           elem (K' ! 0 ! 0) p q =
             elem ([[\<lparr>rows = 1, cols = 2, data = [3, 5]\<rparr>]] ! 0 ! 0) p q - (1 / real 1) *
               (\<Sum>k\<leftarrow>[0..<1].
                  convn_valid_at
                    (rot180 (reshapeVectors2Images (example_bp_fins ! 0) \<lparr>size_m = 1, size_n = 3\<rparr> ! k))
                    (reshapeVectors2Images (sigmoid_delta (example_bp_fouts ! 0) (example_bp_errors ! 0))
                     \<lparr>size_m = 1 - 1 + 1, size_n = 3 - 2 + 1\<rparr> ! k) p q))"
    by (elim allE [of _ 0] impE) simp_all
  from b have b0: "b' ! 0 = [0] ! 0 - (1 / real 1) *
          (\<Sum>k\<leftarrow>[0..<1].
             sum_all (reshapeVectors2Images (sigmoid_delta (example_bp_fouts ! 0) (example_bp_errors ! 0))
                     \<lparr>size_m = 1 - 1 + 1, size_n = 3 - 2 + 1\<rparr> ! k))"
    by (elim allE [of _ 0] impE) simp_all
  have s1: "(1::nat) - 1 + 1 = 1" "(3::nat) - 2 + 1 = 2" by simp_all
  have re: "rows (errors' ! 0) = 3" "cols (errors' ! 0) = 1"
    using e0 by simp_all
  have rk: "rows (K' ! 0 ! 0) = 1" "cols (K' ! 0 ! 0) = 2"
    using k0 by simp_all
  have ee: "\<And>c. c < 3 \<Longrightarrow> elem (errors' ! 0) c 0 =
      convn_full_at \<lparr>rows = 1, cols = 2, data = [1, 2]\<rparr> \<lparr>rows = 1, cols = 2, data = [5, 3]\<rparr> 0 c"
  proof -
    fix c :: nat assume c: "c < 3"
    from e0 have "\<forall>r c k. r < 1 \<longrightarrow> c < 3 \<longrightarrow> k < 1 \<longrightarrow>
           elem (errors' ! 0) (c * 1 + r) k =
             (\<Sum>j\<leftarrow>[0..<1].
                convn_full_at
                  (reshapeVectors2Images (sigmoid_delta (example_bp_fouts ! j) (example_bp_errors ! j))
                     \<lparr>size_m = 1 - 1 + 1, size_n = 3 - 2 + 1\<rparr> ! k)
                  (rot180 ([[\<lparr>rows = 1, cols = 2, data = [3, 5]\<rparr>]] ! 0 ! j)) r c)"
      by (elim conjE)
    then have "elem (errors' ! 0) (c * 1 + 0) 0 =
             (\<Sum>j\<leftarrow>[0..<1].
                convn_full_at
                  (reshapeVectors2Images (sigmoid_delta (example_bp_fouts ! j) (example_bp_errors ! j))
                     \<lparr>size_m = 1 - 1 + 1, size_n = 3 - 2 + 1\<rparr> ! 0)
                  (rot180 ([[\<lparr>rows = 1, cols = 2, data = [3, 5]\<rparr>]] ! 0 ! j)) 0 c)"
      using c by (elim allE [of _ 0] allE [of _ c] impE) simp_all
    then show "elem (errors' ! 0) c 0 =
      convn_full_at \<lparr>rows = 1, cols = 2, data = [1, 2]\<rparr> \<lparr>rows = 1, cols = 2, data = [5, 3]\<rparr> 0 c"
      by (simp add: s1 upt1 example_bp_delta example_bp_delta_image example_bp_rot_kernel
          del: One_nat_def)
  qed
  have e5: "elem (errors' ! 0) 0 0 = 5" "elem (errors' ! 0) 1 0 = 13" "elem (errors' ! 0) 2 0 = 6"
    by (simp_all add: ee example_bp_full_entry del: One_nat_def)
  have kk: "\<And>q. q < 2 \<Longrightarrow> elem (K' ! 0 ! 0) 0 q =
      elem \<lparr>rows = 1, cols = 2, data = [3, 5]\<rparr> 0 q -
        convn_valid_at \<lparr>rows = 1, cols = 3, data = [0, 0, 1]\<rparr> \<lparr>rows = 1, cols = 2, data = [1, 2]\<rparr> 0 q"
  proof -
    fix q :: nat assume q: "q < 2"
    from k0 have "\<forall>p q. p < 1 \<longrightarrow> q < 2 \<longrightarrow>
           elem (K' ! 0 ! 0) p q =
             elem ([[\<lparr>rows = 1, cols = 2, data = [3, 5]\<rparr>]] ! 0 ! 0) p q - (1 / real 1) *
               (\<Sum>k\<leftarrow>[0..<1].
                  convn_valid_at
                    (rot180 (reshapeVectors2Images (example_bp_fins ! 0) \<lparr>size_m = 1, size_n = 3\<rparr> ! k))
                    (reshapeVectors2Images (sigmoid_delta (example_bp_fouts ! 0) (example_bp_errors ! 0))
                     \<lparr>size_m = 1 - 1 + 1, size_n = 3 - 2 + 1\<rparr> ! k) p q)"
      by (elim conjE)
    then have "elem (K' ! 0 ! 0) 0 q =
             elem ([[\<lparr>rows = 1, cols = 2, data = [3, 5]\<rparr>]] ! 0 ! 0) 0 q - (1 / real 1) *
               (\<Sum>k\<leftarrow>[0..<1].
                  convn_valid_at
                    (rot180 (reshapeVectors2Images (example_bp_fins ! 0) \<lparr>size_m = 1, size_n = 3\<rparr> ! k))
                    (reshapeVectors2Images (sigmoid_delta (example_bp_fouts ! 0) (example_bp_errors ! 0))
                     \<lparr>size_m = 1 - 1 + 1, size_n = 3 - 2 + 1\<rparr> ! k) 0 q)"
      using q by (elim allE [of _ 0] allE [of _ q] impE) simp_all
    then show "elem (K' ! 0 ! 0) 0 q =
      elem \<lparr>rows = 1, cols = 2, data = [3, 5]\<rparr> 0 q -
        convn_valid_at \<lparr>rows = 1, cols = 3, data = [0, 0, 1]\<rparr> \<lparr>rows = 1, cols = 2, data = [1, 2]\<rparr> 0 q"
      by (simp add: s1 upt1 example_bp_delta example_bp_delta_image example_bp_image
          example_bp_rot_image del: One_nat_def)
  qed
  have k5: "elem (K' ! 0 ! 0) 0 0 = 3" "elem (K' ! 0 ! 0) 0 1 = 4"
    by (simp_all add: kk example_bp_conv_entry del: One_nat_def) (simp_all add: elem_def)
  have b5: "b' ! 0 = - 3"
    using b0
    by (simp add: s1 upt1 example_bp_delta example_bp_delta_image example_bp_sum_all
        del: One_nat_def)
  show ?thesis
    using r n1 n2 n3 re e5 rk k5 b5 by blast
qed

text \<open>
  On the example the rotated input image is \<open>(0 0 1)\<close> and the delta image \<open>(1 2)\<close>:
  the convolution gives \<open>(0 1)\<close> and the layer leaves the kernel \<open>(3 4)\<close>, where the
  cross-correlation of the claim gives \<open>(0 2)\<close> and the entry \<open>5 - 2 = 3\<close>.
\<close>

theorem ConvolutionalLayer_backPropagate_counterexample:
  "ConvolutionalLayer_backPropagate example_bp_layer example_bp_errors example_bp_fins
       example_bp_fouts 1 =
     Inr (ConvolutionalLayer 1 1 \<lparr>size_m = 1, size_n = 3\<rparr>
            [[\<lparr>rows = 1, cols = 2, data = [3, 4]\<rparr>]] [- 3],
          [\<lparr>rows = 3, cols = 1, data = [5, 13, 6]\<rparr>]) \<and>
   spec_backPropagate_kernel_entry example_bp_layer example_bp_errors example_bp_fins
       example_bp_fouts 1 0 0 0 1 = 3 \<and>
   elem \<lparr>rows = 1, cols = 2, data = [3, 4]\<rparr> 0 1 = 4"
proof -
  have h: "(0::nat) < 1" "(1::nat) \<le> 1" "(1::nat) \<le> 2" "(2::nat) \<le> 3" by simp_all
  have d: "\<forall>i<1. \<forall>j<1. wf_mat ([[\<lparr>rows = 1, cols = 2, data = [3, 5::real]\<rparr>]] ! i ! j) \<and>
      rows ([[\<lparr>rows = 1, cols = 2, data = [3, 5::real]\<rparr>]] ! i ! j) = 1 \<and>
      cols ([[\<lparr>rows = 1, cols = 2, data = [3, 5::real]\<rparr>]] ! i ! j) = 2"
    by (simp add: wf_mat_def)
  have sh: "shape [[\<lparr>rows = 1, cols = 2, data = [3, 5::real]\<rparr>]] 1 1"
    by (simp add: shape_def)
  have lb: "length [0::real] = 1" by simp
  have f: "\<forall>i<1. cols (example_bp_fins ! i) = 1"
    by (simp add: example_bp_fins_def)
  have fe: "\<forall>j<1. rows (example_bp_fouts ! j) = rows (example_bp_errors ! j) \<and>
      cols (example_bp_fouts ! j) = cols (example_bp_errors ! j) \<and>
      cols (example_bp_fouts ! j) = 1"
    by (simp add: example_bp_fouts_def example_bp_errors_def)
  have lr: "(0::real) < 1" by simp
  note E = ConvolutionalLayer_backPropagate_eq
    [OF h(1) h(1) h(1) h(2) h(2) h(3) h(4) d sh lb f fe lr, folded example_bp_layer_def]
  have s1: "(1::nat) - 1 + 1 = 1" "(3::nat) - 2 + 1 = 2" by simp_all
  have a: "ConvolutionalLayer_backPropagate example_bp_layer example_bp_errors example_bp_fins
       example_bp_fouts 1 =
     Inr (ConvolutionalLayer 1 1 \<lparr>size_m = 1, size_n = 3\<rparr>
            [[\<lparr>rows = 1, cols = 2, data = [3, 4]\<rparr>]] [- 3],
          [\<lparr>rows = 3, cols = 1, data = [5, 13, 6]\<rparr>])"
    unfolding E
    by (simp add: s1 upt1 mat_of_1_2 example_bp_delta example_bp_delta_image example_bp_image
        example_bp_rot_image example_bp_conv_entry example_bp_sum_all example_bp_feedBackward
        elem_def del: One_nat_def)
  have b: "spec_backPropagate_kernel_entry example_bp_layer example_bp_errors example_bp_fins
       example_bp_fouts 1 0 0 0 1 = 3"
  proof -
    have c0: "cols (example_bp_fins ! 0) = 1" by (simp add: example_bp_fins_def)
    have i: "get_input_img_size example_bp_layer = \<lparr>size_m = 1, size_n = 3\<rparr>"
      by (simp add: example_bp_layer_def)
    have ou: "get_output_img_size example_bp_layer = \<lparr>size_m = 1, size_n = 2\<rparr>"
      by (simp add: example_bp_layer_def)
    have k: "elem (kernels example_bp_layer ! 0 ! 0) 0 1 = 5"
      by (simp add: example_bp_layer_def elem_def)
    show ?thesis
      unfolding spec_backPropagate_kernel_entry_def c0 i ou k
      by (simp add: upt1 example_bp_delta example_bp_delta_image example_bp_image
          example_bp_rot_image example_bp_xcorr_entry del: One_nat_def)
  qed
  have c: "elem \<lparr>rows = 1, cols = 2, data = [3, 4]\<rparr> 0 1 = 4"
    by (simp add: elem_def)
  show ?thesis using a b c by blast
qed

end
